theory Spec2Isabelle
  imports Main "HOL-Library.Word"
begin

section \<open>The IR that BasicBlockTracer.cpp reads and rewrites\<close>

text \<open>
  The pass of \<^verbatim>\<open>passes/BasicBlockTracer.cpp\<close> walks an LLVM module, numbers its
  functions, blocks and instructions, inserts calls and inline assembly, and emits a
  descriptor file and a PC map. The embedding keeps the part of the IR the pass looks at.
  Objects the C++ code compares by address carry that address as a number
  (\<open>bptr\<close>, \<open>lptr\<close>); functions are global symbols and are referred to by name.
  Counters declared \<^verbatim>\<open>uint32_t\<close> are 32-bit words and wrap as they do in C++.
\<close>

type_synonym u32 = "32 word"

datatype ty =
    VoidTy
  | IntegerTy u32
  | PointerTy nat
  | FloatingPointTy u32
  | OtherTy nat

text \<open>
  An operand. \<open>Local\<close> is a value of the input program (an argument or the result of an
  instruction) with its type. The casts and the select are what the \<^verbatim>\<open>IRBuilder\<close>
  calls of the pass create; an operand built that way is kept as a tree.
\<close>

datatype val =
    Local nat ty
  | ConstantInt u32 nat
  | ConstantPointerNull
  | GlobalRef string
  | FunctionRef string
  | BlockAddress string nat
  | PointerCast val
  | PtrToInt val u32
  | ZExt val u32
  | SExt val u32
  | Trunc val u32
  | BitCast val ty
  | Select val val val
  | CallResult string "val list"

text \<open>
  The called operand of a call. \<open>DirectCallee\<close> is the case where
  \<^verbatim>\<open>getCalledFunction()\<close> is not null: the operand is a function of the module and
  is called at its own type. A function called at another type is an \<open>IndirectCallee\<close>
  with a \<open>FunctionRef\<close> operand.
\<close>

datatype callee =
    DirectCallee string
  | InlineAsmCallee string
  | IndirectCallee val

text \<open>
  Instructions. \<open>CallBase\<close> is a \<^verbatim>\<open>call\<close>, an \<^verbatim>\<open>invoke\<close> or a \<^verbatim>\<open>callbr\<close>; it
  carries which of the three it is, its result type, its called operand and its arguments;
  \<open>OtherInst\<close> stands for every instruction the pass does not look into (arithmetic,
  returns, switches, ...), with its result type and an opaque body.
\<close>

datatype callop = CallInst | InvokeInst | CallBrInst

datatype inst =
    PHINode string
  | EHPadInst string
  | LoadInst ty val
  | StoreInst val val
  | Br nat
  | CondBr val nat nat
  | CallBase callop ty callee "val list"
  | OtherInst ty string

record block =
  bptr :: nat
  bname :: string
  insts :: "inst list"

record func =
  fname :: string
  blocks :: "block list"

datatype Constant =
    ConstantDataString string bool
  | ConstantArray "val list list"

datatype linkage = PrivateLinkage | ExternalLinkage

record GlobalVariable =
  gname :: string
  isConstant :: bool
  glinkage :: linkage
  initializer :: Constant
  gsection :: string
  alignment :: nat

text \<open>
  A module: its functions and global variables in order, and the four appending arrays
  \<^verbatim>\<open>llvm.global_ctors\<close>, \<^verbatim>\<open>llvm.global_dtors\<close>, \<^verbatim>\<open>llvm.used\<close> and
  \<^verbatim>\<open>llvm.compiler.used\<close>, which list global values by name.
\<close>

record module =
  ModuleIdentifier :: string
  FunctionList :: "func list"
  GlobalList :: "GlobalVariable list"
  global_ctors :: "(string \<times> nat) list"
  global_dtors :: "(string \<times> nat) list"
  llvm_used :: "string list"
  compiler_used :: "string list"

datatype loop = Loop (lptr: nat) (getHeader: nat) (getSubLoops: "loop list")

record LoopInfo =
  TopLevelLoops :: "loop list"
  getLoopFor :: "nat \<Rightarrow> loop option"

datatype json =
    JString string
  | JNumber nat
  | JArray "json list"
  | JObject "(string \<times> json) list"

record filesystem =
  directories :: "string set"
  files :: "string \<rightharpoonup> json list"

text \<open>
  What the pass takes from LLVM and from the operating system: the data layout, the loop
  analysis, the instruction printer, the environment, the path functions of
  \<^verbatim>\<open>std::filesystem\<close>, whether a directory can be created (or is there already) and
  whether a file can be opened for writing. The printer
  \<^verbatim>\<open>I.print(OS)\<close> is handed the function as it stands when the instruction is printed,
  since the instruction is printed in place, inside the function being rewritten. The
  store sizes are those of types of fixed size (the conversion of lines 438 and 455
  aborts on a scalable vector type).
\<close>

record host =
  getPointerSizeInBits :: "nat \<Rightarrow> u32"
  getPointerSize :: nat
  getTypeStoreSizeInBits :: "ty \<Rightarrow> nat"
  getTypeStoreSize :: "ty \<Rightarrow> nat"
  LoopAnalysis :: "func \<Rightarrow> LoopInfo"
  print_inst :: "func \<Rightarrow> inst \<Rightarrow> string"
  getenv :: "string \<Rightarrow> string option"
  parent_path :: "string \<Rightarrow> string"
  filename :: "string \<Rightarrow> string"
  create_directories :: "string \<Rightarrow> bool"
  is_open :: "string \<Rightarrow> bool"

section \<open>The data the pass collects\<close>

datatype InstKind = Generic | Load | Store | Branch | Call

datatype CallArgKind = Unknown | Integer | Pointer | Floating

record InstructionStaticInfo =
  Kind :: InstKind
  InstId :: u32
  BranchTargets :: "u32 list"
  Buffer :: string

record BlockStaticInfo =
  FuncId :: u32
  FuncName :: string
  BbId :: u32
  BbName :: string
  Header :: string
  Instructions :: "InstructionStaticInfo list"

record BlockPcInfo =
  PcFuncId :: u32
  PcBbId :: u32
  Address :: val

record counters =
  NextMemInstId :: u32
  NextBranchInstId :: u32
  NextCallInstId :: u32

section \<open>Helpers of the pass\<close>

definition kInvalidLoopId :: u32 where
  "kInvalidLoopId = - 1"

definition CallArgKind_code :: "CallArgKind \<Rightarrow> u32" where
  "CallArgKind_code k = (case k of Unknown \<Rightarrow> 0 | Integer \<Rightarrow> 1 | Pointer \<Rightarrow> 2 | Floating \<Rightarrow> 3)"

definition starts_with :: "string \<Rightarrow> string \<Rightarrow> bool" where
  "starts_with Name Prefix = (take (length Prefix) Name = Prefix)"

fun to_string :: "nat \<Rightarrow> string" where
  "to_string n =
     (if n < 10 then [char_of (48 + n)]
      else to_string (n div 10) @ [char_of (48 + n mod 10)])"

declare to_string.simps [simp del]

definition isStaticOnlyMode :: "host \<Rightarrow> bool" where
  "isStaticOnlyMode h =
     (case getenv h ''BBTRACE_STATIC_ONLY'' of
        None \<Rightarrow> False
      | Some Env \<Rightarrow>
          (case Env of
             [] \<Rightarrow> False
           | c # _ \<Rightarrow> c \<in> set ''1TtYy''))"

definition isInlineAsmCall :: "callee \<Rightarrow> bool" where
  "isInlineAsmCall c = (case c of InlineAsmCallee _ \<Rightarrow> True | _ \<Rightarrow> False)"

definition isBbtraceRuntimeCall :: "callee \<Rightarrow> bool" where
  "isBbtraceRuntimeCall c =
     (case c of DirectCallee Name \<Rightarrow> starts_with Name ''__bbtrace_'' | _ \<Rightarrow> False)"

text \<open>
  \<^verbatim>\<open>isa<IntrinsicInst>\<close>: a \<^verbatim>\<open>call\<close> instruction (not an \<^verbatim>\<open>invoke\<close> or a
  \<^verbatim>\<open>callbr\<close>) whose called function is an intrinsic, which LLVM recognises by the
  reserved name prefix.
\<close>

definition isIntrinsicInst :: "callop \<Rightarrow> callee \<Rightarrow> bool" where
  "isIntrinsicInst cop c =
     (cop = CallInst \<and> (case c of DirectCallee Name \<Rightarrow> starts_with Name ''llvm.'' | _ \<Rightarrow> False))"

definition getCalledOperand :: "callee \<Rightarrow> val" where
  "getCalledOperand c =
     (case c of
        DirectCallee Name \<Rightarrow> FunctionRef Name
      | InlineAsmCallee a \<Rightarrow> GlobalRef a
      | IndirectCallee v \<Rightarrow> v)"

fun typeOf :: "val \<Rightarrow> ty" where
  "typeOf (Local _ t) = t"
| "typeOf (ConstantInt w _) = IntegerTy w"
| "typeOf ConstantPointerNull = PointerTy 0"
| "typeOf (GlobalRef _) = PointerTy 0"
| "typeOf (FunctionRef _) = PointerTy 0"
| "typeOf (BlockAddress _ _) = PointerTy 0"
| "typeOf (PointerCast _) = PointerTy 0"
| "typeOf (PtrToInt _ w) = IntegerTy w"
| "typeOf (ZExt _ w) = IntegerTy w"
| "typeOf (SExt _ w) = IntegerTy w"
| "typeOf (Trunc _ w) = IntegerTy w"
| "typeOf (BitCast _ t) = t"
| "typeOf (Select _ a _) = typeOf a"
| "typeOf (CallResult _ _) = PointerTy 0"

definition constI32 :: "u32 \<Rightarrow> val" where
  "constI32 Value = ConstantInt 32 (unat Value)"

definition constI64 :: "nat \<Rightarrow> val" where
  "constI64 Value = ConstantInt 64 (Value mod 2 ^ 64)"

definition lookup :: "('k \<rightharpoonup> u32) \<Rightarrow> 'k \<Rightarrow> u32" where
  "lookup m k = (case m k of None \<Rightarrow> 0 | Some v \<Rightarrow> v)"

text \<open>
  \<^verbatim>\<open>IRBuilder::CreatePointerCast\<close> and \<^verbatim>\<open>ConstantExpr::getPointerCast\<close> to the
  pointer type of address space 0: a value that has that type already is returned as it is.
\<close>

definition CreatePointerCast :: "val \<Rightarrow> val" where
  "CreatePointerCast V = (if typeOf V = PointerTy 0 then V else PointerCast V)"

definition isPointerTy :: "ty \<Rightarrow> bool" where
  "isPointerTy T = (case T of PointerTy _ \<Rightarrow> True | _ \<Rightarrow> False)"

definition isIntegerTy :: "ty \<Rightarrow> bool" where
  "isIntegerTy T = (case T of IntegerTy _ \<Rightarrow> True | _ \<Rightarrow> False)"

definition isFloatingPointTy :: "ty \<Rightarrow> bool" where
  "isFloatingPointTy T = (case T of FloatingPointTy _ \<Rightarrow> True | _ \<Rightarrow> False)"

definition getPointerAddressSpace :: "ty \<Rightarrow> nat" where
  "getPointerAddressSpace T = (case T of PointerTy AS \<Rightarrow> AS | _ \<Rightarrow> 0)"

definition getIntegerBitWidth :: "ty \<Rightarrow> u32" where
  "getIntegerBitWidth T = (case T of IntegerTy w \<Rightarrow> w | _ \<Rightarrow> 0)"

definition getScalarSizeInBits :: "ty \<Rightarrow> u32" where
  "getScalarSizeInBits T = (case T of IntegerTy w \<Rightarrow> w | FloatingPointTy w \<Rightarrow> w | _ \<Rightarrow> 0)"

text \<open>
  \<^verbatim>\<open>materializeCallArg\<close> (lines 111-163): the kind, the recorded bit width and the
  64-bit operand handed to the call hook. \<^verbatim>\<open>BitWidth\<close> is a \<^verbatim>\<open>uint32_t\<close>; the store
  size of a type is a 64-bit quantity that the assignment narrows.
\<close>

definition materializeCallArg :: "host \<Rightarrow> val \<Rightarrow> CallArgKind \<times> u32 \<times> val" where
  "materializeCallArg h Arg =
     (let Ty = typeOf Arg in
      if isPointerTy Ty then
        (let BitWidth0 = getPointerSizeInBits h (getPointerAddressSpace Ty);
             BitWidth = (if BitWidth0 = 0 then getPointerSizeInBits h 0 else BitWidth0);
             PtrInt = PtrToInt Arg (max BitWidth 1)
         in (Pointer, BitWidth,
             if BitWidth < 64 then ZExt PtrInt 64
             else if 64 < BitWidth then Trunc PtrInt 64
             else PtrInt))
      else if isIntegerTy Ty then
        (let BitWidth = getIntegerBitWidth Ty
         in (Integer, BitWidth,
             if BitWidth < 64 then ZExt Arg 64
             else if 64 < BitWidth then Trunc Arg 64
             else if typeOf Arg \<noteq> IntegerTy 64 then BitCast Arg (IntegerTy 64)
             else Arg))
      else if isFloatingPointTy Ty then
        (let BitWidth0 = getScalarSizeInBits Ty;
             BitWidth = (if BitWidth0 = 0 then word_of_nat (getTypeStoreSizeInBits h Ty) else BitWidth0);
             Bits = BitCast Arg (IntegerTy (max BitWidth 1))
         in (Floating, BitWidth,
             if BitWidth < 64 then ZExt Bits 64
             else if 64 < BitWidth then Trunc Bits 64
             else if typeOf Bits \<noteq> IntegerTy 64 then BitCast Bits (IntegerTy 64)
             else Bits))
      else
        (let BitWidth0 = (word_of_nat (getTypeStoreSizeInBits h Ty) :: u32);
             BitWidth = (if BitWidth0 = 0 then 1 else BitWidth0)
         in (Unknown, BitWidth, ConstantInt 64 0)))"

definition printInstruction :: "host \<Rightarrow> func \<Rightarrow> inst \<Rightarrow> string" where
  "printInstruction h F I = ''  '' @ print_inst h F I"

definition hasName :: "string \<Rightarrow> bool" where
  "hasName Name = (Name \<noteq> [])"

definition makeBlockHeader :: "block \<Rightarrow> u32 \<Rightarrow> string" where
  "makeBlockHeader BB BId =
     (if hasName (bname BB) then bname BB else ''bb_'' @ to_string (unat BId)) @ '':''"

definition instKindToString :: "InstKind \<Rightarrow> string" where
  "instKindToString K =
     (case K of
        Load \<Rightarrow> ''load''
      | Store \<Rightarrow> ''store''
      | Branch \<Rightarrow> ''branch''
      | Call \<Rightarrow> ''call''
      | Generic \<Rightarrow> ''generic'')"

text \<open>
  \<^verbatim>\<open>getOrInsertFunction\<close>: the hook is declared (a function without blocks, appended to
  the module) unless a function of that name is there already.
\<close>

definition isDeclaration :: "func \<Rightarrow> bool" where
  "isDeclaration F = (blocks F = [])"

definition declareHook :: "module \<Rightarrow> string \<Rightarrow> module" where
  "declareHook M Name =
     (if Name \<in> set (map fname (FunctionList M)) then M
      else M\<lparr>FunctionList := FunctionList M @ [\<lparr>fname = Name, blocks = []\<rparr>]\<rparr>)"

text \<open>
  \<^verbatim>\<open>getModuleNameGlobal\<close> (lines 276-285) and \<^verbatim>\<open>ensureCtorDtor\<close> (lines 243-274).
  The global and the two functions are created under the names the code passes to LLVM;
  the embedding does not model the renaming LLVM applies to a new value whose name is
  taken in the module already.
\<close>

definition getModuleNameGlobal :: "module \<Rightarrow> GlobalVariable" where
  "getModuleNameGlobal M =
     \<lparr>gname = ''__bbtrace_module_name'', isConstant = True, glinkage = PrivateLinkage,
      initializer = ConstantDataString (ModuleIdentifier M) True, gsection = [],
      alignment = 1\<rparr>"

definition ensureCtorDtor :: "module \<Rightarrow> module" where
  "ensureCtorDtor M =
     (let M1 = declareHook M ''__bbtrace_register_module'';
          M2 = declareHook M1 ''__bbtrace_finalize'';
          NameGlobal = getModuleNameGlobal M2;
          Ctor = \<lparr>fname = ''__bbtrace_ctor'',
                  blocks = [\<lparr>bptr = 0, bname = ''entry'',
                    insts = [CallBase CallInst VoidTy (DirectCallee ''__bbtrace_register_module'')
                               [CreatePointerCast (GlobalRef (gname NameGlobal))],
                             OtherInst VoidTy ''ret void'']\<rparr>]\<rparr>;
          Dtor = \<lparr>fname = ''__bbtrace_dtor'',
                  blocks = [\<lparr>bptr = 0, bname = ''entry'',
                    insts = [CallBase CallInst VoidTy (DirectCallee ''__bbtrace_finalize'') [],
                             OtherInst VoidTy ''ret void'']\<rparr>]\<rparr>
      in M2\<lparr>GlobalList := GlobalList M2 @ [NameGlobal],
            FunctionList := FunctionList M2 @ [Ctor, Dtor],
            global_ctors := global_ctors M2 @ [(fname Ctor, 0)],
            global_dtors := global_dtors M2 @ [(fname Dtor, 0)]\<rparr>)"

text \<open>
  \<^verbatim>\<open>emitInstPcRecord\<close> (lines 300-321): the inline assembly that pushes one record into
  \<^verbatim>\<open>.bbtrace_inst\<close> and defines the local label the record points to. The module of the
  insertion block is never null for an instruction of a function of the module, so the
  early return of line 303 is not taken.
\<close>

definition AsmTemplate :: "u32 \<Rightarrow> u32 \<Rightarrow> u32 \<Rightarrow> string" where
  "AsmTemplate FId BId IId =
     ''.pushsection .bbtrace_inst,'' @ [CHR 0x22, CHR ''a'', CHR 0x22] @ '',@progbits'' @ [CHR 0x0A]
     @ ''.long '' @ to_string (unat FId) @ [CHR 0x0A]
     @ ''.long '' @ to_string (unat BId) @ [CHR 0x0A]
     @ ''.long '' @ to_string (unat IId) @ [CHR 0x0A]
     @ ''.long 0'' @ [CHR 0x0A]
     @ ''.quad 1f'' @ [CHR 0x0A]
     @ ''.popsection'' @ [CHR 0x0A]
     @ ''1:'' @ [CHR 0x0A]"

definition emitInstPcRecord :: "u32 \<Rightarrow> u32 \<Rightarrow> u32 \<Rightarrow> inst" where
  "emitInstPcRecord FId BId IId = CallBase CallInst VoidTy (InlineAsmCallee (AsmTemplate FId BId IId)) []"

section \<open>instrumentFunction\<close>

text \<open>
  The loop of lines 365-369: loops are numbered in the order they are popped from the
  back of \<^verbatim>\<open>LoopQueue\<close>, each pushing its sub-loops.
\<close>

function assignLoopIds :: "loop list \<Rightarrow> u32 \<Rightarrow> (nat \<rightharpoonup> u32) \<Rightarrow> (nat \<rightharpoonup> u32)" where
  "assignLoopIds LoopQueue NextLoopId LoopIds =
     (if LoopQueue = [] then LoopIds
      else let L = last LoopQueue
           in assignLoopIds (butlast LoopQueue @ getSubLoops L) (NextLoopId + 1)
                (LoopIds(lptr L \<mapsto> NextLoopId)))"
  by pat_completeness auto
termination
proof (relation "measure (\<lambda>(q, n, m). size_list size q)")
  show "wf (measure (\<lambda>(q, n, m). size_list size q))"
    by simp
next
  fix LoopQueue :: "loop list" and NextLoopId :: u32 and LoopIds :: "nat \<rightharpoonup> u32" and x
  assume ne: "LoopQueue \<noteq> []" and x: "x = last LoopQueue"
  obtain p hd subs where L: "x = Loop p hd subs"
    by (cases x)
  have "size_list size LoopQueue = size_list size (butlast LoopQueue @ [x])"
    using ne x by simp
  also have "\<dots> = size_list size (butlast LoopQueue) + size x + 1"
    by simp
  finally have "size_list size (butlast LoopQueue @ getSubLoops x) < size_list size LoopQueue"
    using L by simp
  then show "((butlast LoopQueue @ getSubLoops x, NextLoopId + 1, LoopIds(lptr x \<mapsto> NextLoopId)),
              (LoopQueue, NextLoopId, LoopIds)) \<in> measure (\<lambda>(q, n, m). size_list size q)"
    by simp
qed

declare assignLoopIds.simps [simp del]

text \<open>Lines 372-374: \<^verbatim>\<open>BlockIds[&BB] = NextBlockId++\<close> over the blocks of the function.\<close>

fun assignBlockIds :: "block list \<Rightarrow> u32 \<Rightarrow> (nat \<rightharpoonup> u32) \<Rightarrow> (nat \<rightharpoonup> u32)" where
  "assignBlockIds [] NextBlockId BlockIds = BlockIds"
| "assignBlockIds (BB # rest) NextBlockId BlockIds =
     assignBlockIds rest (NextBlockId + 1) (BlockIds(bptr BB \<mapsto> NextBlockId))"

text \<open>
  \<^verbatim>\<open>BasicBlock::getFirstInsertionPt\<close>: behind the leading PHI nodes and, if one follows
  them, behind the exception-handling pad. \<open>insertBefore k\<close> is an \<^verbatim>\<open>IRBuilder\<close> whose
  insertion point is the instruction at position \<open>k\<close>. The blocks are taken to have an
  insertion point: for a block that consists of a \<^verbatim>\<open>catchswitch\<close> LLVM returns the
  end of the block, which line 401 dereferences.
\<close>

definition isPHI :: "inst \<Rightarrow> bool" where
  "isPHI I = (case I of PHINode _ \<Rightarrow> True | _ \<Rightarrow> False)"

definition isEHPad :: "inst \<Rightarrow> bool" where
  "isEHPad I = (case I of EHPadInst _ \<Rightarrow> True | _ \<Rightarrow> False)"

definition getFirstInsertionPt :: "inst list \<Rightarrow> nat" where
  "getFirstInsertionPt body =
     (let n = length (takeWhile isPHI body)
      in case drop n body of
           [] \<Rightarrow> n
         | I # _ \<Rightarrow> if isEHPad I then n + 1 else n)"

definition insertBefore :: "nat \<Rightarrow> inst \<Rightarrow> inst list \<Rightarrow> inst list" where
  "insertBefore k I body = take k body @ I # drop k body"

definition isEntryBlock :: "func \<Rightarrow> block \<Rightarrow> bool" where
  "isEntryBlock F BB = (case blocks F of [] \<Rightarrow> False | E # _ \<Rightarrow> bptr BB = bptr E)"

text \<open>Lines 392-397: the address constant of a block.\<close>

definition blockAddrConst :: "func \<Rightarrow> block \<Rightarrow> val" where
  "blockAddrConst F BB =
     (if isEntryBlock F BB then CreatePointerCast (FunctionRef (fname F))
      else BlockAddress (fname F) (bptr BB))"

text \<open>Lines 400-419: the hooks at the head of a block, in instrumented mode.\<close>

definition insertEntryHooks ::
  "LoopInfo \<Rightarrow> (nat \<rightharpoonup> u32) \<Rightarrow> u32 \<Rightarrow> u32 \<Rightarrow> val \<Rightarrow> block \<Rightarrow> inst list" where
  "insertEntryHooks LI LoopIds FId BId AddrConst BB =
     (let BlockAddrValue = CreatePointerCast AddrConst;
          LoopHint = (case getLoopFor LI (bptr BB) of
                        None \<Rightarrow> kInvalidLoopId
                      | Some Containing \<Rightarrow> lookup LoopIds (lptr Containing));
          body = insertBefore (getFirstInsertionPt (insts BB))
                   (CallBase CallInst VoidTy (DirectCallee ''__bbtrace_on_basic_block'')
                      [constI32 FId, constI32 BId, constI32 LoopHint, BlockAddrValue])
                   (insts BB)
      in case getLoopFor LI (bptr BB) of
           None \<Rightarrow> body
         | Some Containing \<Rightarrow>
             if getHeader Containing = bptr BB then
               insertBefore (getFirstInsertionPt body)
                 (CallBase CallInst VoidTy (DirectCallee ''__bbtrace_on_loop'')
                    [constI32 FId, constI32 (lookup LoopIds (lptr Containing))])
                 body
             else body)"

text \<open>
  Lines 426-546, the body of the loop over the instructions of a block for one
  instruction \<open>I\<close> that was not skipped at line 424, with \<open>Buf\<close> the text printed at
  line 427. The result is the list of instructions inserted in front of \<open>I\<close>, the
  descriptor entry of \<open>I\<close> and the counters.
\<close>

definition genericInfo :: "string \<Rightarrow> InstructionStaticInfo" where
  "genericInfo Buf = \<lparr>Kind = Generic, InstId = 0, BranchTargets = [], Buffer = Buf\<rparr>"

definition callOperands :: "host \<Rightarrow> val list \<Rightarrow> val list" where
  "callOperands h Args =
     concat (map (\<lambda>Arg. case materializeCallArg h Arg of
                           (K, BitWidth, Materialized) \<Rightarrow>
                             [constI32 (CallArgKind_code K), constI32 BitWidth, Materialized])
                 Args)"

fun instrumentInstruction ::
  "host \<Rightarrow> bool \<Rightarrow> string \<Rightarrow> (nat \<rightharpoonup> u32) \<Rightarrow> u32 \<Rightarrow> u32 \<Rightarrow> string \<Rightarrow> counters \<Rightarrow> inst
     \<Rightarrow> inst list \<times> InstructionStaticInfo \<times> counters" where
  "instrumentInstruction h en FName BlockIds FId BId Buf cs (LoadInst T Ptr) =
     (let IId = NextMemInstId cs
      in (emitInstPcRecord FId BId IId #
            (if en then
               [CallBase CallInst VoidTy (DirectCallee ''__bbtrace_on_mem'')
                  [constI32 FId, constI32 BId, constI32 IId, CreatePointerCast Ptr,
                   constI64 (getTypeStoreSize h T), ConstantInt 1 0]]
             else []),
          \<lparr>Kind = Load, InstId = IId, BranchTargets = [], Buffer = Buf\<rparr>,
          cs\<lparr>NextMemInstId := IId + 1\<rparr>))"
| "instrumentInstruction h en FName BlockIds FId BId Buf cs (StoreInst V Ptr) =
     (let IId = NextMemInstId cs
      in (emitInstPcRecord FId BId IId #
            (if en then
               [CallBase CallInst VoidTy (DirectCallee ''__bbtrace_on_mem'')
                  [constI32 FId, constI32 BId, constI32 IId, CreatePointerCast Ptr,
                   constI64 (getTypeStoreSize h (typeOf V)), ConstantInt 1 1]]
             else []),
          \<lparr>Kind = Store, InstId = IId, BranchTargets = [], Buffer = Buf\<rparr>,
          cs\<lparr>NextMemInstId := IId + 1\<rparr>))"
| "instrumentInstruction h en FName BlockIds FId BId Buf cs (Br Succ0) =
     (let IId = NextBranchInstId cs;
          TargetId = lookup BlockIds Succ0;
          Succ0Addr = CreatePointerCast (BlockAddress FName Succ0)
      in ((if en then
             [CallBase CallInst VoidTy (DirectCallee ''__bbtrace_on_branch'')
                [constI32 FId, constI32 BId, constI32 IId, constI32 TargetId, Succ0Addr]]
           else []),
          \<lparr>Kind = Branch, InstId = IId, BranchTargets = [TargetId], Buffer = Buf\<rparr>,
          cs\<lparr>NextBranchInstId := IId + 1\<rparr>))"
| "instrumentInstruction h en FName BlockIds FId BId Buf cs (CondBr Cond Succ0 Succ1) =
     (let IId = NextBranchInstId cs;
          Succ0Addr = CreatePointerCast (BlockAddress FName Succ0);
          TrueId = constI32 (lookup BlockIds Succ0);
          FalseId = constI32 (lookup BlockIds Succ1);
          Taken = Select Cond TrueId FalseId;
          Succ1Addr = CreatePointerCast (BlockAddress FName Succ1);
          TakenAddr = Select Cond Succ0Addr Succ1Addr
      in ((if en then
             [CallBase CallInst VoidTy (DirectCallee ''__bbtrace_on_branch'')
                [constI32 FId, constI32 BId, constI32 IId, Taken, TakenAddr]]
           else []),
          \<lparr>Kind = Branch, InstId = IId,
           BranchTargets = [lookup BlockIds Succ0, lookup BlockIds Succ1], Buffer = Buf\<rparr>,
          cs\<lparr>NextBranchInstId := IId + 1\<rparr>))"
| "instrumentInstruction h en FName BlockIds FId BId Buf cs (CallBase cop T c Args) =
     (if \<not> isIntrinsicInst cop c \<and> \<not> isInlineAsmCall c \<and> \<not> isBbtraceRuntimeCall c then
        (let IId = NextCallInstId cs;
             CalledOperand = getCalledOperand c;
             TargetAddr = (if isPointerTy (typeOf CalledOperand) then CreatePointerCast CalledOperand
                           else ConstantPointerNull);
             CallSiteAddr = CreatePointerCast (CallResult ''llvm.returnaddress'' [constI32 0])
         in ((if en then
                [CallBase CallInst (PointerTy 0) (DirectCallee ''llvm.returnaddress'') [constI32 0],
                 CallBase CallInst VoidTy (DirectCallee ''__bbtrace_on_call'')
                   ([constI32 FId, constI32 BId, constI32 IId, CallSiteAddr, TargetAddr,
                     constI32 (word_of_nat (length Args))] @ callOperands h Args)]
              else []),
             \<lparr>Kind = Call, InstId = IId, BranchTargets = [], Buffer = Buf\<rparr>,
             cs\<lparr>NextCallInstId := IId + 1\<rparr>))
      else ([], genericInfo Buf, cs))"
| "instrumentInstruction h en FName BlockIds FId BId Buf cs (PHINode v) = ([], genericInfo Buf, cs)"
| "instrumentInstruction h en FName BlockIds FId BId Buf cs (EHPadInst v) = ([], genericInfo Buf, cs)"
| "instrumentInstruction h en FName BlockIds FId BId Buf cs (OtherInst T v) = ([], genericInfo Buf, cs)"

text \<open>Lines 422-425: a call to a function of the runtime is skipped by \<^verbatim>\<open>continue\<close>.\<close>

definition isSkipped :: "inst \<Rightarrow> bool" where
  "isSkipped I = (case I of CallBase _ _ c _ \<Rightarrow> isBbtraceRuntimeCall c | _ \<Rightarrow> False)"

text \<open>
  Lines 421-549, the loop over the instructions of a block. The instructions are inserted
  in front of the one being visited, so the iteration goes on with the instructions that
  followed it. \<open>seen\<close> is the part of the block already passed, with what was inserted
  into it, and \<open>snap\<close> rebuilds the function around the block: the printer of line 427
  is given the function as rewritten so far. The result is the rewritten rest of the
  block, its descriptor entries, and the counters.
\<close>

fun forInstructions ::
  "host \<Rightarrow> bool \<Rightarrow> string \<Rightarrow> (nat \<rightharpoonup> u32) \<Rightarrow> u32 \<Rightarrow> u32 \<Rightarrow> (inst list \<Rightarrow> func) \<Rightarrow> inst list
     \<Rightarrow> inst list \<Rightarrow> counters \<Rightarrow> inst list \<times> InstructionStaticInfo list \<times> counters" where
  "forInstructions h en FName BlockIds FId BId snap seen [] cs = ([], [], cs)"
| "forInstructions h en FName BlockIds FId BId snap seen (I # rest) cs =
     (if isSkipped I then
        (case forInstructions h en FName BlockIds FId BId snap (seen @ [I]) rest cs of
           (out, infos, cs') \<Rightarrow> (I # out, infos, cs'))
      else
        (case instrumentInstruction h en FName BlockIds FId BId
                (printInstruction h (snap (seen @ I # rest)) I) cs I of
           (ins, InstInfo, cs1) \<Rightarrow>
             (case forInstructions h en FName BlockIds FId BId snap (seen @ ins @ [I]) rest cs1 of
                (out, infos, cs2) \<Rightarrow> (ins @ I # out, InstInfo # infos, cs2))))"

text \<open>
  Lines 384-552, the loop over the blocks of the function. \<open>prev\<close> are the blocks
  already rewritten. The result is the rewritten blocks, their descriptor records and
  their PC-map entries.
\<close>

fun forBlocks ::
  "host \<Rightarrow> bool \<Rightarrow> func \<Rightarrow> (nat \<rightharpoonup> u32) \<Rightarrow> LoopInfo \<Rightarrow> (nat \<rightharpoonup> u32) \<Rightarrow> u32 \<Rightarrow> block list
     \<Rightarrow> block list \<Rightarrow> counters \<Rightarrow> block list \<times> BlockStaticInfo list \<times> BlockPcInfo list" where
  "forBlocks h en F BlockIds LI LoopIds FId prev [] cs = ([], [], [])"
| "forBlocks h en F BlockIds LI LoopIds FId prev (BB # rest) cs =
     (let BId = lookup BlockIds (bptr BB);
          AddrConst = blockAddrConst F BB;
          body = (if en then insertEntryHooks LI LoopIds FId BId AddrConst BB else insts BB)
      in case forInstructions h en (fname F) BlockIds FId BId
                (\<lambda>xs. F\<lparr>blocks := prev @ BB\<lparr>insts := xs\<rparr> # rest\<rparr>) [] body cs of
           (out, infos, cs') \<Rightarrow>
             (case forBlocks h en F BlockIds LI LoopIds FId (prev @ [BB\<lparr>insts := out\<rparr>]) rest cs' of
                (bs, StaticInfos, PcInfos) \<Rightarrow>
                  (BB\<lparr>insts := out\<rparr> # bs,
                   \<lparr>FuncId = FId,
                    FuncName = (if hasName (fname F) then fname F
                                else ''func_'' @ to_string (unat FId)),
                    BbId = BId,
                    BbName = (if hasName (bname BB) then bname BB
                              else ''bb_'' @ to_string (unat BId)),
                    Header = makeBlockHeader BB BId,
                    Instructions = infos\<rparr> # StaticInfos,
                   \<lparr>PcFuncId = FId, PcBbId = BId, Address = AddrConst\<rparr> # PcInfos)))"

text \<open>
  \<^verbatim>\<open>instrumentFunction\<close> (lines 323-553) for the function \<open>F\<close> at position \<open>k\<close> of
  the module: the hooks are declared in the module, the function is rewritten in place,
  and the descriptor records and PC-map entries are appended to the vectors passed in.
\<close>

definition instrumentFunction ::
  "host \<Rightarrow> bool \<Rightarrow> nat \<Rightarrow> func \<Rightarrow> u32
     \<Rightarrow> module \<times> BlockStaticInfo list \<times> BlockPcInfo list
     \<Rightarrow> module \<times> BlockStaticInfo list \<times> BlockPcInfo list" where
  "instrumentFunction h en k F FId st =
     (case st of (M, StaticInfos, PcInfos) \<Rightarrow>
        (let M1 = (if en then
                     declareHook
                       (declareHook (declareHook M ''__bbtrace_on_basic_block'')
                          ''__bbtrace_on_loop'')
                       ''__bbtrace_on_mem''
                   else M);
             LI = LoopAnalysis h F;
             LoopIds = (if en then assignLoopIds (TopLevelLoops LI) 0 Map.empty else Map.empty);
             BlockIds = assignBlockIds (blocks F) 0 Map.empty;
             M2 = (if en then
                     declareHook
                       (declareHook (declareHook M1 ''__bbtrace_on_branch'')
                          ''__bbtrace_on_call'')
                       ''llvm.returnaddress''
                   else M1)
         in case forBlocks h en F BlockIds LI LoopIds FId [] (blocks F)
                   \<lparr>NextMemInstId = 0, NextBranchInstId = 0, NextCallInstId = 0\<rparr> of
              (bs, S, P) \<Rightarrow>
                (M2\<lparr>FunctionList := (FunctionList M2)[k := F\<lparr>blocks := bs\<rparr>]\<rparr>,
                 StaticInfos @ S, PcInfos @ P)))"

section \<open>instrumentModule\<close>

definition isEligible :: "func \<Rightarrow> bool" where
  "isEligible F = (\<not> isDeclaration F \<and> \<not> starts_with (fname F) ''__bbtrace_'')"

text \<open>
  Lines 231-237, the loop over the functions of the module, from position \<open>k\<close> on.
  \<open>todo\<close> are the functions from that position as they stand; a function is only
  rewritten when it is visited.
\<close>

fun forFunctions ::
  "host \<Rightarrow> bool \<Rightarrow> nat \<Rightarrow> func list
     \<Rightarrow> u32 \<times> module \<times> BlockStaticInfo list \<times> BlockPcInfo list
     \<Rightarrow> u32 \<times> module \<times> BlockStaticInfo list \<times> BlockPcInfo list" where
  "forFunctions h en k [] st = st"
| "forFunctions h en k (F # todo) st =
     (if isDeclaration F then forFunctions h en (k + 1) todo st
      else if starts_with (fname F) ''__bbtrace_'' then forFunctions h en (k + 1) todo st
      else case st of (NextFuncId, rest) \<Rightarrow>
             forFunctions h en (k + 1) todo
               (NextFuncId + 1, instrumentFunction h en k F NextFuncId rest))"

definition path_append :: "string \<Rightarrow> string \<Rightarrow> string" where
  "path_append a b = (if a \<noteq> [] \<and> last a = CHR ''/'' then a @ b else a @ ''/'' @ b)"

definition instJson :: "InstructionStaticInfo \<Rightarrow> json" where
  "instJson Inst =
     JObject
       ([(''text'', JString (Buffer Inst)),
         (''kind'', JString (instKindToString (Kind Inst)))]
        @ (if Kind Inst \<noteq> Generic then [(''inst_id'', JNumber (unat (InstId Inst)))] else [])
        @ (if BranchTargets Inst \<noteq> []
           then [(''targets'', JArray (map (\<lambda>Target. JNumber (unat Target)) (BranchTargets Inst)))]
           else []))"

definition blockJson :: "BlockStaticInfo \<Rightarrow> json" where
  "blockJson Entry =
     JObject
       [(''func_id'', JNumber (unat (FuncId Entry))),
        (''func_name'', JString (FuncName Entry)),
        (''bb_id'', JNumber (unat (BbId Entry))),
        (''bb_name'', JString (BbName Entry)),
        (''header'', JString (Header Entry)),
        (''insts'', JArray (map instJson (Instructions Entry)))]"

text \<open>
  \<^verbatim>\<open>dumpBasicBlockInfo\<close> (lines 555-609). The file is kept as its lines, one JSON
  object each. \<^verbatim>\<open>create_directories\<close> may fail and then creates nothing; its error
  code is not looked at, and the pass goes on to open the file.
\<close>

definition descriptorPath :: "host \<Rightarrow> module \<Rightarrow> string \<times> string" where
  "descriptorPath h M =
     (let ModuleId = ModuleIdentifier M;
          Parent = (if parent_path h ModuleId \<noteq> [] then parent_path h ModuleId else ''.'');
          OutDir = path_append Parent ''bbtrace_static'';
          BaseName = (if filename h ModuleId \<noteq> [] then filename h ModuleId else ''module'')
      in (OutDir, path_append OutDir (BaseName @ ''.bbinfo.jsonl'')))"

definition dumpBasicBlockInfo ::
  "host \<Rightarrow> module \<Rightarrow> BlockStaticInfo list \<Rightarrow> filesystem \<Rightarrow> filesystem" where
  "dumpBasicBlockInfo h M Infos fs =
     (if Infos = [] then fs
      else case descriptorPath h M of
             (OutDir, OutFile) \<Rightarrow>
               (let fs1 = (if create_directories h OutDir
                           then fs\<lparr>directories := insert OutDir (directories fs)\<rparr>
                           else fs)
                in if \<not> is_open h OutFile then fs1
                   else fs1\<lparr>files := (files fs1)(OutFile \<mapsto> map blockJson Infos)\<rparr>))"

text \<open>\<^verbatim>\<open>emitPcMap\<close> (lines 611-638).\<close>

definition pcMapEntry :: "host \<Rightarrow> BlockPcInfo \<Rightarrow> val list" where
  "pcMapEntry h Entry =
     [constI32 (PcFuncId Entry), constI32 (PcBbId Entry),
      PtrToInt (Address Entry) (getPointerSizeInBits h 0)]"

definition emitPcMap :: "host \<Rightarrow> module \<Rightarrow> BlockPcInfo list \<Rightarrow> module" where
  "emitPcMap h M Infos =
     (if Infos = [] then M
      else let GV = \<lparr>gname = ''__bbtrace_pcmap'', isConstant = True, glinkage = PrivateLinkage,
                     initializer = ConstantArray (map (pcMapEntry h) Infos),
                     gsection = ''.bbtrace_map'', alignment = getPointerSize h\<rparr>
           in M\<lparr>GlobalList := GlobalList M @ [GV],
                compiler_used := compiler_used M @ [gname GV]\<rparr>)"

text \<open>
  \<^verbatim>\<open>instrumentModule\<close> (lines 222-241), in two parts. \<open>runOnFunctions\<close> is lines
  223-237: the constructor and destructor, then the loop over the functions, which yields
  the rewritten module and the two vectors. The range-for over the module also reaches
  the functions that were appended while it ran (the declarations of the hooks), which
  is the second call of \<open>forFunctions\<close>. \<open>instrumentModule\<close> then writes the descriptor
  file and emits the PC map (lines 238-239).
\<close>

definition runOnFunctions ::
  "host \<Rightarrow> module \<Rightarrow> module \<times> BlockStaticInfo list \<times> BlockPcInfo list" where
  "runOnFunctions h M =
     (let EnableInstrumentation = \<not> isStaticOnlyMode h;
          M0 = (if EnableInstrumentation then ensureCtorDtor M else M);
          n = length (FunctionList M0)
      in case forFunctions h EnableInstrumentation 0 (FunctionList M0) (0, M0, [], []) of
           (FId1, M1, S1, P1) \<Rightarrow>
             snd (forFunctions h EnableInstrumentation n (drop n (FunctionList M1))
                    (FId1, M1, S1, P1)))"

definition instrumentModule :: "host \<Rightarrow> module \<Rightarrow> filesystem \<Rightarrow> module \<times> filesystem" where
  "instrumentModule h M fs =
     (case runOnFunctions h M of
        (M2, StaticInfos, PcInfos) \<Rightarrow>
          (emitPcMap h M2 PcInfos, dumpBasicBlockInfo h M2 StaticInfos fs))"

section \<open>Notions used to state the properties\<close>

text \<open>
  A host for the examples: 64-bit pointers, four-byte store sizes, no loops, a printer
  that numbers the unnamed values of the function as LLVM's does (an instruction with
  a result is printed as \<^verbatim>\<open>%n = ...\<close>, where \<open>n\<close> is the number of results defined in
  front of it in the function, counted when it is printed; one without a result as
  \<^verbatim>\<open>...\<close>), an empty environment and a writable file system.
\<close>

definition hasResult :: "inst \<Rightarrow> bool" where
  "hasResult I =
     (case I of
        PHINode _ \<Rightarrow> True
      | EHPadInst _ \<Rightarrow> True
      | LoadInst _ _ \<Rightarrow> True
      | CallBase _ T _ _ \<Rightarrow> T \<noteq> VoidTy
      | OtherInst T _ \<Rightarrow> T \<noteq> VoidTy
      | _ \<Rightarrow> False)"

definition slotPrinter :: "func \<Rightarrow> inst \<Rightarrow> string" where
  "slotPrinter F I =
     (if hasResult I
      then ''%'' @ to_string (length (filter hasResult
                                        (takeWhile (\<lambda>J. J \<noteq> I) (concat (map insts (blocks F))))))
             @ '' = ...''
      else ''...'')"

definition host0 :: host where
  "host0 =
     \<lparr>getPointerSizeInBits = (\<lambda>_. 64), getPointerSize = 8,
      getTypeStoreSizeInBits = (\<lambda>_. 32), getTypeStoreSize = (\<lambda>_. 4),
      LoopAnalysis = (\<lambda>_. \<lparr>TopLevelLoops = [], getLoopFor = (\<lambda>_. None)\<rparr>),
      print_inst = slotPrinter,
      getenv = (\<lambda>_. None), parent_path = (\<lambda>_. []), filename = (\<lambda>s. s),
      create_directories = (\<lambda>_. True), is_open = (\<lambda>_. True)\<rparr>"

definition hostStatic :: host where
  "hostStatic = host0\<lparr>getenv := (\<lambda>_. Some ''1'')\<rparr>"

definition fs0 :: filesystem where
  "fs0 = \<lparr>directories = {}, files = Map.empty\<rparr>"

text \<open>Example modules: a function with a load, one with a call, one that calls the runtime.\<close>

definition mkModule :: "func list \<Rightarrow> module" where
  "mkModule Fs =
     \<lparr>ModuleIdentifier = ''a.bc'', FunctionList = Fs, GlobalList = [], global_ctors = [],
      global_dtors = [], llvm_used = [], compiler_used = []\<rparr>"

definition modLoad :: module where
  "modLoad = mkModule
     [\<lparr>fname = ''f'', blocks = [\<lparr>bptr = 1, bname = ''entry'',
        insts = [LoadInst (IntegerTy 32) (Local 0 (PointerTy 0)), OtherInst VoidTy ''ret'']\<rparr>]\<rparr>]"

definition modCall :: module where
  "modCall = mkModule
     [\<lparr>fname = ''f'', blocks = [\<lparr>bptr = 1, bname = ''entry'',
        insts = [CallBase CallInst (IntegerTy 32) (DirectCallee ''h'') [],
                 OtherInst (IntegerTy 32) ''add'',
                 OtherInst VoidTy ''ret'']\<rparr>]\<rparr>]"

definition modRuntime :: module where
  "modRuntime = mkModule
     [\<lparr>fname = ''f'', blocks = [\<lparr>bptr = 1, bname = ''entry'',
        insts = [CallBase CallInst VoidTy (DirectCallee ''__bbtrace_helper'') [],
                 LoadInst (IntegerTy 32) (Local 0 (PointerTy 0))]\<rparr>]\<rparr>]"

definition modDecl :: module where
  "modDecl = mkModule [\<lparr>fname = ''puts'', blocks = []\<rparr>]"

text \<open>A function with a conditional branch: the entry block and its two successors.\<close>

definition fnBranch :: func where
  "fnBranch =
     \<lparr>fname = ''g'',
      blocks =
        [\<lparr>bptr = 10, bname = ''B0'', insts = [LoadInst (IntegerTy 1) (Local 0 (PointerTy 0)),
                                               CondBr (Local 1 (IntegerTy 1)) 11 12]\<rparr>,
         \<lparr>bptr = 11, bname = ''B1'', insts = [Br 12]\<rparr>,
         \<lparr>bptr = 12, bname = ''B2'', insts = [OtherInst VoidTy ''ret'']\<rparr>]\<rparr>"

definition isRecord :: "inst \<Rightarrow> bool" where
  "isRecord I =
     (case I of
        CallBase _ _ (InlineAsmCallee a) _ \<Rightarrow> starts_with a ''.pushsection .bbtrace_inst,''
      | _ \<Rightarrow> False)"

definition isMemInst :: "inst \<Rightarrow> bool" where
  "isMemInst I = (case I of LoadInst _ _ \<Rightarrow> True | StoreInst _ _ \<Rightarrow> True | _ \<Rightarrow> False)"

definition isBranchInst :: "inst \<Rightarrow> bool" where
  "isBranchInst I = (case I of Br _ \<Rightarrow> True | CondBr _ _ _ \<Rightarrow> True | _ \<Rightarrow> False)"

definition isInstrumentedCall :: "inst \<Rightarrow> bool" where
  "isInstrumentedCall I =
     (case I of
        CallBase cop _ c _ \<Rightarrow> \<not> isIntrinsicInst cop c \<and> \<not> isInlineAsmCall c \<and> \<not> isBbtraceRuntimeCall c
      | _ \<Rightarrow> False)"

definition isMemInfo :: "InstructionStaticInfo \<Rightarrow> bool" where
  "isMemInfo i = (Kind i = Load \<or> Kind i = Store)"

definition eraseBuf :: "InstructionStaticInfo \<Rightarrow> InstructionStaticInfo" where
  "eraseBuf i = i\<lparr>Buffer := []\<rparr>"

definition isBranchInfo :: "InstructionStaticInfo \<Rightarrow> bool" where
  "isBranchInfo i = (Kind i = Branch)"

definition isCallInfo :: "InstructionStaticInfo \<Rightarrow> bool" where
  "isCallInfo i = (Kind i = Call)"

definition eraseText :: "BlockStaticInfo \<Rightarrow> BlockStaticInfo" where
  "eraseText R = R\<lparr>Instructions := map eraseBuf (Instructions R)\<rparr>"

definition unrecordBlock :: "block \<Rightarrow> block" where
  "unrecordBlock BB = BB\<lparr>insts := filter (\<lambda>I. \<not> isRecord I) (insts BB)\<rparr>"

definition recordsOf :: "BlockStaticInfo list \<Rightarrow> inst list" where
  "recordsOf S =
     concat (map (\<lambda>R. map (\<lambda>i. emitInstPcRecord (FuncId R) (BbId R) (InstId i))
                          (filter isMemInfo (Instructions R))) S)"

text \<open>
  The bits of an operand, after the LLVM language reference. \<open>L\<close> gives the bits of the
  values of the program, \<open>A\<close> the addresses of functions, globals and blocks and the
  results of calls. A cast the reference does not allow has no value: \<^verbatim>\<open>zext\<close> and
  \<^verbatim>\<open>sext\<close> go from an integer type to a wider one, \<^verbatim>\<open>trunc\<close> to a narrower one,
  \<^verbatim>\<open>ptrtoint\<close> takes a pointer (and reduces or zero-extends to the width asked for),
  \<^verbatim>\<open>bitcast\<close> goes between non-pointer types of one and the same size, and
  \<^verbatim>\<open>select\<close> takes an \<^verbatim>\<open>i1\<close> and two values of one type.
\<close>

fun bitsOf :: "(nat \<Rightarrow> nat) \<Rightarrow> (val \<Rightarrow> nat) \<Rightarrow> val \<Rightarrow> nat option" where
  "bitsOf L A (Local n t) = Some (L n)"
| "bitsOf L A (ConstantInt w v) = Some (v mod 2 ^ unat w)"
| "bitsOf L A ConstantPointerNull = Some 0"
| "bitsOf L A (GlobalRef g) = Some (A (GlobalRef g))"
| "bitsOf L A (FunctionRef f) = Some (A (FunctionRef f))"
| "bitsOf L A (BlockAddress f b) = Some (A (BlockAddress f b))"
| "bitsOf L A (PointerCast v) = (if isPointerTy (typeOf v) then bitsOf L A v else None)"
| "bitsOf L A (PtrToInt v w) =
     (if isPointerTy (typeOf v) then map_option (\<lambda>x. x mod 2 ^ unat w) (bitsOf L A v) else None)"
| "bitsOf L A (ZExt v w) =
     (if isIntegerTy (typeOf v) \<and> getIntegerBitWidth (typeOf v) < w
      then map_option (\<lambda>x. x mod 2 ^ unat (getIntegerBitWidth (typeOf v))) (bitsOf L A v)
      else None)"
| "bitsOf L A (SExt v w) =
     (if isIntegerTy (typeOf v) \<and> getIntegerBitWidth (typeOf v) < w
      then map_option
             (\<lambda>x. let n = unat (getIntegerBitWidth (typeOf v)); y = x mod 2 ^ n
                  in if n \<noteq> 0 \<and> 2 ^ (n - 1) \<le> y then y + 2 ^ unat w - 2 ^ n else y)
             (bitsOf L A v)
      else None)"
| "bitsOf L A (Trunc v w) =
     (if isIntegerTy (typeOf v) \<and> w < getIntegerBitWidth (typeOf v)
      then map_option (\<lambda>x. x mod 2 ^ unat w) (bitsOf L A v)
      else None)"
| "bitsOf L A (BitCast v t) =
     (if \<not> isPointerTy (typeOf v) \<and> \<not> isPointerTy t \<and> getScalarSizeInBits (typeOf v) \<noteq> 0
         \<and> getScalarSizeInBits (typeOf v) = getScalarSizeInBits t
      then bitsOf L A v else None)"
| "bitsOf L A (Select c a b) =
     (if typeOf c = IntegerTy 1 \<and> typeOf a = typeOf b
      then (case bitsOf L A c of
              None \<Rightarrow> None
            | Some x \<Rightarrow> if odd x then bitsOf L A a else bitsOf L A b)
      else None)"
| "bitsOf L A (CallResult f args) = Some (A (CallResult f args))"

text \<open>The number of sign extensions in an operand.\<close>

fun sextCount :: "val \<Rightarrow> nat" where
  "sextCount (SExt v w) = Suc (sextCount v)"
| "sextCount (PointerCast v) = sextCount v"
| "sextCount (PtrToInt v w) = sextCount v"
| "sextCount (ZExt v w) = sextCount v"
| "sextCount (Trunc v w) = sextCount v"
| "sextCount (BitCast v t) = sextCount v"
| "sextCount (Select c a b) = sextCount c + sextCount a + sextCount b"
| "sextCount (CallResult f args) = sum_list (map sextCount args)"
| "sextCount v = 0"

text \<open>
  ``Zero-extend or truncate to 64 bits'' an operand of the integer type of \<open>w\<close> bits:
  \<^verbatim>\<open>zext\<close> when \<open>w\<close> is below 64, \<^verbatim>\<open>trunc\<close> when it is above, the operand itself
  when it is 64.
\<close>

definition zextOrTrunc :: "val \<Rightarrow> u32 \<Rightarrow> val" where
  "zextOrTrunc X w = (if w < 64 then ZExt X 64 else if 64 < w then Trunc X 64 else X)"

text \<open>A data layout in which every type has a store size of \<open>2 ^ 32\<close> bits.\<close>

definition hostBig :: host where
  "hostBig = host0\<lparr>getTypeStoreSizeInBits := (\<lambda>_. 2 ^ 32), getTypeStoreSize := (\<lambda>_. 2 ^ 29)\<rparr>"

definition rewriteFunction ::
  "host \<Rightarrow> bool \<Rightarrow> func \<Rightarrow> u32 \<Rightarrow> block list \<times> BlockStaticInfo list \<times> BlockPcInfo list" where
  "rewriteFunction h en F FId =
     forBlocks h en F (assignBlockIds (blocks F) 0 Map.empty) (LoopAnalysis h F)
       (if en then assignLoopIds (TopLevelLoops (LoopAnalysis h F)) 0 Map.empty else Map.empty)
       FId [] (blocks F) \<lparr>NextMemInstId = 0, NextBranchInstId = 0, NextCallInstId = 0\<rparr>"

fun rewriteAll ::
  "host \<Rightarrow> bool \<Rightarrow> u32 \<Rightarrow> func list
     \<Rightarrow> func list \<times> BlockStaticInfo list \<times> BlockPcInfo list \<times> u32" where
  "rewriteAll h en n [] = ([], [], [], n)"
| "rewriteAll h en n (F # Fs) =
     (if isEligible F then
        (case rewriteFunction h en F n of
           (bs, S1, P1) \<Rightarrow>
             (case rewriteAll h en (n + 1) Fs of
                (Fs', S2, P2, n') \<Rightarrow> (F\<lparr>blocks := bs\<rparr> # Fs', S1 @ S2, P1 @ P2, n')))
      else
        (case rewriteAll h en n Fs of
           (Fs', S2, P2, n') \<Rightarrow> (F # Fs', S2, P2, n')))"

definition CtorFn :: func where
  "CtorFn =
     \<lparr>fname = ''__bbtrace_ctor'',
      blocks = [\<lparr>bptr = 0, bname = ''entry'',
        insts = [CallBase CallInst VoidTy (DirectCallee ''__bbtrace_register_module'')
                   [GlobalRef ''__bbtrace_module_name''],
                 OtherInst VoidTy ''ret void'']\<rparr>]\<rparr>"

definition DtorFn :: func where
  "DtorFn =
     \<lparr>fname = ''__bbtrace_dtor'',
      blocks = [\<lparr>bptr = 0, bname = ''entry'',
        insts = [CallBase CallInst VoidTy (DirectCallee ''__bbtrace_finalize'') [],
                 OtherInst VoidTy ''ret void'']\<rparr>]\<rparr>"

definition instsOfFuncs :: "func list \<Rightarrow> inst list" where
  "instsOfFuncs Fs = concat (map insts (concat (map blocks Fs)))"

definition bbtrace_inst :: "module \<Rightarrow> inst list" where
  "bbtrace_inst M = filter isRecord (instsOfFuncs (FunctionList M))"

definition unrecord :: "func \<Rightarrow> func" where
  "unrecord F = F\<lparr>blocks := map unrecordBlock (blocks F)\<rparr>"

definition eligibleInsts :: "module \<Rightarrow> inst list" where
  "eligibleInsts M = instsOfFuncs (filter isEligible (FunctionList M))"

definition pcMapGlobal :: "host \<Rightarrow> BlockPcInfo list \<Rightarrow> GlobalVariable" where
  "pcMapGlobal h Infos =
     \<lparr>gname = ''__bbtrace_pcmap'', isConstant = True, glinkage = PrivateLinkage,
      initializer = ConstantArray (map (pcMapEntry h) Infos),
      gsection = ''.bbtrace_map'', alignment = getPointerSize h\<rparr>"

text \<open>
  A block with its \<^verbatim>\<open>.bbtrace_inst\<close> records put in: each load and each store is
  preceded, directly, by the record of function \<open>f\<close>, block \<open>b\<close> and the running memory
  id, starting at \<open>n\<close>; every other instruction stays as it is.
\<close>

fun staticBody :: "u32 \<Rightarrow> u32 \<Rightarrow> u32 \<Rightarrow> inst list \<Rightarrow> inst list" where
  "staticBody f b n [] = []"
| "staticBody f b n (I # rest) =
     (if isMemInst I then emitInstPcRecord f b n # I # staticBody f b (n + 1) rest
      else I # staticBody f b n rest)"

text \<open>
  The same over the blocks of a function (the memory ids run on from block to block, the
  block ids are those of \<open>B\<close>) and over the functions of a module (the eligible ones are
  numbered from \<open>k\<close>, the others are left alone).
\<close>

fun staticBlocks :: "u32 \<Rightarrow> (nat \<rightharpoonup> u32) \<Rightarrow> u32 \<Rightarrow> block list \<Rightarrow> block list" where
  "staticBlocks f B n [] = []"
| "staticBlocks f B n (BB # rest) =
     BB\<lparr>insts := staticBody f (lookup B (bptr BB)) n (insts BB)\<rparr>
       # staticBlocks f B (n + word_of_nat (length (filter isMemInst (insts BB)))) rest"

fun staticFuncs :: "u32 \<Rightarrow> func list \<Rightarrow> func list" where
  "staticFuncs k [] = []"
| "staticFuncs k (F # Fs) =
     (if isEligible F
      then F\<lparr>blocks := staticBlocks k (assignBlockIds (blocks F) 0 Map.empty) 0 (blocks F)\<rparr>
             # staticFuncs (k + 1) Fs
      else F # staticFuncs k Fs)"

text \<open>The records, loads and stores of a function, block by block.\<close>

definition isRecordOrMem :: "inst \<Rightarrow> bool" where
  "isRecordOrMem I = (isRecord I \<or> isMemInst I)"

definition recordsAndMem :: "func \<Rightarrow> inst list list" where
  "recordsAndMem F = map (\<lambda>BB. filter isRecordOrMem (insts BB)) (blocks F)"

text \<open>
  The language reference on the two arrays: a global listed in \<^verbatim>\<open>llvm.used\<close> must be
  treated by the compiler, the assembler and the linker as if it were referenced, so the
  linker keeps it; one listed in \<^verbatim>\<open>llvm.compiler.used\<close> is kept by the compiler only,
  and the linker is free to drop it.
\<close>

definition linkerMustKeep :: "module \<Rightarrow> string \<Rightarrow> bool" where
  "linkerMustKeep M n = (n \<in> set (llvm_used M))"

definition compilerMustKeep :: "module \<Rightarrow> string \<Rightarrow> bool" where
  "compilerMustKeep M n = (n \<in> set (llvm_used M) \<or> n \<in> set (compiler_used M))"

text \<open>with a printer that does not look at the function, the entries agree, text included\<close>

definition printerIgnoresFunction :: "host \<Rightarrow> bool" where
  "printerIgnoresFunction h = (\<forall>F F' I. print_inst h F I = print_inst h F' I)"

text \<open>A host whose printer does not look at the function around the instruction.\<close>

definition hostPlain :: host where
  "hostPlain = host0\<lparr>print_inst := (\<lambda>F I. ''inst'')\<rparr>"

text \<open>The kind the descriptor gives an instruction.\<close>

definition kindOf :: "inst \<Rightarrow> InstKind" where
  "kindOf I =
     (if isMemInst I then (case I of LoadInst _ _ \<Rightarrow> Load | _ \<Rightarrow> Store)
      else if isBranchInst I then Branch
      else if isInstrumentedCall I then Call
      else Generic)"

text \<open>
  The PC-map entries of a function numbered \<open>k\<close>: one per block, in order, with the
  position of the block as \<open>bb_id\<close>; the address is the function itself for the entry
  block and the block address for every other block. \<open>pcEntries\<close> runs over the
  functions of a module, numbering the eligible ones from \<open>k\<close>.
\<close>

definition pcEntriesOf :: "u32 \<Rightarrow> func \<Rightarrow> BlockPcInfo list" where
  "pcEntriesOf k F =
     map (\<lambda>i. \<lparr>PcFuncId = k, PcBbId = word_of_nat i,
                Address = (if i = 0 then FunctionRef (fname F)
                           else BlockAddress (fname F) (bptr (blocks F ! i)))\<rparr>)
         [0..<length (blocks F)]"

fun pcEntries :: "u32 \<Rightarrow> func list \<Rightarrow> BlockPcInfo list" where
  "pcEntries k [] = []"
| "pcEntries k (F # Fs) =
     (if isEligible F then pcEntriesOf k F @ pcEntries (k + 1) Fs else pcEntries k Fs)"

section \<open>Properties\<close>

lemma isRecord_emit [simp]: "isRecord (emitInstPcRecord f b i)"
  by (simp add: isRecord_def emitInstPcRecord_def AsmTemplate_def starts_with_def)

lemma isRecord_simps [simp]:
  "\<not> isRecord (CallBase cop T (DirectCallee n) a)"
  "\<not> isRecord (CallBase cop T (IndirectCallee v) a)"
  "\<not> isRecord (PHINode s)" "\<not> isRecord (EHPadInst s)" "\<not> isRecord (LoadInst T v)"
  "\<not> isRecord (StoreInst v v')" "\<not> isRecord (Br p)" "\<not> isRecord (CondBr v p q)"
  "\<not> isRecord (OtherInst T s)"
  by (simp_all add: isRecord_def)

lemma isSkipped_not_record: "isSkipped I \<Longrightarrow> \<not> isRecord I"
  by (auto simp: isSkipped_def isRecord_def isBbtraceRuntimeCall_def split: inst.splits callee.splits)

lemma instrumentInstruction_Buffer:
  "instrumentInstruction h en FN B f b Buf cs I =
     (case instrumentInstruction h en FN B f b [] cs I of
        (ins, info, cs') \<Rightarrow> (ins, info\<lparr>Buffer := Buf\<rparr>, cs'))"
  by (cases I) (simp_all add: Let_def genericInfo_def)

text \<open>what one step does, by class of instruction\<close>

lemma instrumentInstruction_records:
  "instrumentInstruction h en FN B f b Buf cs I = (ins, info, cs') \<Longrightarrow>
   filter isRecord ins = (if isMemInst I then [emitInstPcRecord f b (InstId info)] else [])
   \<and> isMemInfo info = isMemInst I"
  by (cases I) (auto simp: Let_def genericInfo_def isMemInst_def isMemInfo_def split: if_splits)

lemma isSkipped_class:
  "isSkipped I \<Longrightarrow> \<not> isMemInst I \<and> \<not> isBranchInst I \<and> \<not> isInstrumentedCall I"
  by (auto simp: isSkipped_def isMemInst_def isBranchInst_def isInstrumentedCall_def split: inst.splits)

lemma instrumentInstruction_class:
  assumes "instrumentInstruction h en FN B f b Buf cs I = (ins, info, cs')"
  shows "isMemInfo info = isMemInst I"
    and "isBranchInfo info = isBranchInst I"
    and "isCallInfo info = isInstrumentedCall I"
    and "isMemInst I \<Longrightarrow> InstId info = NextMemInstId cs"
    and "isBranchInst I \<Longrightarrow> InstId info = NextBranchInstId cs"
    and "isInstrumentedCall I \<Longrightarrow> InstId info = NextCallInstId cs"
    and "NextMemInstId cs' = NextMemInstId cs + (if isMemInst I then 1 else 0)"
    and "NextBranchInstId cs' = NextBranchInstId cs + (if isBranchInst I then 1 else 0)"
    and "NextCallInstId cs' = NextCallInstId cs + (if isInstrumentedCall I then 1 else 0)"
  using assms
  by (cases I; auto simp: Let_def genericInfo_def isMemInst_def isMemInfo_def isBranchInfo_def
        isCallInfo_def isBranchInst_def isInstrumentedCall_def split: if_splits)+

lemma instrumentInstruction_static:
  "instrumentInstruction h False FN B f b Buf cs I = (ins, info, cs') \<Longrightarrow>
   filter (\<lambda>J. \<not> isRecord J) ins = []"
  by (cases I) (auto simp: Let_def split: if_splits)

lemma forInstructions_frame:
  "forInstructions h en FN B f b snap seen body cs = (out, infos, cs') \<Longrightarrow>
   forInstructions h en FN B f b snap' seen' body cs = (out', infos', cs'') \<Longrightarrow>
   out' = out \<and> cs'' = cs' \<and> map eraseBuf infos' = map eraseBuf infos"
proof (induction body arbitrary: seen seen' cs out infos cs' out' infos' cs'')
  case Nil
  then show ?case by simp
next
  case (Cons I rest)
  show ?case
  proof (cases "isSkipped I")
    case True
    with Cons.prems Cons.IH show ?thesis
      by (auto split: prod.splits)
  next
    case False
    obtain ins info cs1 where a: "instrumentInstruction h en FN B f b [] cs I = (ins, info, cs1)"
      by (cases "instrumentInstruction h en FN B f b [] cs I") auto
    have b: "\<And>Buf. instrumentInstruction h en FN B f b Buf cs I = (ins, info\<lparr>Buffer := Buf\<rparr>, cs1)"
      using a by (subst instrumentInstruction_Buffer) simp
    from False Cons.prems Cons.IH show ?thesis
      by (auto simp: b eraseBuf_def split: prod.splits)
  qed
qed

text \<open>the entries and counters are those of the block without the skipped calls, in either mode\<close>

lemma instrumentInstruction_modes:
  "instrumentInstruction h en FN B f b Buf cs I = (ins, info, cs') \<Longrightarrow>
   instrumentInstruction h en' FN B f b Buf' cs I = (ins', info', cs'') \<Longrightarrow>
   cs'' = cs' \<and> eraseBuf info' = eraseBuf info"
  by (cases I) (auto simp: Let_def genericInfo_def eraseBuf_def split: if_splits)

lemma forInstructions_modes:
  "forInstructions h en FN B f b snap seen body cs = (out, infos, cs') \<Longrightarrow>
   forInstructions h en' FN B f b snap' seen' (filter (\<lambda>I. \<not> isSkipped I) body) cs = (out', infos', cs'') \<Longrightarrow>
   cs'' = cs' \<and> map eraseBuf infos' = map eraseBuf infos"
proof (induction body arbitrary: seen seen' cs out infos cs' out' infos' cs'')
  case Nil
  then show ?case by simp
next
  case (Cons I rest)
  show ?case
  proof (cases "isSkipped I")
    case True
    with Cons.prems Cons.IH show ?thesis
      by (auto split: prod.splits)
  next
    case False
    obtain ins info cs1 where a:
      "instrumentInstruction h en FN B f b (printInstruction h (snap (seen @ I # rest)) I) cs I = (ins, info, cs1)"
      using prod_cases3 by blast
    obtain ins' info' cs1' where a':
      "instrumentInstruction h en' FN B f b
         (printInstruction h (snap' (seen' @ I # filter (\<lambda>I. \<not> isSkipped I) rest)) I) cs I = (ins', info', cs1')"
      using prod_cases3 by blast
    from instrumentInstruction_modes[OF a a'] have c: "cs1' = cs1" "eraseBuf info' = eraseBuf info"
      by auto
    from False Cons.prems a a' c show ?thesis
      by (auto split: prod.splits dest: Cons.IH)
  qed
qed

lemma forInstructions_records:
  "forInstructions h en FN B f b snap seen body cs = (out, infos, cs') \<Longrightarrow>
   filter isRecord body = [] \<Longrightarrow>
   filter isRecord out = map (\<lambda>i. emitInstPcRecord f b (InstId i)) (filter isMemInfo infos)"
proof (induction body arbitrary: seen cs out infos cs')
  case Nil
  then show ?case by simp
next
  case (Cons I rest)
  from Cons.prems(2) have nr: "\<not> isRecord I" "filter isRecord rest = []"
    by (auto split: if_splits)
  show ?case
  proof (cases "isSkipped I")
    case True
    with Cons.prems nr Cons.IH show ?thesis
      by (auto split: prod.splits)
  next
    case False
    obtain ins info cs1 where a:
      "instrumentInstruction h en FN B f b (printInstruction h (snap (seen @ I # rest)) I) cs I = (ins, info, cs1)"
      using prod_cases3 by blast
    note r = instrumentInstruction_records[OF a] 
    from False Cons.prems(1) a nr r show ?thesis
      by (auto split: prod.splits dest: Cons.IH)
  qed
qed

lemma forInstructions_static:
  "forInstructions h False FN B f b snap seen body cs = (out, infos, cs') \<Longrightarrow>
   filter (\<lambda>J. \<not> isRecord J) out = filter (\<lambda>J. \<not> isRecord J) body"
proof (induction body arbitrary: seen cs out infos cs')
  case Nil
  then show ?case by simp
next
  case (Cons I rest)
  show ?case
  proof (cases "isSkipped I")
    case True
    with Cons.prems Cons.IH show ?thesis
      by (auto split: prod.splits)
  next
    case False
    obtain ins info cs1 where a:
      "instrumentInstruction h False FN B f b (printInstruction h (snap (seen @ I # rest)) I) cs I = (ins, info, cs1)"
      using prod_cases3 by blast
    note r = instrumentInstruction_static[OF a] 
    from False Cons.prems(1) a r show ?thesis
      by (auto split: prod.splits dest: Cons.IH)
  qed
qed

lemma forInstructions_ids_gen:
  assumes step: "\<And>Buf cs I ins info cs'.
      instrumentInstruction h en FN B f b Buf cs I = (ins, info, cs') \<Longrightarrow>
      Q info = P I \<and> (P I \<longrightarrow> InstId info = ctr cs) \<and> ctr cs' = ctr cs + (if P I then 1 else 0)"
    and skip: "\<And>I. isSkipped I \<Longrightarrow> \<not> P I"
  shows "forInstructions h en FN B f b snap seen body cs = (out, infos, cs') \<Longrightarrow>
     map InstId (filter Q infos) = map (\<lambda>j. ctr cs + word_of_nat j) [0..<length (filter P body)]
     \<and> ctr cs' = ctr cs + word_of_nat (length (filter P body))"
proof (induction body arbitrary: seen cs out infos cs')
  case Nil
  then show ?case by simp
next
  case (Cons I rest)
  show ?case
  proof (cases "isSkipped I")
    case True
    with Cons.prems Cons.IH skip[OF True] show ?thesis
      by (auto split: prod.splits)
  next
    case False
    obtain ins info cs1 where a:
      "instrumentInstruction h en FN B f b (printInstruction h (snap (seen @ I # rest)) I) cs I = (ins, info, cs1)"
      using prod_cases3 by blast
    obtain out2 infos2 cs2 where r:
      "forInstructions h en FN B f b snap (seen @ ins @ [I]) rest cs1 = (out2, infos2, cs2)"
      using prod_cases3 by blast
    from False Cons.prems a r have e: "infos = info # infos2" "cs' = cs2"
      by auto
    note s = step[OF a]
    note ih = Cons.IH[OF r]
    show ?thesis
    proof (cases "P I")
      case True
      with s ih e show ?thesis
        by (simp add: map_upt_Suc add.assoc del: upt_Suc)
    next
      case False
      with s ih e show ?thesis
        by simp
    qed
  qed
qed

lemma forInstructions_mem_ids:
  "forInstructions h en FN B f b snap seen body cs = (out, infos, cs') \<Longrightarrow>
     map InstId (filter isMemInfo infos)
       = map (\<lambda>j. NextMemInstId cs + word_of_nat j) [0..<length (filter isMemInst body)]
     \<and> NextMemInstId cs' = NextMemInstId cs + word_of_nat (length (filter isMemInst body))"
  by (rule forInstructions_ids_gen[where P = isMemInst and Q = isMemInfo and ctr = NextMemInstId])
     (auto simp: instrumentInstruction_class isSkipped_class)

lemma forInstructions_branch_ids:
  "forInstructions h en FN B f b snap seen body cs = (out, infos, cs') \<Longrightarrow>
     map InstId (filter isBranchInfo infos)
       = map (\<lambda>j. NextBranchInstId cs + word_of_nat j) [0..<length (filter isBranchInst body)]
     \<and> NextBranchInstId cs' = NextBranchInstId cs + word_of_nat (length (filter isBranchInst body))"
  by (rule forInstructions_ids_gen[where P = isBranchInst and Q = isBranchInfo and ctr = NextBranchInstId])
     (auto simp: instrumentInstruction_class isSkipped_class)

lemma forInstructions_call_ids:
  "forInstructions h en FN B f b snap seen body cs = (out, infos, cs') \<Longrightarrow>
     map InstId (filter isCallInfo infos)
       = map (\<lambda>j. NextCallInstId cs + word_of_nat j) [0..<length (filter isInstrumentedCall body)]
     \<and> NextCallInstId cs' = NextCallInstId cs + word_of_nat (length (filter isInstrumentedCall body))"
  by (rule forInstructions_ids_gen[where P = isInstrumentedCall and Q = isCallInfo and ctr = NextCallInstId])
     (auto simp: instrumentInstruction_class isSkipped_class)

lemma filter_insertBefore: "\<not> P H \<Longrightarrow> filter P (insertBefore k H body) = filter P body"
proof -
  assume n: "\<not> P H"
  have "filter P body = filter P (take k body @ drop k body)"
    by (simp only: append_take_drop_id)
  also have "\<dots> = filter P (take k body) @ filter P (drop k body)"
    by (rule filter_append)
  finally show ?thesis
    using n by (simp add: insertBefore_def)
qed

lemma insertEntryHooks_filter:
  assumes "\<And>n a. starts_with n ''__bbtrace_'' \<Longrightarrow> \<not> P (CallBase CallInst VoidTy (DirectCallee n) a)"
  shows "filter P (insertEntryHooks LI LoopIds f b A BB) = filter P (insts BB)"
proof -
  have 1: "\<And>a. \<not> P (CallBase CallInst VoidTy (DirectCallee ''__bbtrace_on_basic_block'') a)"
    by (rule assms) (simp add: starts_with_def)
  have 2: "\<And>a. \<not> P (CallBase CallInst VoidTy (DirectCallee ''__bbtrace_on_loop'') a)"
    by (rule assms) (simp add: starts_with_def)
  show ?thesis
    by (simp add: insertEntryHooks_def Let_def filter_insertBefore 1 2 split: option.splits)
qed

lemma hooks_skipped: "starts_with n ''__bbtrace_'' \<Longrightarrow> isSkipped (CallBase cop T (DirectCallee n) a)"
  by (simp add: isSkipped_def isBbtraceRuntimeCall_def)

lemma hooks_class:
  "\<not> isMemInst (CallBase cop T (DirectCallee n) a)"
  "\<not> isBranchInst (CallBase cop T (DirectCallee n) a)"
  "starts_with n ''__bbtrace_'' \<Longrightarrow> \<not> isInstrumentedCall (CallBase cop T (DirectCallee n) a)"
  by (simp_all add: isMemInst_def isBranchInst_def isInstrumentedCall_def isBbtraceRuntimeCall_def)

lemma body_filters:
  "filter (\<lambda>I. \<not> isSkipped I) (if en then insertEntryHooks LI LoopIds f b A BB else insts BB)
     = filter (\<lambda>I. \<not> isSkipped I) (insts BB)"
  "filter isRecord (if en then insertEntryHooks LI LoopIds f b A BB else insts BB)
     = filter isRecord (insts BB)"
  "filter isMemInst (if en then insertEntryHooks LI LoopIds f b A BB else insts BB)
     = filter isMemInst (insts BB)"
  "filter isBranchInst (if en then insertEntryHooks LI LoopIds f b A BB else insts BB)
     = filter isBranchInst (insts BB)"
  "filter isInstrumentedCall (if en then insertEntryHooks LI LoopIds f b A BB else insts BB)
     = filter isInstrumentedCall (insts BB)"
  by (simp_all add: insertEntryHooks_filter hooks_skipped hooks_class)

text \<open>two runs over the same block agree on the counters and, the text apart, on the entries\<close>

lemma forInstructions_two_modes:
  assumes 1: "forInstructions h en FN B f b snap seen body cs = (out, infos, cs')"
    and 2: "forInstructions h en' FN B f b snap' seen' body' cs = (out', infos', cs'')"
    and e: "filter (\<lambda>I. \<not> isSkipped I) body' = filter (\<lambda>I. \<not> isSkipped I) body"
  shows "cs'' = cs' \<and> map eraseBuf infos' = map eraseBuf infos"
proof -
  obtain o3 i3 c3 where 3:
    "forInstructions h en FN B f b snap seen (filter (\<lambda>I. \<not> isSkipped I) body) cs = (o3, i3, c3)"
    using prod_cases3 by blast
  from forInstructions_modes[OF 1 3] forInstructions_modes[OF 2 3[folded e]]
  show ?thesis by simp
qed

lemma forBlocks_modes:
  "forBlocks h en F B LI LoopIds f prev todo cs = (bs, S, P) \<Longrightarrow>
   forBlocks h en' F B LI' LoopIds' f prev' todo cs = (bs', S', P') \<Longrightarrow>
   P' = P \<and> map eraseText S' = map eraseText S"
proof (induction todo arbitrary: prev prev' cs bs S P bs' S' P')
  case Nil
  then show ?case by simp
next
  case (Cons BB rest)
  let ?b = "lookup B (bptr BB)"
  let ?A = "blockAddrConst F BB"
  let ?body = "if en then insertEntryHooks LI LoopIds f ?b ?A BB else insts BB"
  let ?body' = "if en' then insertEntryHooks LI' LoopIds' f ?b ?A BB else insts BB"
  obtain out infos cs1 where 1:
    "forInstructions h en (fname F) B f ?b (\<lambda>xs. F\<lparr>blocks := prev @ BB\<lparr>insts := xs\<rparr> # rest\<rparr>) [] ?body cs
       = (out, infos, cs1)"
    using prod_cases3 by blast
  obtain out' infos' cs1' where 2:
    "forInstructions h en' (fname F) B f ?b (\<lambda>xs. F\<lparr>blocks := prev' @ BB\<lparr>insts := xs\<rparr> # rest\<rparr>) [] ?body' cs
       = (out', infos', cs1')"
    using prod_cases3 by blast
  have e: "filter (\<lambda>I. \<not> isSkipped I) ?body' = filter (\<lambda>I. \<not> isSkipped I) ?body"
    by (simp only: body_filters)
  from forInstructions_two_modes[OF 1 2 e] have c: "cs1' = cs1" "map eraseBuf infos' = map eraseBuf infos"
    by auto
  obtain bs2 S2 P2 where r1:
    "forBlocks h en F B LI LoopIds f (prev @ [BB\<lparr>insts := out\<rparr>]) rest cs1 = (bs2, S2, P2)"
    using prod_cases3 by blast
  obtain bs2' S2' P2' where r2:
    "forBlocks h en' F B LI' LoopIds' f (prev' @ [BB\<lparr>insts := out'\<rparr>]) rest cs1 = (bs2', S2', P2')"
    using prod_cases3 by blast
  note ih = Cons.IH[OF r1 r2]
  from Cons.prems 1 2 c r1 r2 ih show ?case
    by (auto simp: Let_def eraseText_def)
qed

lemma forBlocks_pc:
  "forBlocks h en F B LI LoopIds f prev todo cs = (bs, S, P) \<Longrightarrow>
   P = map (\<lambda>BB. \<lparr>PcFuncId = f, PcBbId = lookup B (bptr BB), Address = blockAddrConst F BB\<rparr>) todo"
proof (induction todo arbitrary: prev cs bs S P)
  case Nil
  then show ?case by simp
next
  case (Cons BB rest)
  then show ?case
    by (auto simp: Let_def split: prod.splits)
qed

lemma forBlocks_records:
  "forBlocks h en F B LI LoopIds f prev todo cs = (bs, S, P) \<Longrightarrow>
   filter isRecord (concat (map insts todo)) = [] \<Longrightarrow>
   filter isRecord (concat (map insts bs)) = recordsOf S"
proof (induction todo arbitrary: prev cs bs S P)
  case Nil
  then show ?case by (simp add: recordsOf_def)
next
  case (Cons BB rest)
  let ?b = "lookup B (bptr BB)"
  let ?A = "blockAddrConst F BB"
  let ?body = "if en then insertEntryHooks LI LoopIds f ?b ?A BB else insts BB"
  obtain out infos cs1 where 1:
    "forInstructions h en (fname F) B f ?b (\<lambda>xs. F\<lparr>blocks := prev @ BB\<lparr>insts := xs\<rparr> # rest\<rparr>) [] ?body cs
       = (out, infos, cs1)"
    using prod_cases3 by blast
  obtain bs2 S2 P2 where r1:
    "forBlocks h en F B LI LoopIds f (prev @ [BB\<lparr>insts := out\<rparr>]) rest cs1 = (bs2, S2, P2)"
    using prod_cases3 by blast
  from Cons.prems(2) have n: "filter isRecord (insts BB) = []" "filter isRecord (concat (map insts rest)) = []"
    by auto
  have "filter isRecord ?body = []"
    using n(1) by (simp only: body_filters)
  from forInstructions_records[OF 1 this]
  have a: "filter isRecord out = map (\<lambda>i. emitInstPcRecord f ?b (InstId i)) (filter isMemInfo infos)" .
  note ih = Cons.IH[OF r1 n(2)]
  from Cons.prems(1) 1 r1 a ih show ?case
    by (auto simp: Let_def recordsOf_def)
qed

lemma upt_ids_append:
  "map (\<lambda>j. c + word_of_nat j) [0..<a] @ map (\<lambda>j. c + word_of_nat a + word_of_nat j) [0..<b]
     = map (\<lambda>j. (c :: u32) + word_of_nat j) [0..<a + b]"
proof (rule nth_equalityI)
  show "length (map (\<lambda>j. c + word_of_nat j) [0..<a] @ map (\<lambda>j. c + word_of_nat a + word_of_nat j) [0..<b])
      = length (map (\<lambda>j. c + word_of_nat j) [0..<a + b])"
    by simp
next
  fix i
  assume "i < length (map (\<lambda>j. c + word_of_nat j) [0..<a] @ map (\<lambda>j. c + word_of_nat a + word_of_nat j) [0..<b])"
  then have i: "i < a + b" by simp
  show "(map (\<lambda>j. c + word_of_nat j) [0..<a] @ map (\<lambda>j. c + word_of_nat a + word_of_nat j) [0..<b]) ! i
      = map (\<lambda>j. c + word_of_nat j) [0..<a + b] ! i"
  proof (cases "i < a")
    case True
    then show ?thesis using i by (simp add: nth_append)
  next
    case False
    then have "(word_of_nat a :: u32) + word_of_nat (i - a) = word_of_nat i"
      by (metis le_add_diff_inverse not_less of_nat_add)
    with False i show ?thesis
      by (simp add: nth_append add.assoc)
  qed
qed

lemma forBlocks_ids_gen:
  assumes fi: "\<And>snap seen body cs out infos cs' b.
      forInstructions h en (fname F) B f b snap seen body cs = (out, infos, cs') \<Longrightarrow>
      map InstId (filter Q infos) = map (\<lambda>j. ctr cs + word_of_nat j) [0..<length (filter P body)]
      \<and> ctr cs' = ctr cs + word_of_nat (length (filter P body))"
    and hk: "\<And>b A BB. filter P (if en then insertEntryHooks LI LoopIds f b A BB else insts BB)
                = filter P (insts BB)"
  shows "forBlocks h en F B LI LoopIds f prev todo cs = (bs, S, PI) \<Longrightarrow>
     map InstId (filter Q (concat (map Instructions S)))
       = map (\<lambda>j. ctr cs + word_of_nat j) [0..<length (filter P (concat (map insts todo)))]"
proof (induction todo arbitrary: prev cs bs S PI)
  case Nil
  then show ?case by simp
next
  case (Cons BB rest)
  let ?b = "lookup B (bptr BB)"
  let ?A = "blockAddrConst F BB"
  let ?body = "if en then insertEntryHooks LI LoopIds f ?b ?A BB else insts BB"
  obtain out infos cs1 where 1:
    "forInstructions h en (fname F) B f ?b (\<lambda>xs. F\<lparr>blocks := prev @ BB\<lparr>insts := xs\<rparr> # rest\<rparr>) [] ?body cs
       = (out, infos, cs1)"
    using prod_cases3 by blast
  obtain bs2 S2 P2 where r1:
    "forBlocks h en F B LI LoopIds f (prev @ [BB\<lparr>insts := out\<rparr>]) rest cs1 = (bs2, S2, P2)"
    using prod_cases3 by blast
  from fi[OF 1] have a:
    "map InstId (filter Q infos) = map (\<lambda>j. ctr cs + word_of_nat j) [0..<length (filter P (insts BB))]"
    "ctr cs1 = ctr cs + word_of_nat (length (filter P (insts BB)))"
    by (simp_all only: hk)
  note ih = Cons.IH[OF r1]
  from Cons.prems(1) 1 r1 have S: "concat (map Instructions S) = infos @ concat (map Instructions S2)"
    by (auto simp: Let_def)
  show ?case
    by (simp add: S a ih upt_ids_append)
qed

lemma forBlocks_mem_ids:
  "forBlocks h en F B LI LoopIds f prev todo cs = (bs, S, PI) \<Longrightarrow>
     map InstId (filter isMemInfo (concat (map Instructions S)))
       = map (\<lambda>j. NextMemInstId cs + word_of_nat j) [0..<length (filter isMemInst (concat (map insts todo)))]"
  by (rule forBlocks_ids_gen[where P = isMemInst and Q = isMemInfo and ctr = NextMemInstId])
     (auto simp only: forInstructions_mem_ids body_filters)

lemma forBlocks_branch_ids:
  "forBlocks h en F B LI LoopIds f prev todo cs = (bs, S, PI) \<Longrightarrow>
     map InstId (filter isBranchInfo (concat (map Instructions S)))
       = map (\<lambda>j. NextBranchInstId cs + word_of_nat j) [0..<length (filter isBranchInst (concat (map insts todo)))]"
  by (rule forBlocks_ids_gen[where P = isBranchInst and Q = isBranchInfo and ctr = NextBranchInstId])
     (auto simp only: forInstructions_branch_ids body_filters)

lemma forBlocks_call_ids:
  "forBlocks h en F B LI LoopIds f prev todo cs = (bs, S, PI) \<Longrightarrow>
     map InstId (filter isCallInfo (concat (map Instructions S)))
       = map (\<lambda>j. NextCallInstId cs + word_of_nat j) [0..<length (filter isInstrumentedCall (concat (map insts todo)))]"
  by (rule forBlocks_ids_gen[where P = isInstrumentedCall and Q = isCallInfo and ctr = NextCallInstId])
     (auto simp only: forInstructions_call_ids body_filters)

lemma forBlocks_static:
  "forBlocks h False F B LI LoopIds f prev todo cs = (bs, S, P) \<Longrightarrow>
   map unrecordBlock bs = map unrecordBlock todo"
proof (induction todo arbitrary: prev cs bs S P)
  case Nil
  then show ?case by simp
next
  case (Cons BB rest)
  let ?b = "lookup B (bptr BB)"
  obtain out infos cs1 where 1:
    "forInstructions h False (fname F) B f ?b (\<lambda>xs. F\<lparr>blocks := prev @ BB\<lparr>insts := xs\<rparr> # rest\<rparr>) [] (insts BB) cs
       = (out, infos, cs1)"
    using prod_cases3 by blast
  obtain bs2 S2 P2 where r1:
    "forBlocks h False F B LI LoopIds f (prev @ [BB\<lparr>insts := out\<rparr>]) rest cs1 = (bs2, S2, P2)"
    using prod_cases3 by blast
  note a = forInstructions_static[OF 1]
  note ih = Cons.IH[OF r1]
  from Cons.prems(1) 1 r1 a ih show ?case
    by (auto simp: Let_def unrecordBlock_def)
qed

lemma forBlocks_shape:
  "forBlocks h en F B LI LoopIds f prev todo cs = (bs, S, P) \<Longrightarrow>
   length bs = length todo \<and> length S = length todo
   \<and> map bptr bs = map bptr todo \<and> map bname bs = map bname todo
   \<and> map FuncId S = map (\<lambda>BB. f) todo
   \<and> map BbId S = map (\<lambda>BB. lookup B (bptr BB)) todo"
proof (induction todo arbitrary: prev cs bs S P)
  case Nil
  then show ?case by simp
next
  case (Cons BB rest)
  then show ?case
    by (auto simp: Let_def split: prod.splits)
qed

lemma max1: "(w :: u32) \<noteq> 0 \<Longrightarrow> max w 1 = w"
  by (simp add: max_def word_le_nat_alt) (metis One_nat_def Suc_leI unat_gt_0 unsigned_1 unsigned_eq_0_iff word_le_nat_alt antisym)

lemma lt64: "(w :: u32) < 64 \<Longrightarrow> unat w < 64" and gt64: "(64 :: u32) < w \<Longrightarrow> 64 < unat w"
  by (simp_all add: word_less_nat_alt)

lemma mod_small: "x < 2 ^ n \<Longrightarrow> n \<le> m \<Longrightarrow> x mod 2 ^ m = (x :: nat)"
  by (meson le_trans less_le_trans mod_less not_less power_increasing one_le_numeral)

lemma mod_mod_big: "m \<le> n \<Longrightarrow> (x mod 2 ^ n) mod 2 ^ m = (x :: nat) mod 2 ^ m"
  by (simp add: mod_mod_cancel le_imp_power_dvd)

lemma not_lt_gt_64: "\<not> (w :: u32) < 64 \<Longrightarrow> \<not> 64 < w \<Longrightarrow> w = 64"
  by auto

lemma typeOf_zextOrTrunc:
  "typeOf X = IntegerTy (max w 1) \<Longrightarrow> typeOf (zextOrTrunc X w) = IntegerTy 64"
  by (cases "w = 0") (auto simp: zextOrTrunc_def max1 dest: not_lt_gt_64)

lemma one_lt_64: "(1 :: u32) < 64"
  by simp

lemma cast64:
  assumes x: "bitsOf L A X = Some x" and t: "typeOf X = IntegerTy (max w 1)"
    and fit: "x < 2 ^ unat w"
  shows "bitsOf L A (zextOrTrunc X w) = Some (x mod 2 ^ 64)"
proof (cases "w = 0")
  case True
  with fit have "x = 0" by simp
  with True x t show ?thesis
    by (simp add: zextOrTrunc_def isIntegerTy_def getIntegerBitWidth_def)
next
  case False
  then have m: "max w 1 = w" by (rule max1)
  consider "w < 64" | "64 < w" | "w = 64" by (metis not_lt_gt_64)
  then show ?thesis
  proof cases
    case 1
    then have "unat w \<le> 64" by (simp add: word_less_nat_alt)
    with fit have "x mod 2 ^ 64 = x" by (rule mod_small)
    moreover from fit have "x mod 2 ^ unat w = x" by simp
    ultimately show ?thesis using 1 x t m
      by (simp add: zextOrTrunc_def isIntegerTy_def getIntegerBitWidth_def)
  next
    case 2
    then have "\<not> w < 64" by simp
    with 2 x t m show ?thesis
      by (simp add: zextOrTrunc_def isIntegerTy_def getIntegerBitWidth_def)
  next
    case 3
    with fit have "x mod 2 ^ 64 = x" by simp
    with 3 x show ?thesis by (simp add: zextOrTrunc_def)
  qed
qed

lemma materializeCallArg_alt:
  "materializeCallArg h Arg =
     (case typeOf Arg of
        PointerTy AS \<Rightarrow>
          (let BitWidth = (if getPointerSizeInBits h AS = 0 then getPointerSizeInBits h 0
                           else getPointerSizeInBits h AS)
           in (Pointer, BitWidth, zextOrTrunc (PtrToInt Arg (max BitWidth 1)) BitWidth))
      | IntegerTy w \<Rightarrow> (Integer, w, zextOrTrunc Arg w)
      | FloatingPointTy w \<Rightarrow>
          (let BitWidth = (if w = 0 then word_of_nat (getTypeStoreSizeInBits h (typeOf Arg)) else w)
           in (Floating, BitWidth, zextOrTrunc (BitCast Arg (IntegerTy (max BitWidth 1))) BitWidth))
      | _ \<Rightarrow>
          (Unknown,
           (if (word_of_nat (getTypeStoreSizeInBits h (typeOf Arg)) :: u32) = 0 then 1
            else word_of_nat (getTypeStoreSizeInBits h (typeOf Arg))),
           ConstantInt 64 0))"
  by (cases "typeOf Arg")
     (auto simp: materializeCallArg_def Let_def isPointerTy_def isIntegerTy_def isFloatingPointTy_def
        getPointerAddressSpace_def getIntegerBitWidth_def getScalarSizeInBits_def zextOrTrunc_def
        dest: not_lt_gt_64)

lemma sext_zextOrTrunc: "sextCount (zextOrTrunc X w) = sextCount X"
  by (simp add: zextOrTrunc_def)

lemma unat_narrowed:
  "unat (if (word_of_nat s :: u32) = 0 then 1 else (word_of_nat s :: u32))
     = (if s mod 2 ^ 32 = 0 then 1 else s mod 2 ^ 32)"
  by (simp add: unat_of_nat word_of_nat_eq_0_iff mod_eq_0_iff_dvd)

lemma unknown_width:
  "unat (if (word_of_nat s :: u32) = 0 then 1 else (word_of_nat s :: u32))
     = (if s mod 2 ^ 32 = 0 then 1 else s mod 2 ^ 32)
   \<and> (s < 2 ^ 32 \<longrightarrow>
        unat (if (word_of_nat s :: u32) = 0 then 1 else (word_of_nat s :: u32)) = max 1 s)"
proof -
  have "(if s mod 2 ^ 32 = 0 then 1 else s mod 2 ^ 32) = max 1 s" if "s < 2 ^ 32"
    using that by (cases "s = 0") simp_all
  then show ?thesis
    by (simp only: unat_narrowed) simp
qed

text \<open>
  C8, as amended. The operand handed to the call hook has type \<^verbatim>\<open>i64\<close>. For a pointer
  it is the \<^verbatim>\<open>ptrtoint\<close> of the argument to the integer type of the recorded width (the
  pointer width of the address space, or that of address space 0 when the layout gives 0),
  zero-extended or truncated to 64 bits; for an integer it is the argument zero-extended
  or truncated; for a float it is the \<^verbatim>\<open>bitcast\<close> of the argument to the integer type
  of the recorded width (the scalar size), zero-extended or truncated. In each of these
  cases the casts are well-formed and the operand holds the bits of the argument reduced
  modulo \<open>2 ^ 64\<close>, and no sign extension is added around the argument. For every other
  type the kind is unknown, the operand is the constant 0 and the recorded width is the
  store size in bits reduced modulo \<open>2 ^ 32\<close> (the width is a \<^verbatim>\<open>uint32_t\<close>), or 1 when
  that is 0; it is the store size itself, at least 1, when the store size is below
  \<open>2 ^ 32\<close>.
\<close>

theorem materializeCallArg_marshals:
  assumes m: "materializeCallArg h Arg = (K, BitWidth, V)"
  shows "typeOf V = IntegerTy 64 \<and>
    (case typeOf Arg of
       PointerTy AS \<Rightarrow>
         K = Pointer
         \<and> BitWidth = (if getPointerSizeInBits h AS = 0 then getPointerSizeInBits h 0
                        else getPointerSizeInBits h AS)
         \<and> V = zextOrTrunc (PtrToInt Arg (max BitWidth 1)) BitWidth
         \<and> sextCount V = sextCount Arg
         \<and> (\<forall>x. bitsOf L A Arg = Some x \<and> x < 2 ^ unat BitWidth
                \<longrightarrow> bitsOf L A V = Some (x mod 2 ^ 64))
     | IntegerTy w \<Rightarrow>
         K = Integer \<and> BitWidth = w
         \<and> V = zextOrTrunc Arg w
         \<and> sextCount V = sextCount Arg
         \<and> (\<forall>x. bitsOf L A Arg = Some x \<and> x < 2 ^ unat w
                \<longrightarrow> bitsOf L A V = Some (x mod 2 ^ 64))
     | FloatingPointTy w \<Rightarrow>
         K = Floating
         \<and> BitWidth = (if w = 0 then word_of_nat (getTypeStoreSizeInBits h (typeOf Arg)) else w)
         \<and> V = zextOrTrunc (BitCast Arg (IntegerTy (max BitWidth 1))) BitWidth
         \<and> sextCount V = sextCount Arg
         \<and> (\<forall>x. w \<noteq> 0 \<and> bitsOf L A Arg = Some x \<and> x < 2 ^ unat w
                \<longrightarrow> bitsOf L A V = Some (x mod 2 ^ 64))
     | _ \<Rightarrow>
         K = Unknown \<and> V = ConstantInt 64 0 \<and> bitsOf L A V = Some 0
         \<and> unat BitWidth = (if getTypeStoreSizeInBits h (typeOf Arg) mod 2 ^ 32 = 0 then 1
                             else getTypeStoreSizeInBits h (typeOf Arg) mod 2 ^ 32)
         \<and> (getTypeStoreSizeInBits h (typeOf Arg) < 2 ^ 32
              \<longrightarrow> unat BitWidth = max 1 (getTypeStoreSizeInBits h (typeOf Arg))))"
proof (cases "typeOf Arg")
  case VoidTy
  with m have "K = Unknown" "V = ConstantInt 64 0"
    "BitWidth = (if (word_of_nat (getTypeStoreSizeInBits h (typeOf Arg)) :: u32) = 0 then 1
                 else word_of_nat (getTypeStoreSizeInBits h (typeOf Arg)))"
    by (simp_all add: materializeCallArg_alt)
  with VoidTy unknown_width[of "getTypeStoreSizeInBits h (typeOf Arg)"] show ?thesis
    by simp
next
  case (OtherTy n)
  with m have "K = Unknown" "V = ConstantInt 64 0"
    "BitWidth = (if (word_of_nat (getTypeStoreSizeInBits h (typeOf Arg)) :: u32) = 0 then 1
                 else word_of_nat (getTypeStoreSizeInBits h (typeOf Arg)))"
    by (simp_all add: materializeCallArg_alt)
  with OtherTy unknown_width[of "getTypeStoreSizeInBits h (typeOf Arg)"] show ?thesis
    by simp
next
  case (IntegerTy w)
  have t: "typeOf (zextOrTrunc Arg w) = IntegerTy 64"
    using IntegerTy by (auto simp: zextOrTrunc_def dest: not_lt_gt_64)
  have s: "bitsOf L A (zextOrTrunc Arg w) = Some (x mod 2 ^ 64)"
    if "bitsOf L A Arg = Some x" "x < 2 ^ unat w" for x
  proof (cases "w = 0")
    case True
    with that IntegerTy show ?thesis
      by (simp add: zextOrTrunc_def isIntegerTy_def getIntegerBitWidth_def)
  next
    case False
    show ?thesis
    proof (rule cast64)
      show "bitsOf L A Arg = Some x" by (rule that)
      show "typeOf Arg = IntegerTy (max w 1)" using IntegerTy False by (simp add: max1)
      show "x < 2 ^ unat w" by (rule that)
    qed
  qed
  from m IntegerTy t s show ?thesis
    by (auto simp: materializeCallArg_alt sext_zextOrTrunc)
next
  case (PointerTy AS)
  let ?B = "if getPointerSizeInBits h AS = 0 then getPointerSizeInBits h 0 else getPointerSizeInBits h AS"
  let ?X = "PtrToInt Arg (max ?B 1)"
  have t: "typeOf (zextOrTrunc ?X ?B) = IntegerTy 64"
    by (rule typeOf_zextOrTrunc) simp
  have s: "bitsOf L A (zextOrTrunc ?X ?B) = Some (x mod 2 ^ 64)"
    if a: "bitsOf L A Arg = Some x" and f: "x < 2 ^ unat ?B" for x
  proof (rule cast64)
    have "x mod 2 ^ unat (max ?B 1) = x"
    proof (cases "?B = 0")
      case True
      with f have "x = 0" by simp
      then show ?thesis by simp
    next
      case False
      then have "max ?B 1 = ?B" by (rule max1)
      with f show ?thesis by simp
    qed
    with a PointerTy show "bitsOf L A ?X = Some x"
      by (simp add: isPointerTy_def)
    show "typeOf ?X = IntegerTy (max ?B 1)" by simp
    show "x < 2 ^ unat ?B" by (rule f)
  qed
  from m PointerTy t s show ?thesis
    by (auto simp: materializeCallArg_alt Let_def sext_zextOrTrunc)
next
  case (FloatingPointTy w)
  let ?B = "if w = 0 then word_of_nat (getTypeStoreSizeInBits h (typeOf Arg)) else w"
  let ?X = "BitCast Arg (IntegerTy (max ?B 1))"
  have t: "typeOf (zextOrTrunc ?X ?B) = IntegerTy 64"
    by (rule typeOf_zextOrTrunc) simp
  have s: "bitsOf L A (zextOrTrunc ?X ?B) = Some (x mod 2 ^ 64)"
    if nz: "w \<noteq> 0" and a: "bitsOf L A Arg = Some x" and f: "x < 2 ^ unat w" for x
  proof (rule cast64)
    from nz have "max w 1 = w" by (rule max1)
    with nz a FloatingPointTy show "bitsOf L A ?X = Some x"
      by (simp add: isPointerTy_def getScalarSizeInBits_def)
    show "typeOf ?X = IntegerTy (max ?B 1)" by simp
    show "x < 2 ^ unat ?B" using nz f by simp
  qed
  from m FloatingPointTy t s show ?thesis
    by (auto simp: materializeCallArg_alt Let_def sext_zextOrTrunc)
qed

theorem materializeCallArg_marshals_witness:
  "materializeCallArg host0 (Local 0 (FloatingPointTy 32))
     = (Floating, 32, ZExt (BitCast (Local 0 (FloatingPointTy 32)) (IntegerTy 32)) 64)
   \<and> bitsOf (\<lambda>_. 42) (\<lambda>_. 0) (Local 0 (FloatingPointTy 32)) = Some 42 \<and> (42 :: nat) < 2 ^ 32
   \<and> bitsOf (\<lambda>_. 42) (\<lambda>_. 0) (ZExt (BitCast (Local 0 (FloatingPointTy 32)) (IntegerTy 32)) 64)
       = Some 42"
proof -
  have m: "materializeCallArg host0 (Local 0 (FloatingPointTy 32))
             = (Floating, 32, ZExt (BitCast (Local 0 (FloatingPointTy 32)) (IntegerTy 32)) 64)"
    by (simp add: materializeCallArg_def isPointerTy_def isIntegerTy_def isFloatingPointTy_def
          getScalarSizeInBits_def)
  from materializeCallArg_marshals[OF m, of "\<lambda>_. 42" "\<lambda>_. 0"] m show ?thesis
    by (simp add: zextOrTrunc_def)
qed

theorem store_size_narrowed_counterexample:
  "getTypeStoreSizeInBits hostBig (OtherTy 0) = 2 ^ 32
   \<and> fst (materializeCallArg hostBig (Local 0 (OtherTy 0))) = Unknown
   \<and> unat (fst (snd (materializeCallArg hostBig (Local 0 (OtherTy 0))))) = 1
   \<and> unat (fst (snd (materializeCallArg hostBig (Local 0 (OtherTy 0)))))
       \<noteq> max 1 (getTypeStoreSizeInBits hostBig (OtherTy 0))"
  by (simp add: hostBig_def host0_def materializeCallArg_def isPointerTy_def isIntegerTy_def
        isFloatingPointTy_def)

lemma declareHook_char:
  "\<exists>d. (\<forall>F\<in>set d. isDeclaration F) \<and> declareHook M n = M\<lparr>FunctionList := FunctionList M @ d\<rparr>"
proof (cases "n \<in> set (map fname (FunctionList M))")
  case True
  then have "declareHook M n = M\<lparr>FunctionList := FunctionList M @ []\<rparr>"
    by (simp add: declareHook_def)
  then show ?thesis by (intro exI[of _ "[]"]) simp
next
  case False
  then have "declareHook M n = M\<lparr>FunctionList := FunctionList M @ [\<lparr>fname = n, blocks = []\<rparr>]\<rparr>"
    by (simp add: declareHook_def)
  then show ?thesis by (intro exI[of _ "[\<lparr>fname = n, blocks = []\<rparr>]"]) (simp add: isDeclaration_def)
qed

lemma declareHook_twice:
  assumes "\<exists>d. (\<forall>F\<in>set d. isDeclaration F) \<and> M1 = M\<lparr>FunctionList := FunctionList M @ d\<rparr>"
  shows "\<exists>d. (\<forall>F\<in>set d. isDeclaration F) \<and> declareHook M1 n = M\<lparr>FunctionList := FunctionList M @ d\<rparr>"
proof -
  from assms obtain d where d: "\<forall>F\<in>set d. isDeclaration F" "M1 = M\<lparr>FunctionList := FunctionList M @ d\<rparr>"
    by blast
  from declareHook_char[of M1 n] obtain d' where d': "\<forall>F\<in>set d'. isDeclaration F"
      "declareHook M1 n = M1\<lparr>FunctionList := FunctionList M1 @ d'\<rparr>"
    by blast
  have "declareHook M1 n = M\<lparr>FunctionList := FunctionList M @ (d @ d')\<rparr>"
    using d(2) d'(2) by simp
  with d(1) d'(1) show ?thesis
    by (intro exI[of _ "d @ d'"]) auto
qed

lemma instrumentFunction_char:
  "\<exists>d. (\<forall>F\<in>set d. isDeclaration F) \<and> (\<not> en \<longrightarrow> d = []) \<and>
     instrumentFunction h en k F FId (M, S, P) =
       (case rewriteFunction h en F FId of
          (bs, S', P') \<Rightarrow>
            (M\<lparr>FunctionList := (FunctionList M @ d)[k := F\<lparr>blocks := bs\<rparr>]\<rparr>, S @ S', P @ P'))"
proof (cases en)
  case False
  then show ?thesis
    by (intro exI[of _ "[]"]) (simp add: instrumentFunction_def rewriteFunction_def Let_def split: prod.splits)
next
  case True
  let ?M2 = "declareHook (declareHook (declareHook (declareHook (declareHook (declareHook M
      ''__bbtrace_on_basic_block'') ''__bbtrace_on_loop'') ''__bbtrace_on_mem'')
      ''__bbtrace_on_branch'') ''__bbtrace_on_call'') ''llvm.returnaddress''"
  have "\<exists>d. (\<forall>F\<in>set d. isDeclaration F) \<and> ?M2 = M\<lparr>FunctionList := FunctionList M @ d\<rparr>"
    by (intro declareHook_twice declareHook_char)
  then obtain d where d: "\<forall>F\<in>set d. isDeclaration F" "?M2 = M\<lparr>FunctionList := FunctionList M @ d\<rparr>"
    by blast
  have "instrumentFunction h en k F FId (M, S, P) =
       (case rewriteFunction h en F FId of
          (bs, S', P') \<Rightarrow>
            (?M2\<lparr>FunctionList := (FunctionList ?M2)[k := F\<lparr>blocks := bs\<rparr>]\<rparr>, S @ S', P @ P'))"
    using True by (simp add: instrumentFunction_def rewriteFunction_def Let_def split: prod.splits)
  also have "\<dots> = (case rewriteFunction h en F FId of
          (bs, S', P') \<Rightarrow>
            (M\<lparr>FunctionList := (FunctionList M @ d)[k := F\<lparr>blocks := bs\<rparr>]\<rparr>, S @ S', P @ P'))"
    by (simp only: d(2)) simp
  finally show ?thesis
    using d(1) True by blast
qed

lemma forFunctions_char:
  "FunctionList M = pre @ todo @ app \<Longrightarrow> k = length pre \<Longrightarrow>
   \<exists>d. (\<forall>F\<in>set d. isDeclaration F) \<and> (\<not> en \<longrightarrow> d = []) \<and>
     forFunctions h en k todo (n, M, S, P) =
       (case rewriteAll h en n todo of
          (Fs', S', P', n') \<Rightarrow> (n', M\<lparr>FunctionList := pre @ Fs' @ app @ d\<rparr>, S @ S', P @ P'))"
proof (induction todo arbitrary: pre app k n M S P)
  case Nil
  then have "M\<lparr>FunctionList := pre @ [] @ app @ []\<rparr> = M"
    by simp
  then show ?case
    by (intro exI[of _ "[]"]) simp
next
  case (Cons F todo)
  show ?case
  proof (cases "isEligible F")
    case False
    have fl: "FunctionList M = (pre @ [F]) @ todo @ app"
      using Cons.prems by simp
    have k: "k + 1 = length (pre @ [F])"
      using Cons.prems by simp
    from Cons.IH[OF fl k, of n S P] obtain d where d: "\<forall>F\<in>set d. isDeclaration F" "\<not> en \<longrightarrow> d = []"
      "forFunctions h en (k + 1) todo (n, M, S, P) =
         (case rewriteAll h en n todo of
            (Fs', S', P', n') \<Rightarrow> (n', M\<lparr>FunctionList := (pre @ [F]) @ Fs' @ app @ d\<rparr>, S @ S', P @ P'))"
      by blast
    have "forFunctions h en k (F # todo) (n, M, S, P) = forFunctions h en (k + 1) todo (n, M, S, P)"
      using False by (auto simp: isEligible_def)
    with d(3) False have "forFunctions h en k (F # todo) (n, M, S, P) =
       (case rewriteAll h en n (F # todo) of
          (Fs', S', P', n') \<Rightarrow> (n', M\<lparr>FunctionList := pre @ Fs' @ app @ d\<rparr>, S @ S', P @ P'))"
      by (simp split: prod.splits)
    with d(1,2) show ?thesis by blast
  next
    case True
    obtain bs S1 P1 where rf: "rewriteFunction h en F n = (bs, S1, P1)"
      using prod_cases3 by blast
    from instrumentFunction_char[of en h k F n M S P] obtain d1 where d1:
      "\<forall>F\<in>set d1. isDeclaration F" "\<not> en \<longrightarrow> d1 = []"
      "instrumentFunction h en k F n (M, S, P) =
         (M\<lparr>FunctionList := (FunctionList M @ d1)[k := F\<lparr>blocks := bs\<rparr>]\<rparr>, S @ S1, P @ P1)"
      using rf by auto
    let ?F' = "F\<lparr>blocks := bs\<rparr>"
    let ?M' = "M\<lparr>FunctionList := (pre @ [?F']) @ todo @ (app @ d1)\<rparr>"
    have upd: "(FunctionList M @ d1)[k := ?F'] = (pre @ [?F']) @ todo @ (app @ d1)"
      using Cons.prems by (simp add: list_update_append)
    have fl: "FunctionList ?M' = (pre @ [?F']) @ todo @ (app @ d1)"
      by simp
    have k: "k + 1 = length (pre @ [?F'])"
      using Cons.prems by simp
    from Cons.IH[OF fl k, of "n + 1" "S @ S1" "P @ P1"] obtain d2 where d2:
      "\<forall>F\<in>set d2. isDeclaration F" "\<not> en \<longrightarrow> d2 = []"
      "forFunctions h en (k + 1) todo (n + 1, ?M', S @ S1, P @ P1) =
         (case rewriteAll h en (n + 1) todo of
            (Fs', S', P', n') \<Rightarrow>
              (n', ?M'\<lparr>FunctionList := (pre @ [?F']) @ Fs' @ (app @ d1) @ d2\<rparr>,
               (S @ S1) @ S', (P @ P1) @ P'))"
      by blast
    have "forFunctions h en k (F # todo) (n, M, S, P)
            = forFunctions h en (k + 1) todo (n + 1, ?M', S @ S1, P @ P1)"
      using True d1(3) upd by (simp add: isEligible_def)
    with d2(3) True rf have "forFunctions h en k (F # todo) (n, M, S, P) =
       (case rewriteAll h en n (F # todo) of
          (Fs', S', P', n') \<Rightarrow> (n', M\<lparr>FunctionList := pre @ Fs' @ app @ (d1 @ d2)\<rparr>, S @ S', P @ P'))"
      by (simp split: prod.splits)
    moreover have "\<forall>F\<in>set (d1 @ d2). isDeclaration F" "\<not> en \<longrightarrow> d1 @ d2 = []"
      using d1 d2 by auto
    ultimately show ?thesis by blast
  qed
qed

lemma forFunctions_declarations:
  "\<forall>F\<in>set todo. isDeclaration F \<Longrightarrow> forFunctions h en k todo st = st"
  by (induction todo arbitrary: k) auto

lemma rewriteAll_append:
  "rewriteAll h en n (xs @ ys) =
     (case rewriteAll h en n xs of
        (Fs1, S1, P1, n1) \<Rightarrow>
          (case rewriteAll h en n1 ys of
             (Fs2, S2, P2, n2) \<Rightarrow> (Fs1 @ Fs2, S1 @ S2, P1 @ P2, n2)))"
  by (induction xs arbitrary: n) (auto split: prod.splits)

lemma rewriteAll_ineligible:
  "\<forall>F\<in>set xs. \<not> isEligible F \<Longrightarrow> rewriteAll h en n xs = (xs, [], [], n)"
  by (induction xs) auto

lemma rewriteAll_length:
  "rewriteAll h en n xs = (Fs, S, P, n') \<Longrightarrow> length Fs = length xs"
  by (induction xs arbitrary: n Fs S P n') (auto split: prod.splits if_splits)

lemma ensureCtorDtor_char:
  "\<exists>d0. (\<forall>F\<in>set d0. isDeclaration F) \<and>
     ensureCtorDtor M =
       M\<lparr>GlobalList := GlobalList M @ [getModuleNameGlobal M],
         FunctionList := FunctionList M @ d0 @ [CtorFn, DtorFn],
         global_ctors := global_ctors M @ [(''__bbtrace_ctor'', 0)],
         global_dtors := global_dtors M @ [(''__bbtrace_dtor'', 0)]\<rparr>"
proof -
  let ?M2 = "declareHook (declareHook M ''__bbtrace_register_module'') ''__bbtrace_finalize''"
  have "\<exists>d. (\<forall>F\<in>set d. isDeclaration F) \<and> ?M2 = M\<lparr>FunctionList := FunctionList M @ d\<rparr>"
    by (intro declareHook_twice declareHook_char)
  then obtain d where d: "\<forall>F\<in>set d. isDeclaration F" "?M2 = M\<lparr>FunctionList := FunctionList M @ d\<rparr>"
    by blast
  have "ensureCtorDtor M =
       ?M2\<lparr>GlobalList := GlobalList ?M2 @ [getModuleNameGlobal ?M2],
         FunctionList := FunctionList ?M2 @ [CtorFn, DtorFn],
         global_ctors := global_ctors ?M2 @ [(''__bbtrace_ctor'', 0)],
         global_dtors := global_dtors ?M2 @ [(''__bbtrace_dtor'', 0)]\<rparr>"
    by (simp add: ensureCtorDtor_def Let_def CtorFn_def DtorFn_def getModuleNameGlobal_def
          CreatePointerCast_def)
  also have "\<dots> = M\<lparr>GlobalList := GlobalList M @ [getModuleNameGlobal M],
         FunctionList := FunctionList M @ d @ [CtorFn, DtorFn],
         global_ctors := global_ctors M @ [(''__bbtrace_ctor'', 0)],
         global_dtors := global_dtors M @ [(''__bbtrace_dtor'', 0)]\<rparr>"
    by (simp only: d(2)) (simp add: getModuleNameGlobal_def)
  finally show ?thesis using d(1) by blast
qed

lemma not_eligible_decl: "isDeclaration F \<Longrightarrow> \<not> isEligible F"
  by (simp add: isEligible_def)

lemma not_eligible_ctor_dtor: "\<not> isEligible CtorFn" "\<not> isEligible DtorFn"
  by (simp_all add: isEligible_def CtorFn_def DtorFn_def starts_with_def)

lemma runOnFunctions_static:
  assumes "isStaticOnlyMode h"
  shows "runOnFunctions h M =
     (case rewriteAll h False 0 (FunctionList M) of
        (Fs', S, P, n') \<Rightarrow> (M\<lparr>FunctionList := Fs'\<rparr>, S, P))"
proof -
  obtain Fs' S P n' where r: "rewriteAll h False 0 (FunctionList M) = (Fs', S, P, n')"
    using prod_cases4 by blast
  have fl: "FunctionList M = [] @ FunctionList M @ []" by simp
  from forFunctions_char[OF fl, of 0 False h 0 "[]" "[]"] r
  have 1: "forFunctions h False 0 (FunctionList M) (0, M, [], []) = (n', M\<lparr>FunctionList := Fs'\<rparr>, S, P)"
    by auto
  have "drop (length (FunctionList M)) Fs' = []"
    using rewriteAll_length[OF r] by simp
  with assms 1 r show ?thesis
    by (simp add: runOnFunctions_def)
qed

lemma runOnFunctions_instrumented:
  assumes "\<not> isStaticOnlyMode h"
  shows "\<exists>d. (\<forall>F\<in>set d. \<not> isEligible F \<and> filter isRecord (concat (map insts (blocks F))) = []) \<and>
     runOnFunctions h M =
     (case rewriteAll h True 0 (FunctionList M) of
        (Fs', S, P, n') \<Rightarrow>
          (M\<lparr>GlobalList := GlobalList M @ [getModuleNameGlobal M],
             FunctionList := Fs' @ d,
             global_ctors := global_ctors M @ [(''__bbtrace_ctor'', 0)],
             global_dtors := global_dtors M @ [(''__bbtrace_dtor'', 0)]\<rparr>, S, P))"
proof -
  obtain Fs' S P n' where r: "rewriteAll h True 0 (FunctionList M) = (Fs', S, P, n')"
    using prod_cases4 by blast
  from ensureCtorDtor_char[of M] obtain d0 where d0: "\<forall>F\<in>set d0. isDeclaration F"
    "ensureCtorDtor M =
       M\<lparr>GlobalList := GlobalList M @ [getModuleNameGlobal M],
         FunctionList := FunctionList M @ d0 @ [CtorFn, DtorFn],
         global_ctors := global_ctors M @ [(''__bbtrace_ctor'', 0)],
         global_dtors := global_dtors M @ [(''__bbtrace_dtor'', 0)]\<rparr>"
    by blast
  let ?M0 = "ensureCtorDtor M"
  let ?x = "d0 @ [CtorFn, DtorFn]"
  have inel: "\<forall>F\<in>set ?x. \<not> isEligible F"
    using d0(1) by (auto simp: not_eligible_decl not_eligible_ctor_dtor)
  have fl0: "FunctionList ?M0 = FunctionList M @ ?x"
    by (simp add: d0(2))
  have "rewriteAll h True 0 (FunctionList M @ ?x) =
     (case rewriteAll h True 0 (FunctionList M) of
        (Fs1, S1, P1, n1) \<Rightarrow>
          (case rewriteAll h True n1 ?x of
             (Fs2, S2, P2, n2) \<Rightarrow> (Fs1 @ Fs2, S1 @ S2, P1 @ P2, n2)))"
    by (rule rewriteAll_append)
  also have "\<dots> = (Fs' @ ?x, S, P, n')"
    using rewriteAll_ineligible[OF inel, of h True n'] by (simp add: r)
  finally have r0: "rewriteAll h True 0 (FunctionList ?M0) = (Fs' @ ?x, S, P, n')"
    by (simp only: fl0)
  have fl: "FunctionList ?M0 = [] @ FunctionList ?M0 @ []" by simp
  from forFunctions_char[OF fl, of 0 True h 0 "[]" "[]"] r0 obtain d where d:
    "\<forall>F\<in>set d. isDeclaration F"
    "forFunctions h True 0 (FunctionList ?M0) (0, ?M0, [], [])
       = (n', ?M0\<lparr>FunctionList := (Fs' @ ?x) @ d\<rparr>, S, P)"
    by auto
  have len: "length (FunctionList ?M0) = length (Fs' @ ?x)"
    using rewriteAll_length[OF r0] by simp
  have dr: "drop (length (FunctionList ?M0)) ((Fs' @ ?x) @ d) = d"
    by (simp only: len) simp
  have 2: "forFunctions h True (length (FunctionList ?M0)) d (n', ?M0\<lparr>FunctionList := (Fs' @ ?x) @ d\<rparr>, S, P)
            = (n', ?M0\<lparr>FunctionList := (Fs' @ ?x) @ d\<rparr>, S, P)"
    by (rule forFunctions_declarations[OF d(1)])
  have run: "runOnFunctions h M = (?M0\<lparr>FunctionList := (Fs' @ ?x) @ d\<rparr>, S, P)"
    using assms d(2) 2 dr by (simp add: runOnFunctions_def Let_def)
  have M0: "?M0\<lparr>FunctionList := (Fs' @ ?x) @ d\<rparr> =
      M\<lparr>GlobalList := GlobalList M @ [getModuleNameGlobal M],
         FunctionList := Fs' @ (?x @ d),
         global_ctors := global_ctors M @ [(''__bbtrace_ctor'', 0)],
         global_dtors := global_dtors M @ [(''__bbtrace_dtor'', 0)]\<rparr>"
    by (simp only: d0(2)) simp
  have nr: "\<forall>F\<in>set (?x @ d). \<not> isEligible F \<and> filter isRecord (concat (map insts (blocks F))) = []"
  proof -
    have c: "filter isRecord (concat (map insts (blocks CtorFn))) = []"
      "filter isRecord (concat (map insts (blocks DtorFn))) = []"
      by (simp_all add: CtorFn_def DtorFn_def)
    have e: "\<And>F. isDeclaration F \<Longrightarrow> filter isRecord (concat (map insts (blocks F))) = []"
      by (simp add: isDeclaration_def)
    show ?thesis
      using d0(1) d(1) by (auto simp: not_eligible_decl not_eligible_ctor_dtor c e)
  qed
  from run M0 r nr show ?thesis
    by (intro exI[of _ "?x @ d"]) simp
qed

lemma instsOfFuncs_simps [simp]:
  "instsOfFuncs [] = []"
  "instsOfFuncs (F # Fs) = concat (map insts (blocks F)) @ instsOfFuncs Fs"
  "instsOfFuncs (Fs @ Gs) = instsOfFuncs Fs @ instsOfFuncs Gs"
  by (simp_all add: instsOfFuncs_def)

lemma recordsOf_simps [simp]:
  "recordsOf [] = []"
  "recordsOf (S1 @ S2) = recordsOf S1 @ recordsOf S2"
  by (simp_all add: recordsOf_def)

lemma length_recordsOf:
  "length (recordsOf S) = length (filter isMemInfo (concat (map Instructions S)))"
  by (induction S) (simp_all add: recordsOf_def)

lemma rewriteFunction_records:
  assumes "rewriteFunction h en F n = (bs, S, P)"
    and "filter isRecord (concat (map insts (blocks F))) = []"
  shows "filter isRecord (concat (map insts bs)) = recordsOf S"
  using assms unfolding rewriteFunction_def by (rule forBlocks_records)

lemma rewriteFunction_mem_count:
  assumes "rewriteFunction h en F n = (bs, S, P)"
  shows "length (filter isMemInfo (concat (map Instructions S)))
           = length (filter isMemInst (concat (map insts (blocks F))))"
proof -
  from assms have "map InstId (filter isMemInfo (concat (map Instructions S)))
       = map (\<lambda>j. 0 + word_of_nat j) [0..<length (filter isMemInst (concat (map insts (blocks F))))]"
    unfolding rewriteFunction_def by (drule_tac forBlocks_mem_ids) simp
  then have "length (map InstId (filter isMemInfo (concat (map Instructions S))))
       = length (map (\<lambda>j. (0 :: u32) + word_of_nat j) [0..<length (filter isMemInst (concat (map insts (blocks F))))])"
    by (rule arg_cong)
  then show ?thesis by simp
qed

lemma rewriteAll_records:
  "rewriteAll h en n xs = (Fs, S, P, n') \<Longrightarrow>
   filter isRecord (instsOfFuncs xs) = [] \<Longrightarrow>
   filter isRecord (instsOfFuncs Fs) = recordsOf S
   \<and> length (filter isMemInfo (concat (map Instructions S)))
        = length (filter isMemInst (instsOfFuncs (filter isEligible xs)))"
proof (induction xs arbitrary: n Fs S P n')
  case Nil
  then show ?case by simp
next
  case (Cons F xs)
  from Cons.prems(2) have nr: "filter isRecord (concat (map insts (blocks F))) = []"
    "filter isRecord (instsOfFuncs xs) = []"
    by simp_all
  show ?case
  proof (cases "isEligible F")
    case False
    obtain Fs2 S2 P2 n2 where r: "rewriteAll h en n xs = (Fs2, S2, P2, n2)"
      using prod_cases4 by blast
    from Cons.IH[OF r nr(2)] Cons.prems(1) False r nr(1) show ?thesis
      by auto
  next
    case True
    obtain bs S1 P1 where rf: "rewriteFunction h en F n = (bs, S1, P1)"
      using prod_cases3 by blast
    obtain Fs2 S2 P2 n2 where r: "rewriteAll h en (n + 1) xs = (Fs2, S2, P2, n2)"
      using prod_cases4 by blast
    note a = rewriteFunction_records[OF rf nr(1)] rewriteFunction_mem_count[OF rf]
    from Cons.IH[OF r nr(2)] Cons.prems(1) True r rf a show ?thesis
      by auto
  qed
qed

lemma rewriteFunction_static:
  "rewriteFunction h False F n = (bs, S, P) \<Longrightarrow> map unrecordBlock bs = map unrecordBlock (blocks F)"
  unfolding rewriteFunction_def by (drule forBlocks_static[simplified]) simp

lemma rewriteAll_static:
  "rewriteAll h False n xs = (Fs, S, P, n') \<Longrightarrow> map unrecord Fs = map unrecord xs"
proof (induction xs arbitrary: n Fs S P n')
  case Nil
  then show ?case by simp
next
  case (Cons F xs)
  show ?case
  proof (cases "isEligible F")
    case False
    with Cons show ?thesis
      by (auto split: prod.splits)
  next
    case True
    obtain bs S1 P1 where rf: "rewriteFunction h False F n = (bs, S1, P1)"
      using prod_cases3 by blast
    obtain Fs2 S2 P2 n2 where r: "rewriteAll h False (n + 1) xs = (Fs2, S2, P2, n2)"
      using prod_cases4 by blast
    from Cons.IH[OF r] Cons.prems True r rf rewriteFunction_static[OF rf] show ?thesis
      by (auto simp: unrecord_def)
  qed
qed

lemma rewriteFunction_pc:
  "rewriteFunction h en F n = (bs, S, P) \<Longrightarrow>
   P = map (\<lambda>BB. \<lparr>PcFuncId = n, PcBbId = lookup (assignBlockIds (blocks F) 0 Map.empty) (bptr BB),
                    Address = blockAddrConst F BB\<rparr>) (blocks F)"
  unfolding rewriteFunction_def by (rule forBlocks_pc)

lemma rewriteAll_pc_nonempty:
  "rewriteAll h en n xs = (Fs, S, P, n') \<Longrightarrow> \<exists>F\<in>set xs. isEligible F \<Longrightarrow> P \<noteq> []"
proof (induction xs arbitrary: n Fs S P n')
  case Nil
  then show ?case by simp
next
  case (Cons F xs)
  show ?case
  proof (cases "isEligible F")
    case False
    with Cons show ?thesis
      by (auto split: prod.splits)
  next
    case True
    obtain bs S1 P1 where rf: "rewriteFunction h en F n = (bs, S1, P1)"
      using prod_cases3 by blast
    from rewriteFunction_pc[OF rf] True have "P1 \<noteq> []"
      by (simp add: isEligible_def isDeclaration_def)
    with Cons.prems(1) True rf show ?thesis
      by (auto split: prod.splits)
  qed
qed

lemma emitPcMap_fields [simp]:
  "FunctionList (emitPcMap h M P) = FunctionList M"
  "global_ctors (emitPcMap h M P) = global_ctors M"
  "global_dtors (emitPcMap h M P) = global_dtors M"
  "ModuleIdentifier (emitPcMap h M P) = ModuleIdentifier M"
  by (simp_all add: emitPcMap_def Let_def)

lemma emitPcMap_globals:
  "GlobalList (emitPcMap h M P) = GlobalList M @ (if P = [] then [] else [pcMapGlobal h P])"
  "compiler_used (emitPcMap h M P) = compiler_used M @ (if P = [] then [] else [''__bbtrace_pcmap''])"
  by (simp_all add: emitPcMap_def Let_def pcMapGlobal_def)

lemma forFunctions_ineligible:
  "\<forall>F\<in>set todo. \<not> isEligible F \<Longrightarrow> forFunctions h en k todo st = st"
  by (induction todo arbitrary: k) (auto simp: isEligible_def)

lemma records_module:
  assumes "bbtrace_inst M = []"
  shows "bbtrace_inst (fst (instrumentModule h M fs)) = recordsOf (fst (snd (runOnFunctions h M)))
    \<and> length (bbtrace_inst (fst (instrumentModule h M fs))) = length (filter isMemInst (eligibleInsts M))"
proof -
  from assms have nr: "filter isRecord (instsOfFuncs (FunctionList M)) = []"
    by (simp add: bbtrace_inst_def)
  show ?thesis
  proof (cases "isStaticOnlyMode h")
    case True
    obtain Fs S P n' where r: "rewriteAll h False 0 (FunctionList M) = (Fs, S, P, n')"
      using prod_cases4 by blast
    from rewriteAll_records[OF r nr] runOnFunctions_static[OF True, of M] r show ?thesis
      by (simp add: instrumentModule_def bbtrace_inst_def eligibleInsts_def length_recordsOf)
  next
    case False
    obtain Fs S P n' where r: "rewriteAll h True 0 (FunctionList M) = (Fs, S, P, n')"
      using prod_cases4 by blast
    from runOnFunctions_instrumented[OF False, of M] r obtain d where
      d: "\<forall>F\<in>set d. \<not> isEligible F \<and> filter isRecord (concat (map insts (blocks F))) = []"
      and run: "runOnFunctions h M =
          (M\<lparr>GlobalList := GlobalList M @ [getModuleNameGlobal M],
             FunctionList := Fs @ d,
             global_ctors := global_ctors M @ [(''__bbtrace_ctor'', 0)],
             global_dtors := global_dtors M @ [(''__bbtrace_dtor'', 0)]\<rparr>, S, P)"
      by auto
    have "filter isRecord (instsOfFuncs d) = []"
      using d by (induction d) auto
    with rewriteAll_records[OF r nr] run show ?thesis
      by (simp add: instrumentModule_def bbtrace_inst_def eligibleInsts_def length_recordsOf)
  qed
qed

lemma static_module:
  assumes "isStaticOnlyMode h"
  shows "global_ctors (fst (instrumentModule h M fs)) = global_ctors M
    \<and> global_dtors (fst (instrumentModule h M fs)) = global_dtors M
    \<and> map unrecord (FunctionList (fst (instrumentModule h M fs))) = map unrecord (FunctionList M)
    \<and> GlobalList (fst (instrumentModule h M fs))
        = GlobalList M @ (if snd (snd (runOnFunctions h M)) = [] then []
                          else [pcMapGlobal h (snd (snd (runOnFunctions h M)))])"
proof -
  obtain Fs S P n' where r: "rewriteAll h False 0 (FunctionList M) = (Fs, S, P, n')"
    using prod_cases4 by blast
  from rewriteAll_static[OF r] runOnFunctions_static[OF assms, of M] r show ?thesis
    by (simp add: instrumentModule_def emitPcMap_globals)
qed

lemma pcmap_module:
  assumes "\<exists>F\<in>set (FunctionList M). isEligible F"
  shows "GlobalList (fst (instrumentModule h M fs))
           = GlobalList (fst (runOnFunctions h M)) @ [pcMapGlobal h (snd (snd (runOnFunctions h M)))]
    \<and> compiler_used (fst (instrumentModule h M fs)) = compiler_used M @ [''__bbtrace_pcmap'']"
proof (cases "isStaticOnlyMode h")
  case True
  obtain Fs S P n' where r: "rewriteAll h False 0 (FunctionList M) = (Fs, S, P, n')"
    using prod_cases4 by blast
  from rewriteAll_pc_nonempty[OF r assms] runOnFunctions_static[OF True, of M] r show ?thesis
    by (simp add: instrumentModule_def emitPcMap_globals)
next
  case False
  obtain Fs S P n' where r: "rewriteAll h True 0 (FunctionList M) = (Fs, S, P, n')"
    using prod_cases4 by blast
  from runOnFunctions_instrumented[OF False, of M] r obtain d where
    run: "runOnFunctions h M =
        (M\<lparr>GlobalList := GlobalList M @ [getModuleNameGlobal M],
           FunctionList := Fs @ d,
           global_ctors := global_ctors M @ [(''__bbtrace_ctor'', 0)],
           global_dtors := global_dtors M @ [(''__bbtrace_dtor'', 0)]\<rparr>, S, P)"
    by auto
  from rewriteAll_pc_nonempty[OF r assms] run show ?thesis
    by (simp add: instrumentModule_def emitPcMap_globals)
qed

lemma ensureCtorDtor_ineligible:
  assumes "\<forall>F\<in>set (FunctionList M). \<not> isEligible F"
  shows "\<forall>F\<in>set (FunctionList (ensureCtorDtor M)). \<not> isEligible F"
proof -
  from ensureCtorDtor_char[of M] obtain d0 where d0: "\<forall>F\<in>set d0. isDeclaration F"
    "FunctionList (ensureCtorDtor M) = FunctionList M @ d0 @ [CtorFn, DtorFn]"
    by (metis (no_types, lifting) module.select_convs(2) module.surjective module.update_convs(2,3,4,5))
  with assms show ?thesis
    by (auto simp: not_eligible_decl not_eligible_ctor_dtor)
qed

lemma no_eligible_module:
  assumes "\<forall>F\<in>set (FunctionList M). \<not> isEligible F"
  shows "instrumentModule h M fs = (if isStaticOnlyMode h then M else ensureCtorDtor M, fs)"
proof -
  let ?M0 = "if \<not> isStaticOnlyMode h then ensureCtorDtor M else M"
  have i: "\<forall>F\<in>set (FunctionList ?M0). \<not> isEligible F"
    using assms ensureCtorDtor_ineligible[OF assms] by simp
  have "runOnFunctions h M = (?M0, [], [])"
    by (simp add: runOnFunctions_def Let_def forFunctions_ineligible[OF i])
  then show ?thesis
    by (simp add: instrumentModule_def emitPcMap_def dumpBasicBlockInfo_def)
qed

lemma isRecordOrMem_emit [simp]: "isRecordOrMem (emitInstPcRecord f b i)"
  by (simp add: isRecordOrMem_def)

lemma isRecordOrMem_mem: "isMemInst I \<Longrightarrow> isRecordOrMem I"
  by (simp add: isRecordOrMem_def)

lemma instrumentInstruction_static_ins:
  "instrumentInstruction h False FN B f b Buf cs I = (ins, info, cs') \<Longrightarrow>
   ins = (if isMemInst I then [emitInstPcRecord f b (NextMemInstId cs)] else [])
   \<and> NextMemInstId cs' = (if isMemInst I then NextMemInstId cs + 1 else NextMemInstId cs)"
  by (cases I) (auto simp: Let_def genericInfo_def isMemInst_def split: if_splits)

lemma instrumentInstruction_view_ins:
  "instrumentInstruction h en FN B f b Buf cs I = (ins, info, cs') \<Longrightarrow>
   filter isRecordOrMem ins = (if isMemInst I then [emitInstPcRecord f b (NextMemInstId cs)] else [])
   \<and> NextMemInstId cs' = (if isMemInst I then NextMemInstId cs + 1 else NextMemInstId cs)"
  by (cases I)
     (auto simp: Let_def genericInfo_def isMemInst_def isRecordOrMem_def split: if_splits)

lemma isSkipped_not_mem: "isSkipped I \<Longrightarrow> \<not> isMemInst I"
  by (simp add: isSkipped_class)

lemma forInstructions_static_exact:
  "forInstructions h False FN B f b snap seen body cs = (out, infos, cs') \<Longrightarrow>
   out = staticBody f b (NextMemInstId cs) body
   \<and> NextMemInstId cs' = NextMemInstId cs + word_of_nat (length (filter isMemInst body))"
proof (induction body arbitrary: seen cs out infos cs')
  case Nil
  then show ?case by simp
next
  case (Cons I rest)
  show ?case
  proof (cases "isSkipped I")
    case True
    obtain o2 i2 c2 where r: "forInstructions h False FN B f b snap (seen @ [I]) rest cs = (o2, i2, c2)"
      using prod_cases3 by blast
    from Cons.IH[OF r] Cons.prems True r isSkipped_not_mem[OF True] show ?thesis
      by auto
  next
    case False
    obtain ins info cs1 where a:
      "instrumentInstruction h False FN B f b (printInstruction h (snap (seen @ I # rest)) I) cs I
         = (ins, info, cs1)"
      using prod_cases3 by blast
    obtain o2 i2 c2 where r:
      "forInstructions h False FN B f b snap (seen @ ins @ [I]) rest cs1 = (o2, i2, c2)"
      using prod_cases3 by blast
    from Cons.IH[OF r] instrumentInstruction_static_ins[OF a] Cons.prems False a r show ?thesis
      by (auto simp: add.assoc)
  qed
qed

lemma forInstructions_view:
  "forInstructions h en FN B f b snap seen body cs = (out, infos, cs') \<Longrightarrow>
   filter isRecordOrMem out = filter isRecordOrMem (staticBody f b (NextMemInstId cs) body)
   \<and> NextMemInstId cs' = NextMemInstId cs + word_of_nat (length (filter isMemInst body))"
proof (induction body arbitrary: seen cs out infos cs')
  case Nil
  then show ?case by simp
next
  case (Cons I rest)
  show ?case
  proof (cases "isSkipped I")
    case True
    obtain o2 i2 c2 where r: "forInstructions h en FN B f b snap (seen @ [I]) rest cs = (o2, i2, c2)"
      using prod_cases3 by blast
    from Cons.IH[OF r] Cons.prems True r isSkipped_not_mem[OF True] show ?thesis
      by auto
  next
    case False
    obtain ins info cs1 where a:
      "instrumentInstruction h en FN B f b (printInstruction h (snap (seen @ I # rest)) I) cs I
         = (ins, info, cs1)"
      using prod_cases3 by blast
    obtain o2 i2 c2 where r:
      "forInstructions h en FN B f b snap (seen @ ins @ [I]) rest cs1 = (o2, i2, c2)"
      using prod_cases3 by blast
    from Cons.IH[OF r] instrumentInstruction_view_ins[OF a] Cons.prems False a r show ?thesis
      by (cases "isMemInst I") (auto simp: add.assoc isRecordOrMem_mem)
  qed
qed

lemma staticBody_view:
  "filter isRecordOrMem (staticBody f b n xs) = staticBody f b n (filter isRecordOrMem xs)"
  by (induction xs arbitrary: n) (auto simp: isRecordOrMem_mem)

lemma hooks_view:
  "filter isRecordOrMem (if en then insertEntryHooks LI LoopIds f b A BB else insts BB)
     = filter isRecordOrMem (insts BB)"
  by (simp add: insertEntryHooks_filter isRecordOrMem_def hooks_class)

lemma forBlocks_static_exact:
  "forBlocks h False F B LI LoopIds f prev todo cs = (bs, S, P) \<Longrightarrow>
   bs = staticBlocks f B (NextMemInstId cs) todo"
proof (induction todo arbitrary: prev cs bs S P)
  case Nil
  then show ?case by simp
next
  case (Cons BB rest)
  let ?b = "lookup B (bptr BB)"
  obtain out infos cs1 where 1:
    "forInstructions h False (fname F) B f ?b (\<lambda>xs. F\<lparr>blocks := prev @ BB\<lparr>insts := xs\<rparr> # rest\<rparr>) []
        (insts BB) cs = (out, infos, cs1)"
    using prod_cases3 by blast
  obtain bs2 S2 P2 where r1:
    "forBlocks h False F B LI LoopIds f (prev @ [BB\<lparr>insts := out\<rparr>]) rest cs1 = (bs2, S2, P2)"
    using prod_cases3 by blast
  from forInstructions_static_exact[OF 1] Cons.IH[OF r1] Cons.prems 1 r1 show ?case
    by (auto simp: Let_def)
qed

lemma forBlocks_view:
  "forBlocks h en F B LI LoopIds f prev todo cs = (bs, S, P) \<Longrightarrow>
   map (\<lambda>BB. filter isRecordOrMem (insts BB)) bs
     = map (\<lambda>BB. filter isRecordOrMem (insts BB)) (staticBlocks f B (NextMemInstId cs) todo)"
proof (induction todo arbitrary: prev cs bs S P)
  case Nil
  then show ?case by simp
next
  case (Cons BB rest)
  let ?b = "lookup B (bptr BB)"
  let ?A = "blockAddrConst F BB"
  let ?body = "if en then insertEntryHooks LI LoopIds f ?b ?A BB else insts BB"
  obtain out infos cs1 where 1:
    "forInstructions h en (fname F) B f ?b (\<lambda>xs. F\<lparr>blocks := prev @ BB\<lparr>insts := xs\<rparr> # rest\<rparr>) [] ?body cs
       = (out, infos, cs1)"
    using prod_cases3 by blast
  obtain bs2 S2 P2 where r1:
    "forBlocks h en F B LI LoopIds f (prev @ [BB\<lparr>insts := out\<rparr>]) rest cs1 = (bs2, S2, P2)"
    using prod_cases3 by blast
  note v = forInstructions_view[OF 1]
  have a: "filter isRecordOrMem out = filter isRecordOrMem (staticBody f ?b (NextMemInstId cs) (insts BB))"
    using v by (simp only: staticBody_view hooks_view)
  have c: "NextMemInstId cs1 = NextMemInstId cs + word_of_nat (length (filter isMemInst (insts BB)))"
    using v by (simp only: body_filters)
  from a c Cons.IH[OF r1] Cons.prems 1 r1 show ?case
    by (auto simp: Let_def)
qed

lemma rewriteAll_static_exact:
  "rewriteAll h False n xs = (Fs, S, P, n') \<Longrightarrow> Fs = staticFuncs n xs"
proof (induction xs arbitrary: n Fs S P n')
  case Nil
  then show ?case by simp
next
  case (Cons F xs)
  show ?case
  proof (cases "isEligible F")
    case False
    with Cons show ?thesis
      by (auto split: prod.splits)
  next
    case True
    obtain bs S1 P1 where f1: "rewriteFunction h False F n = (bs, S1, P1)"
      using prod_cases3 by blast
    obtain a1 a2 a3 a4 where r1: "rewriteAll h False (n + 1) xs = (a1, a2, a3, a4)"
      using prod_cases4 by blast
    note b = forBlocks_static_exact[OF f1[unfolded rewriteFunction_def]]
    from Cons.IH[OF r1] b Cons.prems True f1 r1 show ?thesis
      by auto
  qed
qed

lemma rewriteAll_view:
  "rewriteAll h en n xs = (Fs, S, P, n') \<Longrightarrow>
   map recordsAndMem Fs = map recordsAndMem (staticFuncs n xs)"
proof (induction xs arbitrary: n Fs S P n')
  case Nil
  then show ?case by simp
next
  case (Cons F xs)
  show ?case
  proof (cases "isEligible F")
    case False
    with Cons show ?thesis
      by (auto split: prod.splits)
  next
    case True
    obtain bs S1 P1 where f1: "rewriteFunction h en F n = (bs, S1, P1)"
      using prod_cases3 by blast
    obtain a1 a2 a3 a4 where r1: "rewriteAll h en (n + 1) xs = (a1, a2, a3, a4)"
      using prod_cases4 by blast
    note b = forBlocks_view[OF f1[unfolded rewriteFunction_def]]
    from Cons.IH[OF r1] b Cons.prems True f1 r1 show ?thesis
      by (auto simp: recordsAndMem_def)
  qed
qed

lemma static_functions:
  assumes "isStaticOnlyMode h"
  shows "FunctionList (fst (instrumentModule h M fs)) = staticFuncs 0 (FunctionList M)"
proof -
  obtain Fs S P n' where r: "rewriteAll h False 0 (FunctionList M) = (Fs, S, P, n')"
    using prod_cases4 by blast
  from rewriteAll_static_exact[OF r] runOnFunctions_static[OF assms, of M] r show ?thesis
    by (simp add: instrumentModule_def)
qed

lemma view_functions:
  "map recordsAndMem (take (length (FunctionList M)) (FunctionList (fst (instrumentModule h M fs))))
     = map recordsAndMem (staticFuncs 0 (FunctionList M))"
proof (cases "isStaticOnlyMode h")
  case True
  have "length (staticFuncs k xs) = length xs" for k xs
    by (induction xs arbitrary: k) simp_all
  then show ?thesis
    by (simp add: static_functions[OF True])
next
  case False
  obtain Fs S P n' where r: "rewriteAll h True 0 (FunctionList M) = (Fs, S, P, n')"
    using prod_cases4 by blast
  from runOnFunctions_instrumented[OF False, of M] r obtain d where
    run: "runOnFunctions h M =
          (M\<lparr>GlobalList := GlobalList M @ [getModuleNameGlobal M],
             FunctionList := Fs @ d,
             global_ctors := global_ctors M @ [(''__bbtrace_ctor'', 0)],
             global_dtors := global_dtors M @ [(''__bbtrace_dtor'', 0)]\<rparr>, S, P)"
    by auto
  from rewriteAll_view[OF r] rewriteAll_length[OF r] run show ?thesis
    by (simp add: instrumentModule_def)
qed

text \<open>where the record of a load or store is put, in either mode\<close>

lemma forInstructions_split:
  "forInstructions h en FN B f b snap seen (xs @ ys) cs =
     (case forInstructions h en FN B f b (\<lambda>zs. snap (zs @ ys)) seen xs cs of
        (o1, i1, c1) \<Rightarrow>
          (case forInstructions h en FN B f b snap (seen @ o1) ys c1 of
             (o2, i2, c2) \<Rightarrow> (o1 @ o2, i1 @ i2, c2)))"
proof (induction xs arbitrary: seen cs)
  case Nil
  show ?case by (simp split: prod.splits)
next
  case (Cons I xs)
  show ?case
  proof (cases "isSkipped I")
    case True
    then show ?thesis
      by (simp add: Cons.IH split: prod.splits)
  next
    case False
    then show ?thesis
      by (simp add: Cons.IH split: prod.splits)
  qed
qed

lemma placement:
  assumes ns: "\<not> isSkipped I"
    and p: "forInstructions h en FN B f b (\<lambda>zs. snap (zs @ I # post)) seen pre cs = (o1, i1, c1)"
  shows "\<exists>o2. fst (forInstructions h en FN B f b snap seen (pre @ I # post) cs)
           = o1 @ fst (instrumentInstruction h en FN B f b
                         (printInstruction h (snap ((seen @ o1) @ I # post)) I) c1 I)
                @ I # o2"
  using ns p
  by (simp only: forInstructions_split[of _ _ _ _ _ _ _ _ pre "I # post"])
     (auto split: prod.splits)

lemma instrumentInstruction_mem_ins:
  assumes "isMemInst I"
  shows "\<exists>args. fst (instrumentInstruction h en FN B f b Buf cs I)
           = emitInstPcRecord f b (NextMemInstId cs)
               # (if en then [CallBase CallInst VoidTy (DirectCallee ''__bbtrace_on_mem'') args] else [])"
  using assms by (cases I) (auto simp: Let_def isMemInst_def)

lemma record_placement:
  assumes m: "isMemInst I"
    and p: "forInstructions h en FN B f b (\<lambda>zs. snap (zs @ I # post)) seen pre cs = (o1, i1, c1)"
  shows "\<exists>args o2. fst (forInstructions h en FN B f b snap seen (pre @ I # post) cs)
           = o1 @ emitInstPcRecord f b (NextMemInstId c1)
                # (if en then [CallBase CallInst VoidTy (DirectCallee ''__bbtrace_on_mem'') args] else [])
                @ I # o2"
proof -
  let ?Buf = "printInstruction h (snap ((seen @ o1) @ I # post)) I"
  from instrumentInstruction_mem_ins[OF m, of h en FN B f b ?Buf c1] obtain args where
    a: "fst (instrumentInstruction h en FN B f b ?Buf c1 I)
          = emitInstPcRecord f b (NextMemInstId c1)
              # (if en then [CallBase CallInst VoidTy (DirectCallee ''__bbtrace_on_mem'') args] else [])"
    by blast
  have ns: "\<not> isSkipped I"
    using m isSkipped_not_mem by blast
  show ?thesis
    using a ns p
    by (simp only: forInstructions_split[of _ _ _ _ _ _ _ _ pre "I # post"])
       (auto split: prod.splits)
qed

lemma llvm_used_emitPcMap [simp]: "llvm_used (emitPcMap h M P) = llvm_used M"
  by (simp add: emitPcMap_def Let_def)

lemma llvm_used_module: "llvm_used (fst (instrumentModule h M fs)) = llvm_used M"
proof (cases "isStaticOnlyMode h")
  case True
  from runOnFunctions_static[OF True, of M] show ?thesis
    by (simp add: instrumentModule_def split: prod.splits)
next
  case False
  obtain Fs S P n' where r: "rewriteAll h True 0 (FunctionList M) = (Fs, S, P, n')"
    using prod_cases4 by blast
  from runOnFunctions_instrumented[OF False, of M] r obtain d where
    "runOnFunctions h M =
          (M\<lparr>GlobalList := GlobalList M @ [getModuleNameGlobal M],
             FunctionList := Fs @ d,
             global_ctors := global_ctors M @ [(''__bbtrace_ctor'', 0)],
             global_dtors := global_dtors M @ [(''__bbtrace_dtor'', 0)]\<rparr>, S, P)"
    by auto
  then show ?thesis
    by (simp add: instrumentModule_def)
qed

lemma AsmTemplate_fields:
  "emitInstPcRecord f b i =
     CallBase CallInst VoidTy
       (InlineAsmCallee
          (''.pushsection .bbtrace_inst,'' @ [CHR 0x22, CHR ''a'', CHR 0x22] @ '',@progbits'' @ [CHR 0x0A]
           @ ''.long '' @ to_string (unat f) @ [CHR 0x0A]
           @ ''.long '' @ to_string (unat b) @ [CHR 0x0A]
           @ ''.long '' @ to_string (unat i) @ [CHR 0x0A]
           @ ''.long 0'' @ [CHR 0x0A]
           @ ''.quad 1f'' @ [CHR 0x0A]
           @ ''.popsection'' @ [CHR 0x0A]
           @ ''1:'' @ [CHR 0x0A])) []"
  by (simp add: emitInstPcRecord_def AsmTemplate_def)

lemma staticFuncs_modLoad:
  "staticFuncs 0 (FunctionList modLoad)
     = [\<lparr>fname = ''f'',
         blocks = [\<lparr>bptr = 1, bname = ''entry'',
                    insts = [emitInstPcRecord 0 0 0,
                             LoadInst (IntegerTy 32) (Local 0 (PointerTy 0)),
                             OtherInst VoidTy ''ret'']\<rparr>]\<rparr>]"
  by (simp add: modLoad_def mkModule_def isMemInst_def lookup_def isEligible_def isDeclaration_def
        starts_with_def)

lemma isStaticOnlyMode_hosts [simp]: "\<not> isStaticOnlyMode host0" "isStaticOnlyMode hostStatic"
  by (simp_all add: isStaticOnlyMode_def host0_def hostStatic_def)

lemma eligible_examples [simp]:
  "isEligible \<lparr>fname = ''f'', blocks = [B]\<rparr>"
  "\<not> isEligible \<lparr>fname = n, blocks = []\<rparr>"
  by (simp_all add: isEligible_def isDeclaration_def starts_with_def)

lemma modLoad_facts:
  "bbtrace_inst modLoad = []"
  "length (filter isMemInst (eligibleInsts modLoad)) = 1"
  "\<exists>F\<in>set (FunctionList modLoad). isEligible F"
  by (simp_all add: modLoad_def mkModule_def bbtrace_inst_def eligibleInsts_def isMemInst_def)

lemma modCall_facts:
  "bbtrace_inst modCall = []"
  "length (filter isMemInst (eligibleInsts modCall)) = 0"
  "length (filter (\<lambda>I. isMemInst I \<or> isInstrumentedCall I) (eligibleInsts modCall)) = 1"
  by (simp_all add: modCall_def mkModule_def bbtrace_inst_def eligibleInsts_def isMemInst_def
        isInstrumentedCall_def isIntrinsicInst_def isInlineAsmCall_def isBbtraceRuntimeCall_def
        starts_with_def)




lemma instsOfFuncs_unrecord:
  "instsOfFuncs (map unrecord Fs) = filter (\<lambda>I. \<not> isRecord I) (instsOfFuncs Fs)"
proof (induction Fs)
  case Nil
  show ?case by simp
next
  case (Cons F Fs)
  have "concat (map insts (map unrecordBlock bs)) = filter (\<lambda>I. \<not> isRecord I) (concat (map insts bs))" for bs
    by (induction bs) (simp_all add: unrecordBlock_def)
  with Cons show ?case
    by (simp add: unrecord_def)
qed

lemma filter_skipped_unrecord:
  "filter isSkipped (filter (\<lambda>I. \<not> isRecord I) xs) = filter isSkipped xs"
  by (induction xs) (auto dest: isSkipped_not_record)

lemma unrecord_same_runtime_calls:
  assumes "map unrecord Fs = map unrecord Gs"
  shows "filter isSkipped (instsOfFuncs Fs) = filter isSkipped (instsOfFuncs Gs)"
proof -
  have "filter isSkipped (instsOfFuncs Fs) = filter isSkipped (instsOfFuncs (map unrecord Fs))"
    by (simp only: instsOfFuncs_unrecord filter_skipped_unrecord)
  also have "\<dots> = filter isSkipped (instsOfFuncs (map unrecord Gs))"
    by (simp only: assms)
  also have "\<dots> = filter isSkipped (instsOfFuncs Gs)"
    by (simp only: instsOfFuncs_unrecord filter_skipped_unrecord)
  finally show ?thesis .
qed

text \<open>
  C3, as amended. When the static-only flag is set the pass adds no global constructor
  or destructor and no function, and inserts no call of the runtime. The functions of
  the result are those of \<open>staticFuncs\<close>: every eligible function has, directly in front
  of each of its loads and stores, the \<^verbatim>\<open>.bbtrace_inst\<close> record with its function id,
  block id and memory id, and is otherwise as it was; every other function is as it was.
  So the only instructions inserted are records (with the records taken out, every
  function is as it was), and in a module that had no record \<^verbatim>\<open>.bbtrace_inst\<close> holds
  one record for each load and store of the eligible blocks. The only global added is
  the PC map, when there is an eligible block.
\<close>

theorem static_only_inserts_records_only:
  assumes "isStaticOnlyMode h"
  shows "global_ctors (fst (instrumentModule h M fs)) = global_ctors M
    \<and> global_dtors (fst (instrumentModule h M fs)) = global_dtors M
    \<and> map unrecord (FunctionList (fst (instrumentModule h M fs))) = map unrecord (FunctionList M)
    \<and> filter isSkipped (instsOfFuncs (FunctionList (fst (instrumentModule h M fs))))
        = filter isSkipped (instsOfFuncs (FunctionList M))
    \<and> GlobalList (fst (instrumentModule h M fs))
        = GlobalList M @ (if snd (snd (runOnFunctions h M)) = [] then []
                          else [pcMapGlobal h (snd (snd (runOnFunctions h M)))])
    \<and> (if bbtrace_inst M = []
        then length (bbtrace_inst (fst (instrumentModule h M fs)))
               = length (filter isMemInst (eligibleInsts M))
        else True)
    \<and> FunctionList (fst (instrumentModule h M fs)) = staticFuncs 0 (FunctionList M)"
proof -
  note s = static_module[OF assms, of M fs]
  note e = static_functions[OF assms, of M fs]
  from s have "filter isSkipped (instsOfFuncs (FunctionList (fst (instrumentModule h M fs))))
        = filter isSkipped (instsOfFuncs (FunctionList M))"
    by (intro unrecord_same_runtime_calls) simp
  moreover have "bbtrace_inst M = [] \<Longrightarrow> length (bbtrace_inst (fst (instrumentModule h M fs)))
               = length (filter isMemInst (eligibleInsts M))"
    by (rule records_module[of M h fs, THEN conjunct2])
  ultimately show ?thesis
    using s e by simp
qed

theorem static_only_inserts_records_only_witness:
  "isStaticOnlyMode hostStatic
   \<and> global_ctors (fst (instrumentModule hostStatic modLoad fs0)) = []
   \<and> length (bbtrace_inst (fst (instrumentModule hostStatic modLoad fs0))) = 1
   \<and> FunctionList (fst (instrumentModule hostStatic modLoad fs0))
       = [\<lparr>fname = ''f'',
           blocks = [\<lparr>bptr = 1, bname = ''entry'',
                      insts = [emitInstPcRecord 0 0 0,
                               LoadInst (IntegerTy 32) (Local 0 (PointerTy 0)),
                               OtherInst VoidTy ''ret'']\<rparr>]\<rparr>]"
proof -
  have g: "global_ctors modLoad = []"
    by (simp add: modLoad_def mkModule_def)
  from static_only_inserts_records_only[of hostStatic modLoad fs0] modLoad_facts(1,2) g
    staticFuncs_modLoad
  show ?thesis
    by simp
qed

theorem static_only_mutates_counterexample:
  "isStaticOnlyMode hostStatic
   \<and> bbtrace_inst (fst (instrumentModule hostStatic modLoad fs0)) \<noteq> []
   \<and> fst (instrumentModule hostStatic modLoad fs0) \<noteq> modLoad"
proof -
  from records_module[OF modLoad_facts(1), of hostStatic fs0, THEN conjunct2] modLoad_facts(2)
  have "length (bbtrace_inst (fst (instrumentModule hostStatic modLoad fs0))) = 1"
    by simp
  then have n: "bbtrace_inst (fst (instrumentModule hostStatic modLoad fs0)) \<noteq> []"
    by auto
  with modLoad_facts(1) have "fst (instrumentModule hostStatic modLoad fs0) \<noteq> modLoad"
    by metis
  with n show ?thesis by simp
qed

text \<open>
  C9, as amended. When the module has an eligible function, the pass appends one global
  to the module: constant, private, named \<^verbatim>\<open>__bbtrace_pcmap\<close>, initialised with the
  array of the PC-map entries, placed in the section \<^verbatim>\<open>.bbtrace_map\<close> and aligned to
  the pointer size of the data layout. The global is appended to
  \<^verbatim>\<open>llvm.compiler.used\<close>, so the compiler must keep it; \<^verbatim>\<open>llvm.used\<close> is left as it
  was, so the linker is bound to keep the global only if the input module listed that
  name there already.
\<close>

theorem pc_map_global_emitted:
  assumes "\<exists>F\<in>set (FunctionList M). isEligible F"
  shows "GlobalList (fst (instrumentModule h M fs))
           = GlobalList (fst (runOnFunctions h M))
             @ [\<lparr>gname = ''__bbtrace_pcmap'', isConstant = True, glinkage = PrivateLinkage,
                 initializer = ConstantArray (map (pcMapEntry h) (snd (snd (runOnFunctions h M)))),
                 gsection = ''.bbtrace_map'', alignment = getPointerSize h\<rparr>]
    \<and> compiler_used (fst (instrumentModule h M fs)) = compiler_used M @ [''__bbtrace_pcmap'']
    \<and> llvm_used (fst (instrumentModule h M fs)) = llvm_used M
    \<and> compilerMustKeep (fst (instrumentModule h M fs)) ''__bbtrace_pcmap''
    \<and> linkerMustKeep (fst (instrumentModule h M fs)) ''__bbtrace_pcmap''
        = linkerMustKeep M ''__bbtrace_pcmap''"
  using pcmap_module[OF assms, of h fs] llvm_used_module[of h M fs]
  by (simp add: pcMapGlobal_def compilerMustKeep_def linkerMustKeep_def)

theorem pc_map_global_emitted_witness:
  "(\<exists>F\<in>set (FunctionList modLoad). isEligible F)
   \<and> compiler_used (fst (instrumentModule host0 modLoad fs0)) = [''__bbtrace_pcmap'']
   \<and> llvm_used (fst (instrumentModule host0 modLoad fs0)) = []"
  using pc_map_global_emitted[OF modLoad_facts(3), of host0 fs0] modLoad_facts(3)
  by (simp add: modLoad_def mkModule_def)

theorem pc_map_not_linker_retained_counterexample:
  "gname (last (GlobalList (fst (instrumentModule host0 modLoad fs0)))) = ''__bbtrace_pcmap''
   \<and> gsection (last (GlobalList (fst (instrumentModule host0 modLoad fs0)))) = ''.bbtrace_map''
   \<and> \<not> linkerMustKeep (fst (instrumentModule host0 modLoad fs0)) ''__bbtrace_pcmap''"
proof -
  have "llvm_used modLoad = []"
    by (simp add: modLoad_def mkModule_def)
  with pcmap_module[OF modLoad_facts(3), of host0 fs0] llvm_used_module[of host0 modLoad fs0]
  show ?thesis
    by (simp add: linkerMustKeep_def pcMapGlobal_def)
qed

text \<open>
  C10. If no function of the module is eligible (each is a declaration or has the
  runtime prefix), the file system is left as it was (no directory, no descriptor file)
  and no PC-map global is emitted: in static-only mode the module is returned unchanged,
  and in instrumented mode the module is exactly the one \<^verbatim>\<open>ensureCtorDtor\<close> builds,
  which has the module-name global, the constructor calling
  \<^verbatim>\<open>__bbtrace_register_module\<close> and the destructor calling \<^verbatim>\<open>__bbtrace_finalize\<close>,
  both registered at priority 0.
\<close>

theorem no_eligible_function_no_artifacts:
  assumes "list_all (\<lambda>F. \<not> isEligible F) (FunctionList M)"
  shows "instrumentModule h M fs = (if isStaticOnlyMode h then M else ensureCtorDtor M, fs)
    \<and> GlobalList (ensureCtorDtor M) = GlobalList M @ [getModuleNameGlobal M]
    \<and> compiler_used (ensureCtorDtor M) = compiler_used M
    \<and> global_ctors (ensureCtorDtor M) = global_ctors M @ [(''__bbtrace_ctor'', 0)]
    \<and> global_dtors (ensureCtorDtor M) = global_dtors M @ [(''__bbtrace_dtor'', 0)]
    \<and> CtorFn \<in> set (FunctionList (ensureCtorDtor M))
    \<and> DtorFn \<in> set (FunctionList (ensureCtorDtor M))"
proof -
  from assms have a: "\<forall>F\<in>set (FunctionList M). \<not> isEligible F"
    by (simp add: list_all_iff)
  from ensureCtorDtor_char[of M] obtain d0 where
    "ensureCtorDtor M =
       M\<lparr>GlobalList := GlobalList M @ [getModuleNameGlobal M],
         FunctionList := FunctionList M @ d0 @ [CtorFn, DtorFn],
         global_ctors := global_ctors M @ [(''__bbtrace_ctor'', 0)],
         global_dtors := global_dtors M @ [(''__bbtrace_dtor'', 0)]\<rparr>"
    by blast
  then show ?thesis
    using no_eligible_module[OF a, of h fs] by simp
qed

theorem no_eligible_function_no_artifacts_witness:
  "list_all (\<lambda>F. \<not> isEligible F) (FunctionList modDecl)
   \<and> instrumentModule host0 modDecl fs0 = (ensureCtorDtor modDecl, fs0)
   \<and> instrumentModule hostStatic modDecl fs0 = (modDecl, fs0)"
proof -
  have a: "list_all (\<lambda>F. \<not> isEligible F) (FunctionList modDecl)"
    by (simp add: modDecl_def mkModule_def)
  from no_eligible_function_no_artifacts[OF a, of host0 fs0]
       no_eligible_function_no_artifacts[OF a, of hostStatic fs0] a
  show ?thesis by simp
qed

lemma assignBlockIds_other:
  "p \<notin> bptr ` set bs \<Longrightarrow> assignBlockIds bs n m p = m p"
  by (induction bs arbitrary: n m) auto

lemma assignBlockIds_nth:
  "distinct (map bptr bs) \<Longrightarrow> i < length bs \<Longrightarrow>
   assignBlockIds bs n m (bptr (bs ! i)) = Some (n + word_of_nat i)"
proof (induction bs arbitrary: n m i)
  case Nil
  then show ?case by simp
next
  case (Cons b bs)
  show ?case
  proof (cases i)
    case 0
    with Cons.prems show ?thesis
      by (simp add: assignBlockIds_other)
  next
    case (Suc j)
    with Cons.prems have "assignBlockIds bs (n + 1) (m(bptr b \<mapsto> n)) (bptr (bs ! j))
        = Some (n + 1 + word_of_nat j)"
      by (intro Cons.IH) auto
    with Suc show ?thesis
      by (simp add: add.assoc)
  qed
qed

lemma lookup_blockIds:
  "distinct (map bptr (blocks F)) \<Longrightarrow> i < length (blocks F) \<Longrightarrow>
   lookup (assignBlockIds (blocks F) 0 Map.empty) (bptr (blocks F ! i)) = word_of_nat i"
  by (simp add: lookup_def assignBlockIds_nth)

lemma isEntryBlock_nth:
  assumes "distinct (map bptr (blocks F))" "i < length (blocks F)"
  shows "isEntryBlock F (blocks F ! i) = (i = 0)"
proof (cases "blocks F")
  case Nil
  with assms show ?thesis by simp
next
  case (Cons E rest)
  have "(map bptr (blocks F) ! i = map bptr (blocks F) ! 0) = (i = 0)"
    using assms by (intro nth_eq_iff_index_eq) auto
  moreover have "map bptr (blocks F) ! i = bptr (blocks F ! i)"
    using assms by simp
  moreover have "map bptr (blocks F) ! 0 = bptr E"
    using Cons by simp
  ultimately have "(bptr (blocks F ! i) = bptr E) = (i = 0)"
    by simp
  with Cons show ?thesis
    by (simp add: isEntryBlock_def)
qed

lemma blockAddrConst_nth:
  assumes "distinct (map bptr (blocks F))" "i < length (blocks F)"
  shows "blockAddrConst F (blocks F ! i)
           = (if i = 0 then FunctionRef (fname F) else BlockAddress (fname F) (bptr (blocks F ! i)))"
  by (simp add: blockAddrConst_def isEntryBlock_nth[OF assms] CreatePointerCast_def)

lemma instrumentFunction_results:
  "fst (snd (instrumentFunction h en k F FId (M, S0, P0))) = S0 @ fst (snd (rewriteFunction h en F FId))"
  "snd (snd (instrumentFunction h en k F FId (M, S0, P0))) = P0 @ snd (snd (rewriteFunction h en F FId))"
proof -
  from instrumentFunction_char[of en h k F FId M S0 P0] obtain d where
    "instrumentFunction h en k F FId (M, S0, P0) =
       (case rewriteFunction h en F FId of
          (bs, S', P') \<Rightarrow>
            (M\<lparr>FunctionList := (FunctionList M @ d)[k := F\<lparr>blocks := bs\<rparr>]\<rparr>, S0 @ S', P0 @ P'))"
    by blast
  then show "fst (snd (instrumentFunction h en k F FId (M, S0, P0))) = S0 @ fst (snd (rewriteFunction h en F FId))"
    "snd (snd (instrumentFunction h en k F FId (M, S0, P0))) = P0 @ snd (snd (rewriteFunction h en F FId))"
    by (simp_all split: prod.splits)
qed

lemma rewriteFunction_ids:
  "map InstId (filter isMemInfo (concat (map Instructions (fst (snd (rewriteFunction h en F FId))))))
     = map word_of_nat [0..<length (filter isMemInst (concat (map insts (blocks F))))]"
  "map InstId (filter isBranchInfo (concat (map Instructions (fst (snd (rewriteFunction h en F FId))))))
     = map word_of_nat [0..<length (filter isBranchInst (concat (map insts (blocks F))))]"
  "map InstId (filter isCallInfo (concat (map Instructions (fst (snd (rewriteFunction h en F FId))))))
     = map word_of_nat [0..<length (filter isInstrumentedCall (concat (map insts (blocks F))))]"
proof -
  obtain bs S P where r: "rewriteFunction h en F FId = (bs, S, P)"
    using prod_cases3 by blast
  note r' = r[unfolded rewriteFunction_def]
  from forBlocks_mem_ids[OF r'] forBlocks_branch_ids[OF r'] forBlocks_call_ids[OF r'] r
  show "map InstId (filter isMemInfo (concat (map Instructions (fst (snd (rewriteFunction h en F FId))))))
     = map word_of_nat [0..<length (filter isMemInst (concat (map insts (blocks F))))]"
  "map InstId (filter isBranchInfo (concat (map Instructions (fst (snd (rewriteFunction h en F FId))))))
     = map word_of_nat [0..<length (filter isBranchInst (concat (map insts (blocks F))))]"
  "map InstId (filter isCallInfo (concat (map Instructions (fst (snd (rewriteFunction h en F FId))))))
     = map word_of_nat [0..<length (filter isInstrumentedCall (concat (map insts (blocks F))))]"
    by simp_all
qed

lemma fnBranch_facts:
  "distinct (map bptr (blocks fnBranch))" "length (blocks fnBranch) = 3"
  "bptr (blocks fnBranch ! 0) = 10" "bptr (blocks fnBranch ! Suc 0) = 11" "bptr (blocks fnBranch ! 2) = 12"
  "fname fnBranch = ''g''"
  "length (filter isMemInst (concat (map insts (blocks fnBranch)))) = 1"
  "length (filter isBranchInst (concat (map insts (blocks fnBranch)))) = 2"
  by (simp_all add: fnBranch_def isMemInst_def isBranchInst_def)

lemma typeOf_constI32 [simp]: "typeOf (constI32 w) = IntegerTy 32"
  by (simp add: constI32_def)

lemma bitsOf_constI32 [simp]: "bitsOf L A (constI32 w) = Some (unat w)"
proof -
  have "unat w < 2 ^ 32"
    using unsigned_less[of w] by simp
  then show ?thesis
    by (simp add: constI32_def)
qed



text \<open>
  C7. Let the blocks of the function be distinct objects and let the successors of a
  branch be the blocks at positions \<open>j0\<close> and \<open>j1\<close>. For a conditional branch the
  descriptor entry has the two targets \<open>j0\<close> (the successor taken when the condition is
  true), then \<open>j1\<close>, and so has the \<open>targets\<close> array of its JSON object; for an
  unconditional branch it has the one target. In instrumented mode the hook
  \<^verbatim>\<open>__bbtrace_on_branch\<close> inserted in front of a conditional branch gets as taken id and
  taken address two selects on the branch condition, whose value is that of successor 0
  when the condition bit is set and that of successor 1 otherwise; in front of an
  unconditional branch it gets the id and address of the one successor. In the loop over
  a block the hook of a conditional branch is put directly in front of the branch,
  behind what the loop puts out for the instructions \<open>pre\<close> in front of it.
\<close>

theorem branch_targets_and_select:
  assumes "distinct (map bptr (blocks F))" and "j0 < length (blocks F)" and "j1 < length (blocks F)"
  shows "instrumentInstruction h en (fname F) (assignBlockIds (blocks F) 0 Map.empty) f b Buf cs
           (CondBr Cond (bptr (blocks F ! j0)) (bptr (blocks F ! j1)))
         = ((if en then
               [CallBase CallInst VoidTy (DirectCallee ''__bbtrace_on_branch'')
                  [constI32 f, constI32 b, constI32 (NextBranchInstId cs),
                   Select Cond (constI32 (word_of_nat j0)) (constI32 (word_of_nat j1)),
                   Select Cond (BlockAddress (fname F) (bptr (blocks F ! j0)))
                               (BlockAddress (fname F) (bptr (blocks F ! j1)))]]
             else []),
            \<lparr>Kind = Branch, InstId = NextBranchInstId cs,
             BranchTargets = [word_of_nat j0, word_of_nat j1], Buffer = Buf\<rparr>,
            cs\<lparr>NextBranchInstId := NextBranchInstId cs + 1\<rparr>)
    \<and> instrumentInstruction h en (fname F) (assignBlockIds (blocks F) 0 Map.empty) f b Buf cs
           (Br (bptr (blocks F ! j0)))
         = ((if en then
               [CallBase CallInst VoidTy (DirectCallee ''__bbtrace_on_branch'')
                  [constI32 f, constI32 b, constI32 (NextBranchInstId cs),
                   constI32 (word_of_nat j0), BlockAddress (fname F) (bptr (blocks F ! j0))]]
             else []),
            \<lparr>Kind = Branch, InstId = NextBranchInstId cs,
             BranchTargets = [word_of_nat j0], Buffer = Buf\<rparr>,
            cs\<lparr>NextBranchInstId := NextBranchInstId cs + 1\<rparr>)
    \<and> instJson \<lparr>Kind = Branch, InstId = i, BranchTargets = [word_of_nat j0, word_of_nat j1], Buffer = Buf\<rparr>
         = JObject [(''text'', JString Buf), (''kind'', JString ''branch''), (''inst_id'', JNumber (unat i)),
                    (''targets'', JArray [JNumber (unat (word_of_nat j0 :: u32)),
                                          JNumber (unat (word_of_nat j1 :: u32))])]
    \<and> (\<exists>o2. fst (forInstructions h en (fname F) (assignBlockIds (blocks F) 0 Map.empty) f b snap seen
                    (pre @ CondBr Cond (bptr (blocks F ! j0)) (bptr (blocks F ! j1)) # post) cs)
           = fst (forInstructions h en (fname F) (assignBlockIds (blocks F) 0 Map.empty) f b
                    (\<lambda>zs. snap (zs @ CondBr Cond (bptr (blocks F ! j0)) (bptr (blocks F ! j1)) # post))
                    seen pre cs)
             @ (if en then
                  [CallBase CallInst VoidTy (DirectCallee ''__bbtrace_on_branch'')
                     [constI32 f, constI32 b,
                      constI32 (NextBranchInstId (snd (snd
                        (forInstructions h en (fname F) (assignBlockIds (blocks F) 0 Map.empty) f b
                           (\<lambda>zs. snap (zs @ CondBr Cond (bptr (blocks F ! j0)) (bptr (blocks F ! j1)) # post))
                           seen pre cs)))),
                      Select Cond (constI32 (word_of_nat j0)) (constI32 (word_of_nat j1)),
                      Select Cond (BlockAddress (fname F) (bptr (blocks F ! j0)))
                                  (BlockAddress (fname F) (bptr (blocks F ! j1)))]]
                else [])
             @ CondBr Cond (bptr (blocks F ! j0)) (bptr (blocks F ! j1)) # o2)
    \<and> (typeOf Cond = IntegerTy 1 \<and> bitsOf L A Cond = Some c \<longrightarrow>
         bitsOf L A (Select Cond (constI32 (word_of_nat j0)) (constI32 (word_of_nat j1)))
           = Some (if odd c then unat (word_of_nat j0 :: u32) else unat (word_of_nat j1 :: u32))
         \<and> bitsOf L A (Select Cond (BlockAddress (fname F) (bptr (blocks F ! j0)))
                                     (BlockAddress (fname F) (bptr (blocks F ! j1))))
           = Some (if odd c then A (BlockAddress (fname F) (bptr (blocks F ! j0)))
                   else A (BlockAddress (fname F) (bptr (blocks F ! j1)))))"
proof -
  let ?I = "CondBr Cond (bptr (blocks F ! j0)) (bptr (blocks F ! j1))"
  let ?B = "assignBlockIds (blocks F) 0 Map.empty"
  obtain o1 i1 c1 where
    p: "forInstructions h en (fname F) ?B f b (\<lambda>zs. snap (zs @ ?I # post)) seen pre cs = (o1, i1, c1)"
    using prod_cases3 by blast
  have ns: "\<not> isSkipped ?I"
    by (simp add: isSkipped_def)
  from placement[OF ns p] obtain o2 where
    "fst (forInstructions h en (fname F) ?B f b snap seen (pre @ ?I # post) cs)
       = o1 @ fst (instrumentInstruction h en (fname F) ?B f b
                     (printInstruction h (snap ((seen @ o1) @ ?I # post)) ?I) c1 ?I)
            @ ?I # o2"
    by blast
  with p assms have pl: "\<exists>o2. fst (forInstructions h en (fname F) ?B f b snap seen (pre @ ?I # post) cs)
           = fst (forInstructions h en (fname F) ?B f b (\<lambda>zs. snap (zs @ ?I # post)) seen pre cs)
             @ (if en then
                  [CallBase CallInst VoidTy (DirectCallee ''__bbtrace_on_branch'')
                     [constI32 f, constI32 b,
                      constI32 (NextBranchInstId (snd (snd
                        (forInstructions h en (fname F) ?B f b (\<lambda>zs. snap (zs @ ?I # post)) seen pre cs)))),
                      Select Cond (constI32 (word_of_nat j0)) (constI32 (word_of_nat j1)),
                      Select Cond (BlockAddress (fname F) (bptr (blocks F ! j0)))
                                  (BlockAddress (fname F) (bptr (blocks F ! j1)))]]
                else [])
             @ ?I # o2"
    by (cases en) (simp_all add: Let_def lookup_blockIds CreatePointerCast_def)
  from assms pl show ?thesis
    by (simp add: Let_def lookup_blockIds CreatePointerCast_def instJson_def instKindToString_def)
qed

theorem branch_targets_and_select_witness:
  "distinct (map bptr (blocks fnBranch)) \<and> 1 < length (blocks fnBranch) \<and> 2 < length (blocks fnBranch)
   \<and> instrumentInstruction host0 True ''g'' (assignBlockIds (blocks fnBranch) 0 Map.empty) 0 0 []
        \<lparr>NextMemInstId = 0, NextBranchInstId = 0, NextCallInstId = 0\<rparr>
        (CondBr (Local 1 (IntegerTy 1)) 11 12)
      = ([CallBase CallInst VoidTy (DirectCallee ''__bbtrace_on_branch'')
            [constI32 0, constI32 0, constI32 0,
             Select (Local 1 (IntegerTy 1)) (constI32 1) (constI32 2),
             Select (Local 1 (IntegerTy 1)) (BlockAddress ''g'' 11) (BlockAddress ''g'' 12)]],
         \<lparr>Kind = Branch, InstId = 0, BranchTargets = [1, 2], Buffer = []\<rparr>,
         \<lparr>NextMemInstId = 0, NextBranchInstId = 1, NextCallInstId = 0\<rparr>)
   \<and> typeOf (Local 1 (IntegerTy 1)) = IntegerTy 1
   \<and> bitsOf (\<lambda>_. 1) (\<lambda>_. 0) (Local 1 (IntegerTy 1)) = Some 1
   \<and> bitsOf (\<lambda>_. 1) (\<lambda>_. 0) (Select (Local 1 (IntegerTy 1)) (constI32 1) (constI32 2)) = Some 1"
proof -
  have d: "distinct (map bptr (blocks fnBranch))" and l1: "Suc 0 < length (blocks fnBranch)"
    and l2: "2 < length (blocks fnBranch)"
    by (simp_all add: fnBranch_facts)
  note t = branch_targets_and_select[OF d l1 l2, where h = host0 and en = True and f = 0 and b = 0
         and Buf = "[]" and cs = "\<lparr>NextMemInstId = 0, NextBranchInstId = 0, NextCallInstId = 0\<rparr>"
         and Cond = "Local 1 (IntegerTy 1)" and L = "\<lambda>_. 1" and A = "\<lambda>_. 0" and c = 1]
  have s: "bitsOf (\<lambda>_. 1) (\<lambda>_. 0) (Select (Local 1 (IntegerTy 1)) (constI32 1) (constI32 2)) = Some 1"
    using t[THEN conjunct2, THEN conjunct2, THEN conjunct2, THEN conjunct2] by simp
  from t[THEN conjunct1] d l1 l2 s
  show ?thesis
    by (simp add: fnBranch_facts)
qed

text \<open>the environment is read by \<open>isStaticOnlyMode\<close> only\<close>

lemma getenv_materializeCallArg [simp]:
  "materializeCallArg (h\<lparr>getenv := e\<rparr>) Arg = materializeCallArg h Arg"
  by (simp add: materializeCallArg_def Let_def cong: if_cong)

lemma getenv_callOperands [simp]: "callOperands (h\<lparr>getenv := e\<rparr>) Args = callOperands h Args"
  by (simp add: callOperands_def)

lemma getenv_instrumentInstruction [simp]:
  "instrumentInstruction (h\<lparr>getenv := e\<rparr>) en FN B f b Buf cs I
     = instrumentInstruction h en FN B f b Buf cs I"
  by (cases I) (simp_all add: Let_def cong: if_cong)

lemma getenv_printInstruction [simp]:
  "printInstruction (h\<lparr>getenv := e\<rparr>) F I = printInstruction h F I"
  by (simp add: printInstruction_def)

lemma getenv_forInstructions [simp]:
  "forInstructions (h\<lparr>getenv := e\<rparr>) en FN B f b snap seen body cs
     = forInstructions h en FN B f b snap seen body cs"
  by (induction body arbitrary: seen cs) simp_all

lemma getenv_forBlocks [simp]:
  "forBlocks (h\<lparr>getenv := e\<rparr>) en F B LI LoopIds f prev todo cs
     = forBlocks h en F B LI LoopIds f prev todo cs"
  by (induction todo arbitrary: prev cs) (simp_all add: Let_def)

lemma getenv_rewriteFunction [simp]:
  "rewriteFunction (h\<lparr>getenv := e\<rparr>) en F n = rewriteFunction h en F n"
  by (simp add: rewriteFunction_def)

lemma getenv_rewriteAll [simp]:
  "rewriteAll (h\<lparr>getenv := e\<rparr>) en n xs = rewriteAll h en n xs"
  by (induction xs arbitrary: n) simp_all

lemma getenv_dumpBasicBlockInfo [simp]:
  "dumpBasicBlockInfo (h\<lparr>getenv := e\<rparr>) M S fs = dumpBasicBlockInfo h M S fs"
  by (simp add: dumpBasicBlockInfo_def descriptorPath_def Let_def cong: if_cong)

lemma getenv_pcMapGlobal [simp]: "pcMapGlobal (h\<lparr>getenv := e\<rparr>) P = pcMapGlobal h P"
  by (simp add: pcMapGlobal_def pcMapEntry_def fun_eq_iff)

lemma rewriteFunction_modes:
  assumes "rewriteFunction h en F n = (bs, S, P)" and "rewriteFunction h en' F n = (bs', S', P')"
  shows "P' = P \<and> map eraseText S' = map eraseText S"
  using assms unfolding rewriteFunction_def by (rule forBlocks_modes)

lemma rewriteAll_modes:
  "rewriteAll h en n xs = (Fs, S, P, n') \<Longrightarrow> rewriteAll h en' n xs = (Fs', S', P', n'') \<Longrightarrow>
   P' = P \<and> map eraseText S' = map eraseText S \<and> n'' = n'"
proof (induction xs arbitrary: n Fs S P n' Fs' S' P' n'')
  case Nil
  then show ?case by simp
next
  case (Cons F xs)
  show ?case
  proof (cases "isEligible F")
    case False
    obtain a1 a2 a3 a4 where r1: "rewriteAll h en n xs = (a1, a2, a3, a4)"
      using prod_cases4 by blast
    obtain b1 b2 b3 b4 where r2: "rewriteAll h en' n xs = (b1, b2, b3, b4)"
      using prod_cases4 by blast
    from Cons.IH[OF r1 r2] Cons.prems False r1 r2 show ?thesis
      by auto
  next
    case True
    obtain bs S1 P1 where f1: "rewriteFunction h en F n = (bs, S1, P1)"
      using prod_cases3 by blast
    obtain bs' S1' P1' where f2: "rewriteFunction h en' F n = (bs', S1', P1')"
      using prod_cases3 by blast
    obtain a1 a2 a3 a4 where r1: "rewriteAll h en (n + 1) xs = (a1, a2, a3, a4)"
      using prod_cases4 by blast
    obtain b1 b2 b3 b4 where r2: "rewriteAll h en' (n + 1) xs = (b1, b2, b3, b4)"
      using prod_cases4 by blast
    from Cons.IH[OF r1 r2] rewriteFunction_modes[OF f1 f2] Cons.prems True r1 r2 f1 f2 show ?thesis
      by auto
  qed
qed

lemma instrumentInstruction_Buffer_eq:
  "instrumentInstruction h en FN B f b Buf cs I = (ins, info, cs') \<Longrightarrow> Buffer info = Buf"
  by (cases I) (auto simp: Let_def genericInfo_def split: if_splits)

lemma forInstructions_buffers:
  assumes p: "printerIgnoresFunction h"
  shows "forInstructions h en FN B f b snap seen body cs = (out, infos, cs') \<Longrightarrow>
   map Buffer infos = map (printInstruction h F0) (filter (\<lambda>I. \<not> isSkipped I) body)"
proof (induction body arbitrary: seen cs out infos cs')
  case Nil
  then show ?case by simp
next
  case (Cons I rest)
  show ?case
  proof (cases "isSkipped I")
    case True
    with Cons.prems Cons.IH show ?thesis
      by (auto split: prod.splits)
  next
    case False
    obtain ins info cs1 where a:
      "instrumentInstruction h en FN B f b (printInstruction h (snap (seen @ I # rest)) I) cs I = (ins, info, cs1)"
      using prod_cases3 by blast
    have "printInstruction h (snap (seen @ I # rest)) I = printInstruction h F0 I"
      using p by (simp add: printInstruction_def printerIgnoresFunction_def)
    with instrumentInstruction_Buffer_eq[OF a] have "Buffer info = printInstruction h F0 I"
      by simp
    with False Cons.prems a show ?thesis
      by (auto split: prod.splits dest: Cons.IH)
  qed
qed

lemma infos_eq:
  "map eraseBuf xs = map eraseBuf ys \<Longrightarrow> map Buffer xs = map Buffer ys \<Longrightarrow> xs = ys"
proof (induction xs arbitrary: ys)
  case Nil
  then show ?case by simp
next
  case (Cons x xs)
  then obtain y ys' where y: "ys = y # ys'"
    by (cases ys) auto
  with Cons.prems have "eraseBuf x = eraseBuf y" "Buffer x = Buffer y"
    by simp_all
  then have "x = y"
    by (cases x, cases y) (simp add: eraseBuf_def)
  with Cons y show ?case by simp
qed

lemma forBlocks_buffers:
  assumes p: "printerIgnoresFunction h"
  shows "forBlocks h en F B LI LoopIds f prev todo cs = (bs, S, P) \<Longrightarrow>
   map (\<lambda>R. map Buffer (Instructions R)) S
     = map (\<lambda>BB. map (printInstruction h F0) (filter (\<lambda>I. \<not> isSkipped I) (insts BB))) todo"
proof (induction todo arbitrary: prev cs bs S P)
  case Nil
  then show ?case by simp
next
  case (Cons BB rest)
  let ?b = "lookup B (bptr BB)"
  let ?A = "blockAddrConst F BB"
  let ?body = "if en then insertEntryHooks LI LoopIds f ?b ?A BB else insts BB"
  obtain out infos cs1 where 1:
    "forInstructions h en (fname F) B f ?b (\<lambda>xs. F\<lparr>blocks := prev @ BB\<lparr>insts := xs\<rparr> # rest\<rparr>) [] ?body cs
       = (out, infos, cs1)"
    using prod_cases3 by blast
  obtain bs2 S2 P2 where r1:
    "forBlocks h en F B LI LoopIds f (prev @ [BB\<lparr>insts := out\<rparr>]) rest cs1 = (bs2, S2, P2)"
    using prod_cases3 by blast
  from forInstructions_buffers[OF p 1, of F0]
  have a: "map Buffer infos = map (printInstruction h F0) (filter (\<lambda>I. \<not> isSkipped I) (insts BB))"
    by (simp only: body_filters)
  from Cons.prems 1 r1 a Cons.IH[OF r1] show ?case
    by (auto simp: Let_def)
qed

lemma eraseText_eq:
  assumes "map eraseText S' = map eraseText S"
    and "map (\<lambda>R. map Buffer (Instructions R)) S' = map (\<lambda>R. map Buffer (Instructions R)) S"
  shows "S' = S"
  using assms
proof (induction S' arbitrary: S)
  case Nil
  then show ?case by simp
next
  case (Cons x xs)
  then obtain y ys where y: "S = y # ys"
    by (cases S) auto
  with Cons.prems have e: "eraseText x = eraseText y" "map Buffer (Instructions x) = map Buffer (Instructions y)"
    by simp_all
  from e(1) have "map eraseBuf (Instructions x) = map eraseBuf (Instructions y)"
    by (cases x, cases y) (simp add: eraseText_def)
  then have "Instructions x = Instructions y"
    using e(2) by (rule infos_eq)
  with e(1) have "x = y"
    by (cases x, cases y) (simp add: eraseText_def)
  with Cons y show ?case by simp
qed

lemma rewriteAll_buffers:
  assumes p: "printerIgnoresFunction h"
  shows "rewriteAll h en n xs = (Fs, S, P, n') \<Longrightarrow>
   map (\<lambda>R. map Buffer (Instructions R)) S
     = concat (map (\<lambda>F. map (\<lambda>BB. map (printInstruction h F0) (filter (\<lambda>I. \<not> isSkipped I) (insts BB)))
                          (blocks F)) (filter isEligible xs))"
proof (induction xs arbitrary: n Fs S P n')
  case Nil
  then show ?case by simp
next
  case (Cons F xs)
  show ?case
  proof (cases "isEligible F")
    case False
    with Cons show ?thesis
      by (auto split: prod.splits)
  next
    case True
    obtain bs S1 P1 where f1: "rewriteFunction h en F n = (bs, S1, P1)"
      using prod_cases3 by blast
    obtain a1 a2 a3 a4 where r1: "rewriteAll h en (n + 1) xs = (a1, a2, a3, a4)"
      using prod_cases4 by blast
    note b = forBlocks_buffers[OF p f1[unfolded rewriteFunction_def], of F0]
    from Cons.IH[OF r1] b Cons.prems True f1 r1 show ?thesis
      by auto
  qed
qed

lemma rewriteAll_modes_exact:
  assumes p: "printerIgnoresFunction h"
    and 1: "rewriteAll h en n xs = (Fs, S, P, n')" and 2: "rewriteAll h en' n xs = (Fs', S', P', n'')"
  shows "S' = S"
proof (rule eraseText_eq)
  show "map eraseText S' = map eraseText S"
    using rewriteAll_modes[OF 1 2] by simp
  show "map (\<lambda>R. map Buffer (Instructions R)) S' = map (\<lambda>R. map Buffer (Instructions R)) S"
    using rewriteAll_buffers[OF p 1, of undefined] rewriteAll_buffers[OF p 2, of undefined] by simp
qed

lemma forInstructions_count:
  "forInstructions h en FN B f b snap seen body cs = (out, infos, cs') \<Longrightarrow>
   length infos = length (filter (\<lambda>I. \<not> isSkipped I) body)"
proof (induction body arbitrary: seen cs out infos cs')
  case Nil
  then show ?case by simp
next
  case (Cons I rest)
  then show ?case
    by (cases "isSkipped I") (auto split: prod.splits)
qed

lemma forBlocks_count:
  "forBlocks h en F B LI LoopIds f prev todo cs = (bs, S, P) \<Longrightarrow>
   map (\<lambda>R. length (Instructions R)) S
     = map (\<lambda>BB. length (filter (\<lambda>I. \<not> isSkipped I) (insts BB))) todo"
proof (induction todo arbitrary: prev cs bs S P)
  case Nil
  then show ?case by simp
next
  case (Cons BB rest)
  let ?b = "lookup B (bptr BB)"
  let ?A = "blockAddrConst F BB"
  let ?body = "if en then insertEntryHooks LI LoopIds f ?b ?A BB else insts BB"
  obtain out infos cs1 where 1:
    "forInstructions h en (fname F) B f ?b (\<lambda>xs. F\<lparr>blocks := prev @ BB\<lparr>insts := xs\<rparr> # rest\<rparr>) [] ?body cs
       = (out, infos, cs1)"
    using prod_cases3 by blast
  obtain bs2 S2 P2 where r1:
    "forBlocks h en F B LI LoopIds f (prev @ [BB\<lparr>insts := out\<rparr>]) rest cs1 = (bs2, S2, P2)"
    using prod_cases3 by blast
  from forInstructions_count[OF 1]
  have a: "length infos = length (filter (\<lambda>I. \<not> isSkipped I) (insts BB))"
    by (simp only: body_filters)
  from Cons.prems 1 r1 a Cons.IH[OF r1] show ?case
    by (auto simp: Let_def)
qed

lemma rewriteAll_count:
  "rewriteAll h en n xs = (Fs, S, P, n') \<Longrightarrow>
   map (\<lambda>R. length (Instructions R)) S
     = map (\<lambda>BB. length (filter (\<lambda>I. \<not> isSkipped I) (insts BB)))
           (concat (map blocks (filter isEligible xs)))"
proof (induction xs arbitrary: n Fs S P n')
  case Nil
  then show ?case by simp
next
  case (Cons F xs)
  show ?case
  proof (cases "isEligible F")
    case False
    with Cons show ?thesis
      by (auto split: prod.splits)
  next
    case True
    obtain bs S1 P1 where f1: "rewriteFunction h en F n = (bs, S1, P1)"
      using prod_cases3 by blast
    obtain a1 a2 a3 a4 where r1: "rewriteAll h en (n + 1) xs = (a1, a2, a3, a4)"
      using prod_cases4 by blast
    note b = forBlocks_count[OF f1[unfolded rewriteFunction_def]]
    from Cons.IH[OF r1] b Cons.prems True f1 r1 show ?thesis
      by auto
  qed
qed

text \<open>what \<open>runOnFunctions\<close> returns, in terms of \<open>rewriteAll\<close>\<close>

lemma runOnFunctions_infos:
  "fst (snd (runOnFunctions h M)) = fst (snd (rewriteAll h (\<not> isStaticOnlyMode h) 0 (FunctionList M)))"
  "snd (snd (runOnFunctions h M))
     = fst (snd (snd (rewriteAll h (\<not> isStaticOnlyMode h) 0 (FunctionList M))))"
  "ModuleIdentifier (fst (runOnFunctions h M)) = ModuleIdentifier M"
  "filter (\<lambda>g. gsection g = ''.bbtrace_map'') (GlobalList (fst (runOnFunctions h M)))
     = filter (\<lambda>g. gsection g = ''.bbtrace_map'') (GlobalList M)"
proof -
  have "fst (snd (runOnFunctions h M)) = fst (snd (rewriteAll h (\<not> isStaticOnlyMode h) 0 (FunctionList M)))
    \<and> snd (snd (runOnFunctions h M))
         = fst (snd (snd (rewriteAll h (\<not> isStaticOnlyMode h) 0 (FunctionList M))))
    \<and> ModuleIdentifier (fst (runOnFunctions h M)) = ModuleIdentifier M
    \<and> filter (\<lambda>g. gsection g = ''.bbtrace_map'') (GlobalList (fst (runOnFunctions h M)))
         = filter (\<lambda>g. gsection g = ''.bbtrace_map'') (GlobalList M)"
  proof (cases "isStaticOnlyMode h")
    case True
    from runOnFunctions_static[OF True, of M] True show ?thesis
      by (simp split: prod.splits)
  next
    case False
    obtain Fs' S P n' where r: "rewriteAll h True 0 (FunctionList M) = (Fs', S, P, n')"
      using prod_cases4 by blast
    from runOnFunctions_instrumented[OF False, of M] r obtain d where
      "runOnFunctions h M =
         (M\<lparr>GlobalList := GlobalList M @ [getModuleNameGlobal M],
            FunctionList := Fs' @ d,
            global_ctors := global_ctors M @ [(''__bbtrace_ctor'', 0)],
            global_dtors := global_dtors M @ [(''__bbtrace_dtor'', 0)]\<rparr>, S, P)"
      by auto
    with False r show ?thesis
      by (simp add: getModuleNameGlobal_def)
  qed
  then show
    "fst (snd (runOnFunctions h M)) = fst (snd (rewriteAll h (\<not> isStaticOnlyMode h) 0 (FunctionList M)))"
    "snd (snd (runOnFunctions h M))
       = fst (snd (snd (rewriteAll h (\<not> isStaticOnlyMode h) 0 (FunctionList M))))"
    "ModuleIdentifier (fst (runOnFunctions h M)) = ModuleIdentifier M"
    "filter (\<lambda>g. gsection g = ''.bbtrace_map'') (GlobalList (fst (runOnFunctions h M)))
       = filter (\<lambda>g. gsection g = ''.bbtrace_map'') (GlobalList M)"
    by simp_all
qed

lemma instrumentModule_parts:
  "snd (instrumentModule h M fs)
     = dumpBasicBlockInfo h M (fst (snd (runOnFunctions h M))) fs"
  "filter (\<lambda>g. gsection g = ''.bbtrace_map'') (GlobalList (fst (instrumentModule h M fs)))
     = filter (\<lambda>g. gsection g = ''.bbtrace_map'') (GlobalList M)
       @ (if snd (snd (runOnFunctions h M)) = [] then []
          else [pcMapGlobal h (snd (snd (runOnFunctions h M)))])"
proof -
  obtain M2 S P where r: "runOnFunctions h M = (M2, S, P)"
    using prod_cases3 by blast
  from runOnFunctions_infos(3)[of h M] r have mi: "ModuleIdentifier M2 = ModuleIdentifier M"
    by simp
  have "dumpBasicBlockInfo h M2 S fs = dumpBasicBlockInfo h M S fs"
    using mi by (simp add: dumpBasicBlockInfo_def descriptorPath_def)
  with r show "snd (instrumentModule h M fs)
     = dumpBasicBlockInfo h M (fst (snd (runOnFunctions h M))) fs"
    by (simp add: instrumentModule_def)
  from runOnFunctions_infos(4)[of h M] r
  show "filter (\<lambda>g. gsection g = ''.bbtrace_map'') (GlobalList (fst (instrumentModule h M fs)))
     = filter (\<lambda>g. gsection g = ''.bbtrace_map'') (GlobalList M)
       @ (if snd (snd (runOnFunctions h M)) = [] then []
          else [pcMapGlobal h (snd (snd (runOnFunctions h M)))])"
    by (simp add: instrumentModule_def emitPcMap_globals pcMapGlobal_def)
qed

lemma file_content:
  assumes "fst (snd (runOnFunctions h M)) \<noteq> []" and "is_open h (snd (descriptorPath h M))"
  shows "files (snd (instrumentModule h M fs)) (snd (descriptorPath h M))
           = Some (map blockJson (fst (snd (runOnFunctions h M))))"
  using assms
  by (auto simp: instrumentModule_parts(1) dumpBasicBlockInfo_def Let_def split: prod.splits)

lemma json_fields:
  "blockJson R =
     JObject [(''func_id'', JNumber (unat (FuncId R))), (''func_name'', JString (FuncName R)),
              (''bb_id'', JNumber (unat (BbId R))), (''bb_name'', JString (BbName R)),
              (''header'', JString (Header R)),
              (''insts'', JArray (map instJson (Instructions R)))]"
  "instJson i =
     JObject ([(''text'', JString (Buffer i)), (''kind'', JString (instKindToString (Kind i)))]
              @ (if Kind i \<noteq> Generic then [(''inst_id'', JNumber (unat (InstId i)))] else [])
              @ (if BranchTargets i \<noteq> []
                 then [(''targets'', JArray (map (\<lambda>t. JNumber (unat t)) (BranchTargets i)))]
                 else []))"
  by (simp_all add: blockJson_def instJson_def)

lemma modes_module:
  assumes s: "isStaticOnlyMode (h\<lparr>getenv := e1\<rparr>)" and i: "\<not> isStaticOnlyMode (h\<lparr>getenv := e2\<rparr>)"
  shows "snd (snd (runOnFunctions (h\<lparr>getenv := e1\<rparr>) M)) = snd (snd (runOnFunctions (h\<lparr>getenv := e2\<rparr>) M))"
    and "map eraseText (fst (snd (runOnFunctions (h\<lparr>getenv := e1\<rparr>) M)))
           = map eraseText (fst (snd (runOnFunctions (h\<lparr>getenv := e2\<rparr>) M)))"
    and "printerIgnoresFunction h \<Longrightarrow>
         fst (snd (runOnFunctions (h\<lparr>getenv := e1\<rparr>) M)) = fst (snd (runOnFunctions (h\<lparr>getenv := e2\<rparr>) M))"
    and "map (\<lambda>R. length (Instructions R)) (fst (snd (runOnFunctions (h\<lparr>getenv := e2\<rparr>) M)))
           = map (\<lambda>BB. length (filter (\<lambda>I. \<not> isSkipped I) (insts BB)))
                 (concat (map blocks (filter isEligible (FunctionList M))))"
proof -
  obtain Fs S P n' where 1: "rewriteAll h False 0 (FunctionList M) = (Fs, S, P, n')"
    using prod_cases4 by blast
  obtain Fs' S' P' n'' where 2: "rewriteAll h True 0 (FunctionList M) = (Fs', S', P', n'')"
    using prod_cases4 by blast
  note m = rewriteAll_modes[OF 1 2]
  from m s i 1 2
  show "snd (snd (runOnFunctions (h\<lparr>getenv := e1\<rparr>) M)) = snd (snd (runOnFunctions (h\<lparr>getenv := e2\<rparr>) M))"
    by (simp add: runOnFunctions_infos)
  from m s i 1 2
  show "map eraseText (fst (snd (runOnFunctions (h\<lparr>getenv := e1\<rparr>) M)))
           = map eraseText (fst (snd (runOnFunctions (h\<lparr>getenv := e2\<rparr>) M)))"
    by (simp add: runOnFunctions_infos)
  from rewriteAll_count[OF 2] s i 1 2
  show "map (\<lambda>R. length (Instructions R)) (fst (snd (runOnFunctions (h\<lparr>getenv := e2\<rparr>) M)))
           = map (\<lambda>BB. length (filter (\<lambda>I. \<not> isSkipped I) (insts BB)))
                 (concat (map blocks (filter isEligible (FunctionList M))))"
    by (simp add: runOnFunctions_infos)
  assume p: "printerIgnoresFunction h"
  from rewriteAll_modes_exact[OF p 1 2] s i 1 2
  show "fst (snd (runOnFunctions (h\<lparr>getenv := e1\<rparr>) M)) = fst (snd (runOnFunctions (h\<lparr>getenv := e2\<rparr>) M))"
    by (simp add: runOnFunctions_infos)
qed


lemma to_string_numerals:
  "to_string 0 = ''0''" "to_string 1 = ''1''" "to_string 2 = ''2''" "to_string 3 = ''3''"
  by code_simp+

lemma to_string_digits:
  "to_string 0 = ''0''" "to_string (Suc 0) = ''1''" "to_string (Suc (Suc 0)) = ''2''"
  "to_string (Suc (Suc (Suc 0))) = ''3''" "to_string 2 = ''2''" "to_string 3 = ''3''"
  using to_string_numerals by (simp_all add: numeral_2_eq_2 numeral_3_eq_3)

lemma descriptors_modCall:
  "fst (snd (rewriteAll host0 False 0 (FunctionList modCall)))
     = [\<lparr>FuncId = 0, FuncName = ''f'', BbId = 0, BbName = ''entry'', Header = ''entry:'',
         Instructions =
           [\<lparr>Kind = Call, InstId = 0, BranchTargets = [], Buffer = ''  %0 = ...''\<rparr>,
            \<lparr>Kind = Generic, InstId = 0, BranchTargets = [], Buffer = ''  %1 = ...''\<rparr>,
            \<lparr>Kind = Generic, InstId = 0, BranchTargets = [], Buffer = ''  ...''\<rparr>]\<rparr>]"
  "fst (snd (rewriteAll host0 True 0 (FunctionList modCall)))
     = [\<lparr>FuncId = 0, FuncName = ''f'', BbId = 0, BbName = ''entry'', Header = ''entry:'',
         Instructions =
           [\<lparr>Kind = Call, InstId = 0, BranchTargets = [], Buffer = ''  %0 = ...''\<rparr>,
            \<lparr>Kind = Generic, InstId = 0, BranchTargets = [], Buffer = ''  %2 = ...''\<rparr>,
            \<lparr>Kind = Generic, InstId = 0, BranchTargets = [], Buffer = ''  ...''\<rparr>]\<rparr>]"
  by (simp_all add: modCall_def mkModule_def rewriteFunction_def host0_def
      Let_def insertEntryHooks_def insertBefore_def getFirstInsertionPt_def isPHI_def isEHPad_def
      isSkipped_def isBbtraceRuntimeCall_def starts_with_def lookup_def blockAddrConst_def
      isEntryBlock_def CreatePointerCast_def printInstruction_def slotPrinter_def
      hasResult_def hasName_def makeBlockHeader_def isIntrinsicInst_def isInlineAsmCall_def
      getCalledOperand_def callOperands_def constI32_def kInvalidLoopId_def to_string_digits
      assignLoopIds.simps genericInfo_def)

lemma descriptors_modRuntime:
  "map (\<lambda>R. map Kind (Instructions R)) (fst (snd (rewriteAll host0 en 0 (FunctionList modRuntime))))
     = [[Load]]"
  by (cases en)
     (simp_all add: modRuntime_def mkModule_def rewriteFunction_def host0_def
      Let_def insertEntryHooks_def insertBefore_def getFirstInsertionPt_def isPHI_def isEHPad_def
      isSkipped_def isBbtraceRuntimeCall_def starts_with_def lookup_def blockAddrConst_def
      isEntryBlock_def CreatePointerCast_def printInstruction_def
      hasName_def makeBlockHeader_def kInvalidLoopId_def assignLoopIds.simps)

lemma hostStatic_host0: "hostStatic = host0\<lparr>getenv := (\<lambda>_. Some ''1'')\<rparr>" "host0\<lparr>getenv := (\<lambda>_. None)\<rparr> = host0"
  by (simp_all add: hostStatic_def host0_def)

lemma hostPlain_facts:
  "isStaticOnlyMode (hostPlain\<lparr>getenv := (\<lambda>_. Some ''1'')\<rparr>)"
  "\<not> isStaticOnlyMode (hostPlain\<lparr>getenv := (\<lambda>_. None)\<rparr>)"
  "printerIgnoresFunction hostPlain"
  by (simp_all add: isStaticOnlyMode_def hostPlain_def printerIgnoresFunction_def)




lemma instrumentInstruction_kind:
  "instrumentInstruction h en FN B f b Buf cs I = (ins, info, cs') \<Longrightarrow> Kind info = kindOf I"
  by (cases I)
     (auto simp: Let_def genericInfo_def kindOf_def isMemInst_def isBranchInst_def
        isInstrumentedCall_def split: if_splits)

lemma forInstructions_kinds:
  "forInstructions h en FN B f b snap seen body cs = (out, infos, cs') \<Longrightarrow>
   map Kind infos = map kindOf (filter (\<lambda>I. \<not> isSkipped I) body)"
proof (induction body arbitrary: seen cs out infos cs')
  case Nil
  then show ?case by simp
next
  case (Cons I rest)
  show ?case
  proof (cases "isSkipped I")
    case True
    with Cons show ?thesis
      by (auto split: prod.splits)
  next
    case False
    obtain ins info cs1 where a:
      "instrumentInstruction h en FN B f b (printInstruction h (snap (seen @ I # rest)) I) cs I
         = (ins, info, cs1)"
      using prod_cases3 by blast
    obtain o2 i2 c2 where r:
      "forInstructions h en FN B f b snap (seen @ ins @ [I]) rest cs1 = (o2, i2, c2)"
      using prod_cases3 by blast
    from Cons.IH[OF r] instrumentInstruction_kind[OF a] Cons.prems False a r show ?thesis
      by auto
  qed
qed

lemma forBlocks_kinds:
  "forBlocks h en F B LI LoopIds f prev todo cs = (bs, S, P) \<Longrightarrow>
   map (\<lambda>R. map Kind (Instructions R)) S
     = map (\<lambda>BB. map kindOf (filter (\<lambda>I. \<not> isSkipped I) (insts BB))) todo"
proof (induction todo arbitrary: prev cs bs S P)
  case Nil
  then show ?case by simp
next
  case (Cons BB rest)
  let ?b = "lookup B (bptr BB)"
  let ?A = "blockAddrConst F BB"
  let ?body = "if en then insertEntryHooks LI LoopIds f ?b ?A BB else insts BB"
  obtain out infos cs1 where 1:
    "forInstructions h en (fname F) B f ?b (\<lambda>xs. F\<lparr>blocks := prev @ BB\<lparr>insts := xs\<rparr> # rest\<rparr>) [] ?body cs
       = (out, infos, cs1)"
    using prod_cases3 by blast
  obtain bs2 S2 P2 where r1:
    "forBlocks h en F B LI LoopIds f (prev @ [BB\<lparr>insts := out\<rparr>]) rest cs1 = (bs2, S2, P2)"
    using prod_cases3 by blast
  from forInstructions_kinds[OF 1]
  have a: "map Kind infos = map kindOf (filter (\<lambda>I. \<not> isSkipped I) (insts BB))"
    by (simp only: body_filters)
  from Cons.prems 1 r1 a Cons.IH[OF r1] show ?case
    by (auto simp: Let_def)
qed

lemma rewriteFunction_kinds:
  "map (\<lambda>R. map Kind (Instructions R)) (fst (snd (rewriteFunction h en F FId)))
     = map (\<lambda>BB. map kindOf (filter (\<lambda>I. \<not> isSkipped I) (insts BB))) (blocks F)"
proof -
  obtain bs S P where r: "rewriteFunction h en F FId = (bs, S, P)"
    using prod_cases3 by blast
  from forBlocks_kinds[OF r[unfolded rewriteFunction_def]] r show ?thesis
    by simp
qed

lemma rewriteFunction_pcEntries:
  assumes r: "rewriteFunction h en F n = (bs, S, P)" and d: "distinct (map bptr (blocks F))"
  shows "P = pcEntriesOf n F"
proof (rule nth_equalityI)
  note pc = rewriteFunction_pc[OF r]
  show "length P = length (pcEntriesOf n F)"
    by (simp add: pc pcEntriesOf_def)
  fix i
  assume "i < length P"
  then have i: "i < length (blocks F)"
    by (simp add: pc)
  then show "P ! i = pcEntriesOf n F ! i"
    using d by (simp add: pc pcEntriesOf_def lookup_blockIds blockAddrConst_nth)
qed

lemma rewriteAll_pcEntries:
  "rewriteAll h en n xs = (Fs, S, P, n') \<Longrightarrow> \<forall>G\<in>set xs. distinct (map bptr (blocks G)) \<Longrightarrow>
   P = pcEntries n xs"
proof (induction xs arbitrary: n Fs S P n')
  case Nil
  then show ?case by simp
next
  case (Cons F xs)
  from Cons.prems(2) have d: "distinct (map bptr (blocks F))"
    and ds: "\<forall>G\<in>set xs. distinct (map bptr (blocks G))"
    by simp_all
  show ?case
  proof (cases "isEligible F")
    case False
    obtain a1 a2 a3 a4 where r1: "rewriteAll h en n xs = (a1, a2, a3, a4)"
      using prod_cases4 by blast
    from Cons.IH[OF r1 ds] Cons.prems(1) False r1 show ?thesis
      by auto
  next
    case True
    obtain bs S1 P1 where f1: "rewriteFunction h en F n = (bs, S1, P1)"
      using prod_cases3 by blast
    obtain a1 a2 a3 a4 where r1: "rewriteAll h en (n + 1) xs = (a1, a2, a3, a4)"
      using prod_cases4 by blast
    from Cons.IH[OF r1 ds] rewriteFunction_pcEntries[OF f1 d] Cons.prems(1) True f1 r1 show ?thesis
      by auto
  qed
qed

lemma pcEntries_module:
  assumes "list_all (\<lambda>G. distinct (map bptr (blocks G))) (FunctionList M)"
  shows "snd (snd (runOnFunctions h M)) = pcEntries 0 (FunctionList M)"
    and "\<exists>F\<in>set (FunctionList M). isEligible F \<Longrightarrow>
         initializer (last (GlobalList (fst (instrumentModule h M fs))))
           = ConstantArray (map (pcMapEntry h) (pcEntries 0 (FunctionList M)))"
proof -
  from assms have d: "\<forall>G\<in>set (FunctionList M). distinct (map bptr (blocks G))"
    by (simp add: list_all_iff)
  obtain Fs S P n' where
    r: "rewriteAll h (\<not> isStaticOnlyMode h) 0 (FunctionList M) = (Fs, S, P, n')"
    using prod_cases4 by blast
  from rewriteAll_pcEntries[OF r d] r
  show p: "snd (snd (runOnFunctions h M)) = pcEntries 0 (FunctionList M)"
    by (simp add: runOnFunctions_infos(2))
  assume "\<exists>F\<in>set (FunctionList M). isEligible F"
  from pcmap_module[OF this, of h fs] p
  show "initializer (last (GlobalList (fst (instrumentModule h M fs))))
           = ConstantArray (map (pcMapEntry h) (pcEntries 0 (FunctionList M)))"
    by (simp add: pcMapGlobal_def)
qed

text \<open>
  C5. Within a function, in either mode, the descriptor has one entry for each
  instruction that is not a call of the runtime, in block-then-instruction order, with
  the kind of that instruction; the \<open>inst_id\<close>s of the entries of the loads and stores,
  taken in that order, are 0, 1, 2, ... up to the number of loads and stores of the
  function; so are those of the branches and those of the instrumented calls (the ids
  are \<^verbatim>\<open>uint32_t\<close>: the k-th is k as a 32-bit word).
\<close>

theorem inst_ids_dense_per_class:
  "map InstId (filter isMemInfo (concat (map Instructions
       (drop (length S0) (fst (snd (instrumentFunction h en k F FId (M, S0, P0))))))))
     = map word_of_nat [0..<length (filter isMemInst (concat (map insts (blocks F))))]
   \<and> map InstId (filter isBranchInfo (concat (map Instructions
       (drop (length S0) (fst (snd (instrumentFunction h en k F FId (M, S0, P0))))))))
     = map word_of_nat [0..<length (filter isBranchInst (concat (map insts (blocks F))))]
   \<and> map InstId (filter isCallInfo (concat (map Instructions
       (drop (length S0) (fst (snd (instrumentFunction h en k F FId (M, S0, P0))))))))
     = map word_of_nat [0..<length (filter isInstrumentedCall (concat (map insts (blocks F))))]
   \<and> map (\<lambda>R. map Kind (Instructions R))
         (drop (length S0) (fst (snd (instrumentFunction h en k F FId (M, S0, P0)))))
     = map (\<lambda>BB. map kindOf (filter (\<lambda>I. \<not> isSkipped I) (insts BB))) (blocks F)"
  by (simp add: instrumentFunction_results rewriteFunction_ids rewriteFunction_kinds)

theorem inst_ids_dense_per_class_witness:
  "map InstId (filter isBranchInfo (concat (map Instructions
       (fst (snd (instrumentFunction host0 True 0 fnBranch 0 (mkModule [fnBranch], [], [])))))))
     = [0, 1]"
proof -
  have "map word_of_nat [0..<2] = [0, 1 :: u32]"
    by (simp add: upt_rec)
  with inst_ids_dense_per_class[of "[]" host0 True 0 fnBranch 0 "mkModule [fnBranch]" "[]"]
  show ?thesis
    by (simp add: fnBranch_facts)
qed

text \<open>
  C6. For a function whose blocks are distinct objects, the PC-map entry that
  \<^verbatim>\<open>instrumentFunction\<close> appends for the block at position \<open>i\<close> has the function's id,
  the \<open>bb_id\<close> \<open>i\<close>, and as address the function pointer when \<open>i = 0\<close> (the entry block)
  and the block-address constant of that block otherwise; one entry is appended per
  block, and \<^verbatim>\<open>emitPcMap\<close> turns the entry into the struct with that address. Over a
  module whose functions all have distinct blocks, the PC map is \<open>pcEntries\<close>: those
  entries, function by function over the eligible functions, and they are what the
  array of the \<^verbatim>\<open>.bbtrace_map\<close> global is built from.
\<close>

theorem pc_map_entry_addresses:
  assumes "distinct (map bptr (blocks F))" and "i < length (blocks F)"
  shows "snd (snd (instrumentFunction h en k F FId (M, S0, P0))) ! (length P0 + i)
           = \<lparr>PcFuncId = FId, PcBbId = word_of_nat i,
              Address = (if i = 0 then FunctionRef (fname F)
                         else BlockAddress (fname F) (bptr (blocks F ! i)))\<rparr>
    \<and> length (snd (snd (instrumentFunction h en k F FId (M, S0, P0))))
        = length P0 + length (blocks F)
    \<and> pcMapEntry h (snd (snd (instrumentFunction h en k F FId (M, S0, P0))) ! (length P0 + i))
        = [constI32 FId, constI32 (word_of_nat i),
           PtrToInt (if i = 0 then FunctionRef (fname F)
                     else BlockAddress (fname F) (bptr (blocks F ! i)))
             (getPointerSizeInBits h 0)]
    \<and> (list_all (\<lambda>G. distinct (map bptr (blocks G))) (FunctionList M') \<longrightarrow>
         snd (snd (runOnFunctions h M')) = pcEntries 0 (FunctionList M')
         \<and> ((\<exists>G\<in>set (FunctionList M'). isEligible G) \<longrightarrow>
              initializer (last (GlobalList (fst (instrumentModule h M' fs))))
                = ConstantArray (map (pcMapEntry h) (pcEntries 0 (FunctionList M')))))"
proof -
  obtain bs S P where r: "rewriteFunction h en F FId = (bs, S, P)"
    using prod_cases3 by blast
  note pc = rewriteFunction_pc[OF r]
  have "P ! i = \<lparr>PcFuncId = FId, PcBbId = word_of_nat i,
              Address = (if i = 0 then FunctionRef (fname F)
                         else BlockAddress (fname F) (bptr (blocks F ! i)))\<rparr>"
    using assms by (simp add: pc lookup_blockIds blockAddrConst_nth)
  moreover have "length P = length (blocks F)"
    by (simp add: pc)
  ultimately have 1: "snd (snd (instrumentFunction h en k F FId (M, S0, P0))) ! (length P0 + i)
           = \<lparr>PcFuncId = FId, PcBbId = word_of_nat i,
              Address = (if i = 0 then FunctionRef (fname F)
                         else BlockAddress (fname F) (bptr (blocks F ! i)))\<rparr>
    \<and> length (snd (snd (instrumentFunction h en k F FId (M, S0, P0))))
        = length P0 + length (blocks F)
    \<and> pcMapEntry h (snd (snd (instrumentFunction h en k F FId (M, S0, P0))) ! (length P0 + i))
        = [constI32 FId, constI32 (word_of_nat i),
           PtrToInt (if i = 0 then FunctionRef (fname F)
                     else BlockAddress (fname F) (bptr (blocks F ! i)))
             (getPointerSizeInBits h 0)]"
    by (simp add: instrumentFunction_results r pcMapEntry_def)
  from 1 pcEntries_module(1)[of M' h] pcEntries_module(2)[of M' h fs] show ?thesis
    by blast
qed

theorem pc_map_entry_addresses_witness:
  "distinct (map bptr (blocks fnBranch)) \<and> 1 < length (blocks fnBranch)
   \<and> snd (snd (instrumentFunction host0 True 0 fnBranch 0 (mkModule [fnBranch], [], []))) ! 1
       = \<lparr>PcFuncId = 0, PcBbId = 1, Address = BlockAddress ''g'' 11\<rparr>
   \<and> list_all (\<lambda>G. distinct (map bptr (blocks G))) (FunctionList (mkModule [fnBranch]))
   \<and> snd (snd (runOnFunctions host0 (mkModule [fnBranch])))
       = [\<lparr>PcFuncId = 0, PcBbId = 0, Address = FunctionRef ''g''\<rparr>,
          \<lparr>PcFuncId = 0, PcBbId = 1, Address = BlockAddress ''g'' 11\<rparr>,
          \<lparr>PcFuncId = 0, PcBbId = 2, Address = BlockAddress ''g'' 12\<rparr>]"
proof -
  have d: "distinct (map bptr (blocks fnBranch))" and l: "1 < length (blocks fnBranch)"
    by (simp_all add: fnBranch_facts)
  have a: "list_all (\<lambda>G. distinct (map bptr (blocks G))) (FunctionList (mkModule [fnBranch]))"
    by (simp add: mkModule_def fnBranch_facts)
  have e: "pcEntries 0 (FunctionList (mkModule [fnBranch]))
       = [\<lparr>PcFuncId = 0, PcBbId = 0, Address = FunctionRef ''g''\<rparr>,
          \<lparr>PcFuncId = 0, PcBbId = 1, Address = BlockAddress ''g'' 11\<rparr>,
          \<lparr>PcFuncId = 0, PcBbId = 2, Address = BlockAddress ''g'' 12\<rparr>]"
    by (simp add: mkModule_def fnBranch_def pcEntriesOf_def isEligible_def isDeclaration_def
          starts_with_def upt_rec)
  note t = pc_map_entry_addresses[where h = host0 and en = True and k = 0 and FId = 0
             and M = "mkModule [fnBranch]" and ?S0.0 = "[]" and ?P0.0 = "[]"
             and M' = "mkModule [fnBranch]" and fs = fs0, OF d l]
  from t[THEN conjunct1] t[THEN conjunct2, THEN conjunct2, THEN conjunct2] d l a e
  show ?thesis
    by (simp add: fnBranch_facts)
qed

end
